theory Spec2Isabelle
  imports Complex_Main "HOL-Library.Stream" "HOL-Library.Multiset" "HOL-Library.Sublist"
begin

section \<open>Candidates, the object store and the random source\<close>

text \<open>
  The development embeds \<^verbatim>\<open>CodeExamples.py\<close>. Conventions of the embedding:
  \<^item> Python numbers (genes, fitness values, temperatures) are exact reals, and a fitness
    is never NaN; the float-only failures of \<^verbatim>\<open>math.exp\<close> are not represented. The
    rounding of floating-point arithmetic is represented where a result depends on it:
    stochastic universal sampling has a second embedding in binary64 arithmetic.
  \<^item> \<^verbatim>\<open>Candidate\<close> defines no \<^verbatim>\<open>__eq__\<close>, so \<^verbatim>\<open>==\<close> on candidates compares object
    identity. Objects live in a store, a list of \<^verbatim>\<open>Candidate\<close> records addressed by
    position; a reference is a position, the constructor appends a record.
  \<^item> The module \<^verbatim>\<open>random\<close> is an oracle: a stream of reals, one element consumed by
    each elementary draw. Each library function maps an arbitrary stream element onto
    exactly the outcomes Python documents for it.
  \<^item> The objective function is a pure total function on chromosomes.
  \<^item> A raised exception is a value of type \<open>error\<close>; a loop that may run forever is a
    \<^theory_text>\<open>partial_function\<close> in the option monad, \<open>None\<close> meaning that the call
    does not return.
\<close>

datatype error = ValueError | IndexError | ZeroDivisionError

record Candidate =
  chromosome :: "real list"
  fitness :: real

type_synonym ref = nat
type_synonym heap = "Candidate list"
type_synonym rng = "real stream"
type_synonym objective = "real list \<Rightarrow> real"

text \<open>\<^verbatim>\<open>Candidate(chromosome, fitness=0.0)\<close>: a new object at a fresh position.\<close>

definition Candidate_init :: "heap \<Rightarrow> real list \<Rightarrow> real \<Rightarrow> ref \<times> heap" where
  "Candidate_init h ch fit = (length h, h @ [\<lparr>chromosome = ch, fitness = fit\<rparr>])"

text \<open>\<^verbatim>\<open>self.fitness = fitness_function(self.chromosome)\<close>, in place.\<close>

definition calculate_fitness :: "heap \<Rightarrow> ref \<Rightarrow> objective \<Rightarrow> heap" where
  "calculate_fitness h r fitness_function =
     h[r := (h ! r)\<lparr>fitness := fitness_function (chromosome (h ! r))\<rparr>]"

subsection \<open>The module random\<close>

text \<open>\<^verbatim>\<open>random.random()\<close>: a value in \<open>[0, 1)\<close>.\<close>

definition random_random :: "rng \<Rightarrow> real \<times> rng" where
  "random_random rs = (frac (shd rs), stl rs)"

text \<open>\<^verbatim>\<open>random.uniform(a, b)\<close> is \<^verbatim>\<open>a + (b - a) * random()\<close>.\<close>

definition random_uniform :: "real \<Rightarrow> real \<Rightarrow> rng \<Rightarrow> real \<times> rng" where
  "random_uniform a b rs = (case random_random rs of (u, rs') \<Rightarrow> (a + (b - a) * u, rs'))"

text \<open>A position below \<open>n\<close> (for \<open>0 < n\<close>), as \<^verbatim>\<open>_randbelow(n)\<close>.\<close>

definition randbelow :: "nat \<Rightarrow> rng \<Rightarrow> nat \<times> rng" where
  "randbelow n rs = (nat \<lfloor>frac (shd rs) * real n\<rfloor>, stl rs)"

text \<open>\<^verbatim>\<open>random.randint(a, b)\<close>: an integer in \<open>[a, b]\<close>, ValueError on an empty range.\<close>

definition random_randint :: "int \<Rightarrow> int \<Rightarrow> rng \<Rightarrow> error + (int \<times> rng)" where
  "random_randint a b rs =
     (if b < a then Inl ValueError
      else case randbelow (nat (b - a + 1)) rs of (k, rs') \<Rightarrow> Inr (a + int k, rs'))"

text \<open>\<^verbatim>\<open>random.choice(seq)\<close>: IndexError on an empty sequence.\<close>

definition random_choice :: "'a list \<Rightarrow> rng \<Rightarrow> error + ('a \<times> rng)" where
  "random_choice xs rs =
     (if xs = [] then Inl IndexError
      else case randbelow (length xs) rs of (k, rs') \<Rightarrow> Inr (xs ! k, rs'))"

text \<open>
  \<^verbatim>\<open>random.sample(population, k)\<close>: \<open>k\<close> elements at distinct positions, in selection
  order; ValueError when \<open>k\<close> is negative or larger than the population.
\<close>

fun sample_pick :: "'a list \<Rightarrow> nat \<Rightarrow> rng \<Rightarrow> 'a list \<times> rng" where
  "sample_pick xs 0 rs = ([], rs)"
| "sample_pick xs (Suc k) rs =
     (case randbelow (length xs) rs of (i, rs') \<Rightarrow>
        (case sample_pick (take i xs @ drop (Suc i) xs) k rs' of (ys, rs'') \<Rightarrow>
           (xs ! i # ys, rs'')))"

definition random_sample :: "'a list \<Rightarrow> int \<Rightarrow> rng \<Rightarrow> error + ('a list \<times> rng)" where
  "random_sample xs k rs =
     (if k < 0 \<or> int (length xs) < k then Inl ValueError
      else Inr (sample_pick xs (nat k) rs))"

text \<open>\<^verbatim>\<open>random.shuffle(x)\<close>: the list in a drawn order.\<close>

definition random_shuffle :: "'a list \<Rightarrow> rng \<Rightarrow> 'a list \<times> rng" where
  "random_shuffle xs rs = sample_pick xs (length xs) rs"

text \<open>\<^verbatim>\<open>random.gauss(mu, sigma)\<close>: \<open>mu + sigma * z\<close> for a drawn variate \<open>z\<close>.\<close>

definition random_gauss :: "real \<Rightarrow> real \<Rightarrow> rng \<Rightarrow> real \<times> rng" where
  "random_gauss mu sigma rs = (mu + sigma * shd rs, stl rs)"

section \<open>Local search\<close>

text \<open>
  The neighbour construction shared, line for line, by \<^verbatim>\<open>hill_climb\<close>,
  \<^verbatim>\<open>simulated_annealing\<close> and \<^verbatim>\<open>tabu_search\<close>: copy the chromosome, overwrite one
  drawn position with \<^verbatim>\<open>randint(0, 100)\<close>, construct the neighbour and evaluate it.
\<close>

definition single_gene_neighbor ::
  "heap \<Rightarrow> ref \<Rightarrow> objective \<Rightarrow> rng \<Rightarrow> error + (ref \<times> heap \<times> rng)" where
  "single_gene_neighbor h candidate fitness_function rs =
     (let neighbor_chromosome = chromosome (h ! candidate) in
      case random_randint 0 (int (length neighbor_chromosome) - 1) rs of
        Inl e \<Rightarrow> Inl e
      | Inr (index_to_modify, rs1) \<Rightarrow>
          (case random_randint 0 100 rs1 of
             Inl e \<Rightarrow> Inl e
           | Inr (gene, rs2) \<Rightarrow>
               (case Candidate_init h
                       (neighbor_chromosome[nat index_to_modify := of_int gene]) 0 of
                  (neighbor, h1) \<Rightarrow>
                    Inr (neighbor, calculate_fitness h1 neighbor fitness_function, rs2))))"

subsection \<open>Hill climbing\<close>

text \<open>One pass through the body of the \<^verbatim>\<open>for\<close> loop of \<^verbatim>\<open>hill_climb\<close>.\<close>

definition hill_climb_step ::
  "objective \<Rightarrow> ref \<times> heap \<times> rng \<Rightarrow> (error \<times> heap) + (ref \<times> heap \<times> rng)" where
  "hill_climb_step fitness_function s =
     (case s of (candidate, h, rs) \<Rightarrow>
        (case single_gene_neighbor h candidate fitness_function rs of
           Inl e \<Rightarrow> Inl (e, h)
         | Inr (neighbor, h', rs') \<Rightarrow>
             Inr (if fitness (h' ! neighbor) > fitness (h' ! candidate)
                  then neighbor else candidate, h', rs')))"

fun hill_climb_loop ::
  "nat \<Rightarrow> objective \<Rightarrow> ref \<times> heap \<times> rng \<Rightarrow> (error \<times> heap) + (ref \<times> heap \<times> rng)" where
  "hill_climb_loop 0 fitness_function s = Inr s"
| "hill_climb_loop (Suc n) fitness_function s =
     (case hill_climb_step fitness_function s of
        Inl e \<Rightarrow> Inl e
      | Inr s' \<Rightarrow> hill_climb_loop n fitness_function s')"

text \<open>
  \<^verbatim>\<open>hill_climb(candidate, fitness_function, max_iterations)\<close>. A raised exception
  carries the store as the caller finds it.
\<close>

definition hill_climb ::
  "heap \<Rightarrow> ref \<Rightarrow> objective \<Rightarrow> int \<Rightarrow> rng \<Rightarrow> (error \<times> heap) + (ref \<times> heap \<times> rng)" where
  "hill_climb h candidate fitness_function max_iterations rs =
     hill_climb_loop (nat max_iterations) fitness_function
       (candidate, calculate_fitness h candidate fitness_function, rs)"

subsection \<open>Simulated annealing\<close>

record sa_state =
  sa_candidate :: ref
  sa_best_candidate :: ref
  sa_temperature :: real
  sa_heap :: heap
  sa_rng :: rng

text \<open>
  The acceptance test \<^verbatim>\<open>fitness_diff > 0 or random.random() < math.exp(fitness_diff /
  current_temperature)\<close>: the right operand, and its draw, are evaluated only when the
  left one is false; the division raises on temperature zero.
\<close>

definition sa_accept :: "real \<Rightarrow> real \<Rightarrow> rng \<Rightarrow> error + (bool \<times> rng)" where
  "sa_accept fitness_diff current_temperature rs =
     (if fitness_diff > 0 then Inr (True, rs)
      else case random_random rs of (u, rs') \<Rightarrow>
        if current_temperature = 0 then Inl ZeroDivisionError
        else Inr (u < exp (fitness_diff / current_temperature), rs'))"

text \<open>One pass through the body of the \<^verbatim>\<open>while\<close> loop.\<close>

definition sa_step :: "objective \<Rightarrow> real \<Rightarrow> sa_state \<Rightarrow> error + sa_state" where
  "sa_step fitness_function cooling_rate s =
     (case single_gene_neighbor (sa_heap s) (sa_candidate s) fitness_function (sa_rng s) of
        Inl e \<Rightarrow> Inl e
      | Inr (neighbor, h', rs') \<Rightarrow>
          (case sa_accept (fitness (h' ! neighbor) - fitness (h' ! sa_candidate s))
                  (sa_temperature s) rs' of
             Inl e \<Rightarrow> Inl e
           | Inr (accept, rs'') \<Rightarrow>
               Inr \<lparr>sa_candidate = (if accept then neighbor else sa_candidate s),
                    sa_best_candidate =
                      (if accept \<and> fitness (h' ! neighbor) > fitness (h' ! sa_best_candidate s)
                       then neighbor else sa_best_candidate s),
                    sa_temperature = sa_temperature s * (1 - cooling_rate),
                    sa_heap = h',
                    sa_rng = rs''\<rparr>))"

partial_function (option) sa_loop ::
  "objective \<Rightarrow> real \<Rightarrow> real \<Rightarrow> sa_state \<Rightarrow> ((error \<times> heap) + sa_state) option" where
  "sa_loop fitness_function cooling_rate min_temperature s =
     (if sa_temperature s > min_temperature
      then (case sa_step fitness_function cooling_rate s of
              Inl e \<Rightarrow> Some (Inl (e, sa_heap s))
            | Inr s' \<Rightarrow> sa_loop fitness_function cooling_rate min_temperature s')
      else Some (Inr s))"

text \<open>The state on entry to the loop: the initial candidate evaluated in place.\<close>

definition sa_init :: "heap \<Rightarrow> ref \<Rightarrow> objective \<Rightarrow> real \<Rightarrow> rng \<Rightarrow> sa_state" where
  "sa_init h candidate fitness_function initial_temperature rs =
     \<lparr>sa_candidate = candidate,
      sa_best_candidate = candidate,
      sa_temperature = initial_temperature,
      sa_heap = calculate_fitness h candidate fitness_function,
      sa_rng = rs\<rparr>"

definition simulated_annealing ::
  "heap \<Rightarrow> ref \<Rightarrow> objective \<Rightarrow> real \<Rightarrow> real \<Rightarrow> real \<Rightarrow> rng \<Rightarrow>
     ((error \<times> heap) + (ref \<times> heap \<times> rng)) option" where
  "simulated_annealing h candidate fitness_function initial_temperature cooling_rate
       min_temperature rs =
     (case sa_loop fitness_function cooling_rate min_temperature
             (sa_init h candidate fitness_function initial_temperature rs) of
        None \<Rightarrow> None
      | Some (Inl e) \<Rightarrow> Some (Inl e)
      | Some (Inr s) \<Rightarrow> Some (Inr (sa_best_candidate s, sa_heap s, sa_rng s)))"

text \<open>
  The state of the run after \<open>k\<close> passes through the loop body (the final state, if
  the loop has ended before); the run visits exactly these states.
\<close>

fun sa_iter ::
  "nat \<Rightarrow> objective \<Rightarrow> real \<Rightarrow> real \<Rightarrow> sa_state \<Rightarrow> (error \<times> heap) + sa_state" where
  "sa_iter 0 fitness_function cooling_rate min_temperature s = Inr s"
| "sa_iter (Suc k) fitness_function cooling_rate min_temperature s =
     (if sa_temperature s > min_temperature
      then (case sa_step fitness_function cooling_rate s of
              Inl e \<Rightarrow> Inl (e, sa_heap s)
            | Inr s' \<Rightarrow> sa_iter k fitness_function cooling_rate min_temperature s')
      else Inr s)"

subsection \<open>Tabu search\<close>

text \<open>\<^verbatim>\<open>deque(maxlen=n).append(x)\<close>: push on the right, drop the leftmost when over.\<close>

definition deque_append :: "nat \<Rightarrow> 'a list \<Rightarrow> 'a \<Rightarrow> 'a list" where
  "deque_append maxlen q x = (let q' = q @ [x] in if length q' > maxlen then tl q' else q')"

record tabu_state =
  ts_current_candidate :: ref
  ts_best_candidate :: ref
  ts_tabu_list :: "real list list"
  ts_heap :: heap
  ts_rng :: rng

text \<open>The inner \<^verbatim>\<open>for _ in range(neighborhood_size)\<close> loop.\<close>

fun tabu_neighborhood ::
  "nat \<Rightarrow> heap \<Rightarrow> ref \<Rightarrow> objective \<Rightarrow> rng \<Rightarrow> error + (ref list \<times> heap \<times> rng)" where
  "tabu_neighborhood 0 h current_candidate fitness_function rs = Inr ([], h, rs)"
| "tabu_neighborhood (Suc n) h current_candidate fitness_function rs =
     (case single_gene_neighbor h current_candidate fitness_function rs of
        Inl e \<Rightarrow> Inl e
      | Inr (neighbor, h', rs') \<Rightarrow>
          (case tabu_neighborhood n h' current_candidate fitness_function rs' of
             Inl e \<Rightarrow> Inl e
           | Inr (neighborhood, h'', rs'') \<Rightarrow> Inr (neighbor # neighborhood, h'', rs'')))"

text \<open>The scan \<^verbatim>\<open>for neighbor in neighborhood\<close> that keeps \<^verbatim>\<open>best_neighbor\<close>.\<close>

fun tabu_best_neighbor ::
  "heap \<Rightarrow> real list list \<Rightarrow> ref \<Rightarrow> ref list \<Rightarrow> ref option \<Rightarrow> ref option" where
  "tabu_best_neighbor h tabu_list best_candidate [] best_neighbor = best_neighbor"
| "tabu_best_neighbor h tabu_list best_candidate (neighbor # neighborhood) best_neighbor =
     tabu_best_neighbor h tabu_list best_candidate neighborhood
       (if chromosome (h ! neighbor) \<notin> set tabu_list
           \<or> fitness (h ! neighbor) > fitness (h ! best_candidate)
        then (case best_neighbor of
                None \<Rightarrow> Some neighbor
              | Some b \<Rightarrow> if fitness (h ! neighbor) > fitness (h ! b)
                          then Some neighbor else Some b)
        else best_neighbor)"

text \<open>One pass through the body of the outer \<^verbatim>\<open>for\<close> loop.\<close>

definition tabu_step :: "objective \<Rightarrow> nat \<Rightarrow> nat \<Rightarrow> tabu_state \<Rightarrow> error + tabu_state" where
  "tabu_step fitness_function tabu_list_size neighborhood_size s =
     (case tabu_neighborhood neighborhood_size (ts_heap s) (ts_current_candidate s)
             fitness_function (ts_rng s) of
        Inl e \<Rightarrow> Inl e
      | Inr (neighborhood, h', rs') \<Rightarrow>
          (let best_neighbor =
                 tabu_best_neighbor h' (ts_tabu_list s) (ts_best_candidate s) neighborhood None;
               move = (case best_neighbor of
                         None \<Rightarrow> False
                       | Some b \<Rightarrow> fitness (h' ! b) > fitness (h' ! ts_current_candidate s));
               current_candidate = (if move then the best_neighbor else ts_current_candidate s);
               best_candidate =
                 (if move \<and> fitness (h' ! the best_neighbor) > fitness (h' ! ts_best_candidate s)
                  then the best_neighbor else ts_best_candidate s)
           in Inr \<lparr>ts_current_candidate = current_candidate,
                   ts_best_candidate = best_candidate,
                   ts_tabu_list =
                     deque_append tabu_list_size (ts_tabu_list s)
                       (chromosome (h' ! current_candidate)),
                   ts_heap = h',
                   ts_rng = rs'\<rparr>))"

fun tabu_loop ::
  "nat \<Rightarrow> objective \<Rightarrow> nat \<Rightarrow> nat \<Rightarrow> tabu_state \<Rightarrow> (error \<times> heap) + tabu_state" where
  "tabu_loop 0 fitness_function tabu_list_size neighborhood_size s = Inr s"
| "tabu_loop (Suc n) fitness_function tabu_list_size neighborhood_size s =
     (case tabu_step fitness_function tabu_list_size neighborhood_size s of
        Inl e \<Rightarrow> Inl (e, ts_heap s)
      | Inr s' \<Rightarrow> tabu_loop n fitness_function tabu_list_size neighborhood_size s')"

text \<open>
  The state on entry to the loop. \<^verbatim>\<open>deque(maxlen=tabu_list_size)\<close> raises ValueError
  on a negative bound, after the initial candidate has been evaluated.
\<close>

definition tabu_init :: "heap \<Rightarrow> ref \<Rightarrow> objective \<Rightarrow> nat \<Rightarrow> rng \<Rightarrow> tabu_state" where
  "tabu_init h initial_candidate fitness_function tabu_list_size rs =
     (let h0 = calculate_fitness h initial_candidate fitness_function in
      \<lparr>ts_current_candidate = initial_candidate,
       ts_best_candidate = initial_candidate,
       ts_tabu_list = deque_append tabu_list_size [] (chromosome (h0 ! initial_candidate)),
       ts_heap = h0,
       ts_rng = rs\<rparr>)"

definition tabu_search ::
  "heap \<Rightarrow> ref \<Rightarrow> objective \<Rightarrow> int \<Rightarrow> int \<Rightarrow> int \<Rightarrow> rng \<Rightarrow>
     (error \<times> heap) + (ref \<times> heap \<times> rng)" where
  "tabu_search h initial_candidate fitness_function tabu_list_size max_iterations
       neighborhood_size rs =
     (if tabu_list_size < 0
      then Inl (ValueError, calculate_fitness h initial_candidate fitness_function)
      else case tabu_loop (nat max_iterations) fitness_function (nat tabu_list_size)
                  (nat neighborhood_size)
                  (tabu_init h initial_candidate fitness_function (nat tabu_list_size) rs) of
             Inl e \<Rightarrow> Inl e
           | Inr s \<Rightarrow> Inr (ts_best_candidate s, ts_heap s, ts_rng s))"

section \<open>Selection operators\<close>

text \<open>
  A generation is a list of references. A parent is \<open>Some\<close> reference, or \<open>None\<close>
  where a \<^verbatim>\<open>select_one\<close> falls off the end of its loop and returns Python's
  \<^verbatim>\<open>None\<close>; \<^verbatim>\<open>==\<close> on parents is equality of these values.
\<close>

definition total_fitness_of :: "heap \<Rightarrow> ref list \<Rightarrow> real" where
  "total_fitness_of h generation = sum_list (map (\<lambda>c. fitness (h ! c)) generation)"

text \<open>\<^verbatim>\<open>sorted(xs, key=k)\<close> is stable; with \<^verbatim>\<open>reverse=True\<close> equal keys keep their order too.\<close>

definition sorted_by :: "('a \<Rightarrow> real) \<Rightarrow> 'a list \<Rightarrow> 'a list" where
  "sorted_by key xs = sort_key key xs"

definition sorted_by_reverse :: "('a \<Rightarrow> real) \<Rightarrow> 'a list \<Rightarrow> 'a list" where
  "sorted_by_reverse key xs = rev (sort_key key (rev xs))"

text \<open>\<^verbatim>\<open>int(x)\<close> truncates towards zero; \<^verbatim>\<open>xs[:k]\<close> counts a negative \<open>k\<close> from the end.\<close>

definition py_int :: "real \<Rightarrow> int" where
  "py_int x = (if 0 \<le> x then \<lfloor>x\<rfloor> else \<lceil>x\<rceil>)"

definition slice_to :: "int \<Rightarrow> 'a list \<Rightarrow> 'a list" where
  "slice_to k xs = (if k < 0 then take (nat (int (length xs) + k)) xs else take (nat k) xs)"

subsection \<open>Roulette wheel\<close>

fun roulette_walk :: "heap \<Rightarrow> real \<Rightarrow> real \<Rightarrow> ref list \<Rightarrow> ref option" where
  "roulette_walk h pick current [] = None"
| "roulette_walk h pick current (candidate # generation) =
     (if current + fitness (h ! candidate) > pick then Some candidate
      else roulette_walk h pick (current + fitness (h ! candidate)) generation)"

definition roulette_select_one :: "heap \<Rightarrow> ref list \<Rightarrow> real \<Rightarrow> rng \<Rightarrow> ref option \<times> rng" where
  "roulette_select_one h generation total_fitness rs =
     (case random_uniform 0 total_fitness rs of
        (pick, rs') \<Rightarrow> (roulette_walk h pick 0 generation, rs'))"

text \<open>\<^verbatim>\<open>while parent2 == parent1: parent2 = select_one()\<close>.\<close>

partial_function (option) roulette_resample ::
  "heap \<Rightarrow> ref list \<Rightarrow> real \<Rightarrow> ref option \<Rightarrow> ref option \<Rightarrow> rng \<Rightarrow> (ref option \<times> rng) option"
  where
  "roulette_resample h generation total_fitness parent1 parent2 rs =
     (if parent2 = parent1
      then (case roulette_select_one h generation total_fitness rs of
              (p, rs') \<Rightarrow> roulette_resample h generation total_fitness parent1 p rs')
      else Some (parent2, rs))"

definition roulette_wheel_selection ::
  "heap \<Rightarrow> ref list \<Rightarrow> rng \<Rightarrow> ((ref option \<times> ref option) \<times> rng) option" where
  "roulette_wheel_selection h generation rs =
     (let total_fitness = total_fitness_of h generation in
      case roulette_select_one h generation total_fitness rs of
        (parent1, rs1) \<Rightarrow>
          (case roulette_select_one h generation total_fitness rs1 of
             (parent2, rs2) \<Rightarrow>
               (case roulette_resample h generation total_fitness parent1 parent2 rs2 of
                  None \<Rightarrow> None
                | Some (parent2', rs3) \<Rightarrow> Some ((parent1, parent2'), rs3))))"

subsection \<open>Rank based\<close>

fun rank_walk :: "real \<Rightarrow> real \<Rightarrow> nat \<Rightarrow> ref list \<Rightarrow> ref option" where
  "rank_walk pick current i [] = None"
| "rank_walk pick current i (candidate # ranked_generation) =
     (if current + real (i + 1) > pick then Some candidate
      else rank_walk pick (current + real (i + 1)) (i + 1) ranked_generation)"

definition rank_select_one :: "ref list \<Rightarrow> nat \<Rightarrow> rng \<Rightarrow> ref option \<times> rng" where
  "rank_select_one ranked_generation total_ranks rs =
     (case random_uniform 0 (real total_ranks) rs of
        (pick, rs') \<Rightarrow> (rank_walk pick 0 0 ranked_generation, rs'))"

definition rank_based_selection ::
  "heap \<Rightarrow> ref list \<Rightarrow> rng \<Rightarrow> (ref option \<times> ref option) \<times> rng" where
  "rank_based_selection h generation rs =
     (let ranked_generation = sorted_by (\<lambda>c. fitness (h ! c)) generation;
          total_ranks = sum_list [1 ..< length ranked_generation + 1]
      in case rank_select_one ranked_generation total_ranks rs of
           (parent1, rs1) \<Rightarrow>
             (case rank_select_one ranked_generation total_ranks rs1 of
                (parent2, rs2) \<Rightarrow> ((parent1, parent2), rs2)))"

subsection \<open>Tournament\<close>

text \<open>\<^verbatim>\<open>max(xs, key=k)\<close>: the first maximal element, ValueError on an empty sequence.\<close>

fun max_scan :: "('a \<Rightarrow> real) \<Rightarrow> 'a \<Rightarrow> 'a list \<Rightarrow> 'a" where
  "max_scan key best [] = best"
| "max_scan key best (x # xs) = max_scan key (if key x > key best then x else best) xs"

definition py_max :: "('a \<Rightarrow> real) \<Rightarrow> 'a list \<Rightarrow> error + 'a" where
  "py_max key xs = (case xs of [] \<Rightarrow> Inl ValueError | x # xs' \<Rightarrow> Inr (max_scan key x xs'))"

definition tournament_select_one :: "heap \<Rightarrow> ref list \<Rightarrow> int \<Rightarrow> rng \<Rightarrow> error + (ref \<times> rng)" where
  "tournament_select_one h generation tournament_size rs =
     (case random_sample generation tournament_size rs of
        Inl e \<Rightarrow> Inl e
      | Inr (tournament, rs') \<Rightarrow>
          (case py_max (\<lambda>candidate. fitness (h ! candidate)) tournament of
             Inl e \<Rightarrow> Inl e
           | Inr best \<Rightarrow> Inr (best, rs')))"

definition tournament_selection ::
  "heap \<Rightarrow> ref list \<Rightarrow> int \<Rightarrow> rng \<Rightarrow> error + ((ref \<times> ref) \<times> rng)" where
  "tournament_selection h generation tournament_size rs =
     (case tournament_select_one h generation tournament_size rs of
        Inl e \<Rightarrow> Inl e
      | Inr (parent1, rs1) \<Rightarrow>
          (case tournament_select_one h generation tournament_size rs1 of
             Inl e \<Rightarrow> Inl e
           | Inr (parent2, rs2) \<Rightarrow> Inr ((parent1, parent2), rs2)))"

subsection \<open>Stochastic universal sampling\<close>

text \<open>
  The inner \<^verbatim>\<open>while cumulative_fitness > current_point and len(parents) < num_parents\<close>,
  on the pair \<open>(parents, current_point)\<close>.
\<close>

function sus_collect ::
  "int \<Rightarrow> real \<Rightarrow> real \<Rightarrow> ref \<Rightarrow> ref list \<times> real \<Rightarrow> ref list \<times> real" where
  "sus_collect num_parents pointer_spacing cumulative_fitness candidate (parents, current_point) =
     (if cumulative_fitness > current_point \<and> int (length parents) < num_parents
      then sus_collect num_parents pointer_spacing cumulative_fitness candidate
             (parents @ [candidate], current_point + pointer_spacing)
      else (parents, current_point))"
  by pat_completeness auto
termination
  by (relation "measure (\<lambda>(n, sp, cf, c, ps, cp). nat (n - int (length ps)))") auto

declare sus_collect.simps [simp del]

text \<open>The outer \<^verbatim>\<open>for candidate in generation\<close>, carrying \<open>cumulative_fitness\<close>.\<close>

fun sus_walk ::
  "heap \<Rightarrow> int \<Rightarrow> real \<Rightarrow> real \<Rightarrow> ref list \<Rightarrow> ref list \<times> real \<Rightarrow> ref list \<times> real" where
  "sus_walk h num_parents pointer_spacing cumulative_fitness [] acc = acc"
| "sus_walk h num_parents pointer_spacing cumulative_fitness (candidate # generation) acc =
     sus_walk h num_parents pointer_spacing (cumulative_fitness + fitness (h ! candidate))
       generation
       (sus_collect num_parents pointer_spacing (cumulative_fitness + fitness (h ! candidate))
          candidate acc)"

text \<open>
  \<^verbatim>\<open>return parents[0], parents[1]\<close>: a pair whatever \<open>num_parents\<close> is, IndexError when
  fewer than two parents were collected; the division raises on \<open>num_parents = 0\<close>.
\<close>

definition stochastic_universal_sampling ::
  "heap \<Rightarrow> ref list \<Rightarrow> int \<Rightarrow> rng \<Rightarrow> error + ((ref \<times> ref) \<times> rng)" where
  "stochastic_universal_sampling h generation num_parents rs =
     (let total_fitness = total_fitness_of h generation in
      if num_parents = 0 then Inl ZeroDivisionError
      else let pointer_spacing = total_fitness / of_int num_parents in
        case random_uniform 0 pointer_spacing rs of
          (start_point, rs') \<Rightarrow>
            (case sus_walk h num_parents pointer_spacing 0 generation ([], start_point) of
               (parents, current_point) \<Rightarrow>
                 if length parents < 2 then Inl IndexError
                 else Inr ((parents ! 0, parents ! 1), rs')))"

subsection \<open>Stochastic universal sampling in binary64 arithmetic\<close>

text \<open>
  The interpreter computes \<^verbatim>\<open>stochastic_universal_sampling\<close> with binary64 floats: the
  result of each arithmetic operation is rounded to the nearest float, a tie to the
  float of even mantissa (numbers in the normal range; overflow is not represented).
  The definitions below are those of the preceding subsection with every arithmetic
  result rounded, and with \<^verbatim>\<open>random.random()\<close> a multiple of \<open>2\<^sup>-\<^sup>5\<^sup>3\<close> below 1.
\<close>

definition round_half_even :: "real \<Rightarrow> int" where
  "round_half_even x =
     (let f = \<lfloor>x\<rfloor>; d = x - of_int f
      in if d < 1 / 2 then f else if 1 / 2 < d then f + 1
         else if even f then f else f + 1)"

definition double_round :: "real \<Rightarrow> real" where
  "double_round x =
     (if x = 0 then 0
      else let ulp = 2 powr (of_int \<lfloor>log 2 \<bar>x\<bar>\<rfloor> - 52)
           in of_int (round_half_even (x / ulp)) * ulp)"

definition random_random_double :: "rng \<Rightarrow> real \<times> rng" where
  "random_random_double rs = (of_int \<lfloor>frac (shd rs) * 2 ^ 53\<rfloor> / 2 ^ 53, stl rs)"

definition random_uniform_double :: "real \<Rightarrow> real \<Rightarrow> rng \<Rightarrow> real \<times> rng" where
  "random_uniform_double a b rs =
     (case random_random_double rs of
        (u, rs') \<Rightarrow> (double_round (a + double_round (double_round (b - a) * u)), rs'))"

text \<open>
  \<^verbatim>\<open>sum(candidate.fitness for candidate in generation)\<close>, added from the left (an
  interpreter that compensates the rounding error of \<^verbatim>\<open>sum\<close> agrees wherever the
  partial sums are exact).
\<close>

definition total_fitness_double :: "heap \<Rightarrow> ref list \<Rightarrow> real" where
  "total_fitness_double h generation =
     foldl (\<lambda>s candidate. double_round (s + fitness (h ! candidate))) 0 generation"

function sus_collect_double ::
  "int \<Rightarrow> real \<Rightarrow> real \<Rightarrow> ref \<Rightarrow> ref list \<times> real \<Rightarrow> ref list \<times> real" where
  "sus_collect_double num_parents pointer_spacing cumulative_fitness candidate
       (parents, current_point) =
     (if cumulative_fitness > current_point \<and> int (length parents) < num_parents
      then sus_collect_double num_parents pointer_spacing cumulative_fitness candidate
             (parents @ [candidate], double_round (current_point + pointer_spacing))
      else (parents, current_point))"
  by pat_completeness auto
termination
  by (relation "measure (\<lambda>(n, sp, cf, c, ps, cp). nat (n - int (length ps)))") auto

declare sus_collect_double.simps [simp del]

fun sus_walk_double ::
  "heap \<Rightarrow> int \<Rightarrow> real \<Rightarrow> real \<Rightarrow> ref list \<Rightarrow> ref list \<times> real \<Rightarrow> ref list \<times> real" where
  "sus_walk_double h num_parents pointer_spacing cumulative_fitness [] acc = acc"
| "sus_walk_double h num_parents pointer_spacing cumulative_fitness (candidate # generation) acc =
     sus_walk_double h num_parents pointer_spacing
       (double_round (cumulative_fitness + fitness (h ! candidate))) generation
       (sus_collect_double num_parents pointer_spacing
          (double_round (cumulative_fitness + fitness (h ! candidate))) candidate acc)"

definition stochastic_universal_sampling_double ::
  "heap \<Rightarrow> ref list \<Rightarrow> int \<Rightarrow> rng \<Rightarrow> error + ((ref \<times> ref) \<times> rng)" where
  "stochastic_universal_sampling_double h generation num_parents rs =
     (let total_fitness = total_fitness_double h generation in
      if num_parents = 0 then Inl ZeroDivisionError
      else let pointer_spacing = double_round (total_fitness / of_int num_parents) in
        case random_uniform_double 0 pointer_spacing rs of
          (start_point, rs') \<Rightarrow>
            (case sus_walk_double h num_parents pointer_spacing 0 generation
                    ([], start_point) of
               (parents, current_point) \<Rightarrow>
                 if length parents < 2 then Inl IndexError
                 else Inr ((parents ! 0, parents ! 1), rs')))"

subsection \<open>Truncation and elitism\<close>

text \<open>\<^verbatim>\<open>while parent2 == parent1: parent2 = random.choice(truncated_generation)\<close>.\<close>

partial_function (option) truncation_resample ::
  "ref list \<Rightarrow> ref \<Rightarrow> ref \<Rightarrow> rng \<Rightarrow> (error + (ref \<times> rng)) option" where
  "truncation_resample truncated_generation parent1 parent2 rs =
     (if parent2 = parent1
      then (case random_choice truncated_generation rs of
              Inl e \<Rightarrow> Some (Inl e)
            | Inr (p, rs') \<Rightarrow> truncation_resample truncated_generation parent1 p rs')
      else Some (Inr (parent2, rs)))"

definition truncation_selection ::
  "heap \<Rightarrow> ref list \<Rightarrow> real \<Rightarrow> rng \<Rightarrow> (error + ((ref \<times> ref) \<times> rng)) option" where
  "truncation_selection h generation truncation_percentage rs =
     (let sorted_generation = sorted_by_reverse (\<lambda>c. fitness (h ! c)) generation;
          truncation_size = py_int (truncation_percentage * real (length generation));
          truncated_generation = slice_to truncation_size sorted_generation
      in case random_choice truncated_generation rs of
           Inl e \<Rightarrow> Some (Inl e)
         | Inr (parent1, rs1) \<Rightarrow>
             (case random_choice truncated_generation rs1 of
                Inl e \<Rightarrow> Some (Inl e)
              | Inr (parent2, rs2) \<Rightarrow>
                  (case truncation_resample truncated_generation parent1 parent2 rs2 of
                     None \<Rightarrow> None
                   | Some (Inl e) \<Rightarrow> Some (Inl e)
                   | Some (Inr (parent2', rs3)) \<Rightarrow> Some (Inr ((parent1, parent2'), rs3)))))"

definition elitism_selection ::
  "heap \<Rightarrow> ref list \<Rightarrow> real \<Rightarrow> rng \<Rightarrow> error + ((ref \<times> ref) \<times> rng)" where
  "elitism_selection h generation elite_fraction rs =
     (let sorted_generation = sorted_by_reverse (\<lambda>c. fitness (h ! c)) generation;
          elite_size = max 1 (py_int (elite_fraction * real (length generation)));
          elite_candidates = slice_to elite_size sorted_generation
      in case random_choice elite_candidates rs of
           Inl e \<Rightarrow> Inl e
         | Inr (parent1, rs1) \<Rightarrow>
             (case random_choice elite_candidates rs1 of
                Inl e \<Rightarrow> Inl e
              | Inr (parent2, rs2) \<Rightarrow> Inr ((parent1, parent2), rs2)))"

section \<open>Crossover and mutation operators\<close>

text \<open>
  Every operator computes an offspring chromosome from the chromosomes it reads and ends
  with \<^verbatim>\<open>return Candidate(offspring_chromosome)\<close>. The chromosome computations come
  first; \<open>return_Candidate\<close> is the shared last line.
\<close>

definition return_Candidate ::
  "heap \<Rightarrow> error + (real list \<times> rng) \<Rightarrow> error + (ref \<times> heap \<times> rng)" where
  "return_Candidate h res =
     (case res of
        Inl e \<Rightarrow> Inl e
      | Inr (offspring_chromosome, rs') \<Rightarrow>
          (case Candidate_init h offspring_chromosome 0 of (r, h') \<Rightarrow> Inr (r, h', rs')))"

text \<open>\<^verbatim>\<open>xs[a:b]\<close> for positions \<open>a\<close>, \<open>b\<close> counted from the left.\<close>

definition slice :: "nat \<Rightarrow> nat \<Rightarrow> 'a list \<Rightarrow> 'a list" where
  "slice a b xs = take (b - a) (drop a xs)"

text \<open>
  A loop that visits the genes in order, draws for each and appends one gene to the
  offspring (also the comprehensions of this shape).
\<close>

fun for_each_gene ::
  "('a \<Rightarrow> rng \<Rightarrow> error + (real \<times> rng)) \<Rightarrow> 'a list \<Rightarrow> rng \<Rightarrow> error + (real list \<times> rng)" where
  "for_each_gene body [] rs = Inr ([], rs)"
| "for_each_gene body (gene # genes) rs =
     (case body gene rs of
        Inl e \<Rightarrow> Inl e
      | Inr (new_gene, rs') \<Rightarrow>
          (case for_each_gene body genes rs' of
             Inl e \<Rightarrow> Inl e
           | Inr (offspring_chromosome, rs'') \<Rightarrow> Inr (new_gene # offspring_chromosome, rs'')))"

subsection \<open>Crossover\<close>

fun n_point_segments :: "real list \<Rightarrow> real list \<Rightarrow> bool \<Rightarrow> nat \<Rightarrow> nat list \<Rightarrow> real list" where
  "n_point_segments c1 c2 swap prev_point [] = []"
| "n_point_segments c1 c2 swap prev_point (point # points) =
     slice prev_point point (if swap then c2 else c1)
       @ n_point_segments c1 c2 (\<not> swap) point points"

definition n_point_chromosome ::
  "real list \<Rightarrow> real list \<Rightarrow> int \<Rightarrow> rng \<Rightarrow> error + (real list \<times> rng)" where
  "n_point_chromosome c1 c2 n_points rs =
     (case random_sample [1 ..< length c1] n_points rs of
        Inl e \<Rightarrow> Inl e
      | Inr (points, rs') \<Rightarrow>
          Inr (n_point_segments c1 c2 False 0 (sort points @ [length c1]), rs'))"

definition n_point_crossover ::
  "heap \<Rightarrow> ref \<Rightarrow> ref \<Rightarrow> int \<Rightarrow> rng \<Rightarrow> error + (ref \<times> heap \<times> rng)" where
  "n_point_crossover h parent1 parent2 n_points rs =
     return_Candidate h
       (n_point_chromosome (chromosome (h ! parent1)) (chromosome (h ! parent2)) n_points rs)"

definition uniform_crossover_gene :: "real \<times> real \<Rightarrow> rng \<Rightarrow> error + (real \<times> rng)" where
  "uniform_crossover_gene gs rs = (case gs of (gene1, gene2) \<Rightarrow> random_choice [gene1, gene2] rs)"

definition uniform_crossover :: "heap \<Rightarrow> ref \<Rightarrow> ref \<Rightarrow> rng \<Rightarrow> error + (ref \<times> heap \<times> rng)" where
  "uniform_crossover h parent1 parent2 rs =
     return_Candidate h
       (for_each_gene uniform_crossover_gene
          (zip (chromosome (h ! parent1)) (chromosome (h ! parent2))) rs)"

definition arithmetic_crossover ::
  "heap \<Rightarrow> ref \<Rightarrow> ref \<Rightarrow> real \<Rightarrow> rng \<Rightarrow> error + (ref \<times> heap \<times> rng)" where
  "arithmetic_crossover h parent1 parent2 alpha rs =
     return_Candidate h
       (Inr (map (\<lambda>(gene1, gene2). alpha * gene1 + (1 - alpha) * gene2)
               (zip (chromosome (h ! parent1)) (chromosome (h ! parent2))), rs))"

definition blend_crossover_gene :: "real \<Rightarrow> real \<times> real \<Rightarrow> rng \<Rightarrow> error + (real \<times> rng)" where
  "blend_crossover_gene alpha gs rs =
     (case gs of (gene1, gene2) \<Rightarrow>
        (let d = \<bar>gene1 - gene2\<bar>;
             lower_bound = min gene1 gene2 - alpha * d;
             upper_bound = max gene1 gene2 + alpha * d
         in Inr (random_uniform lower_bound upper_bound rs)))"

definition blend_crossover ::
  "heap \<Rightarrow> ref \<Rightarrow> ref \<Rightarrow> real \<Rightarrow> rng \<Rightarrow> error + (ref \<times> heap \<times> rng)" where
  "blend_crossover h parent1 parent2 alpha rs =
     return_Candidate h
       (for_each_gene (blend_crossover_gene alpha)
          (zip (chromosome (h ! parent1)) (chromosome (h ! parent2))) rs)"

definition cut_and_splice_chromosome ::
  "real list \<Rightarrow> real list \<Rightarrow> rng \<Rightarrow> error + (real list \<times> rng)" where
  "cut_and_splice_chromosome c1 c2 rs =
     (case random_randint 0 (int (length c1) - 1) rs of
        Inl e \<Rightarrow> Inl e
      | Inr (cut_point1, rs1) \<Rightarrow>
          (case random_randint 0 (int (length c2) - 1) rs1 of
             Inl e \<Rightarrow> Inl e
           | Inr (cut_point2, rs2) \<Rightarrow>
               Inr (take (nat cut_point1) c1 @ drop (nat cut_point2) c2, rs2)))"

definition cut_and_splice_crossover ::
  "heap \<Rightarrow> ref \<Rightarrow> ref \<Rightarrow> rng \<Rightarrow> error + (ref \<times> heap \<times> rng)" where
  "cut_and_splice_crossover h parent1 parent2 rs =
     return_Candidate h
       (cut_and_splice_chromosome (chromosome (h ! parent1)) (chromosome (h ! parent2)) rs)"

text \<open>
  The last loop of \<^verbatim>\<open>order_crossover\<close>: each \<^verbatim>\<open>None\<close> slot takes the next of
  \<^verbatim>\<open>parent2_genes\<close>, IndexError when they run out.
\<close>

fun order_fill :: "real option list \<Rightarrow> real list \<Rightarrow> error + real list" where
  "order_fill [] parent2_genes = Inr []"
| "order_fill (Some g # slots) parent2_genes =
     (case order_fill slots parent2_genes of
        Inl e \<Rightarrow> Inl e
      | Inr offspring_chromosome \<Rightarrow> Inr (g # offspring_chromosome))"
| "order_fill (None # slots) [] = Inl IndexError"
| "order_fill (None # slots) (g # parent2_genes) =
     (case order_fill slots parent2_genes of
        Inl e \<Rightarrow> Inl e
      | Inr offspring_chromosome \<Rightarrow> Inr (g # offspring_chromosome))"

text \<open>
  \<^verbatim>\<open>start, end = sorted(random.sample(range(n), 2))\<close>, used by order crossover and by
  scramble and inversion mutation; unpacking anything but two values is a ValueError.
\<close>

definition random_segment :: "nat \<Rightarrow> rng \<Rightarrow> error + ((nat \<times> nat) \<times> rng)" where
  "random_segment n rs =
     (case random_sample [0 ..< n] 2 rs of
        Inl e \<Rightarrow> Inl e
      | Inr (picked, rs') \<Rightarrow>
          (case sort picked of
             [start, end] \<Rightarrow> Inr ((start, end), rs')
           | _ \<Rightarrow> Inl ValueError))"

definition order_crossover_chromosome ::
  "real list \<Rightarrow> real list \<Rightarrow> rng \<Rightarrow> error + (real list \<times> rng)" where
  "order_crossover_chromosome c1 c2 rs =
     (case random_segment (length c1) rs of
        Inl e \<Rightarrow> Inl e
      | Inr ((start, end), rs') \<Rightarrow>
          (let blank = replicate (length c1) None;
               offspring_chromosome =
                 take start blank @ map Some (slice start end c1) @ drop end blank;
               parent2_genes = filter (\<lambda>gene. Some gene \<notin> set offspring_chromosome) c2
           in case order_fill offspring_chromosome parent2_genes of
                Inl e \<Rightarrow> Inl e
              | Inr filled \<Rightarrow> Inr (filled, rs')))"

definition order_crossover :: "heap \<Rightarrow> ref \<Rightarrow> ref \<Rightarrow> rng \<Rightarrow> error + (ref \<times> heap \<times> rng)" where
  "order_crossover h parent1 parent2 rs =
     return_Candidate h
       (order_crossover_chromosome (chromosome (h ! parent1)) (chromosome (h ! parent2)) rs)"

subsection \<open>Mutation\<close>

text \<open>The gene rule of \<^verbatim>\<open>uniform_mutation\<close>, and of \<^verbatim>\<open>adaptive_mutation\<close>' second half.\<close>

definition uniform_mutation_gene :: "real \<Rightarrow> real \<Rightarrow> rng \<Rightarrow> error + (real \<times> rng)" where
  "uniform_mutation_gene mutation_probability gene rs =
     (case random_random rs of
        (u, rs1) \<Rightarrow>
          if u < mutation_probability
          then (case random_randint 0 100 rs1 of
                  Inl e \<Rightarrow> Inl e
                | Inr (new_gene, rs2) \<Rightarrow> Inr (of_int new_gene, rs2))
          else Inr (gene, rs1))"

definition uniform_mutation :: "heap \<Rightarrow> ref \<Rightarrow> real \<Rightarrow> rng \<Rightarrow> error + (ref \<times> heap \<times> rng)" where
  "uniform_mutation h candidate mutation_probability rs =
     return_Candidate h
       (for_each_gene (uniform_mutation_gene mutation_probability)
          (chromosome (h ! candidate)) rs)"

text \<open>\<^verbatim>\<open>for index in mutation_indices: offspring_chromosome[index] = randint(0, 100)\<close>.\<close>

fun multi_point_assign :: "real list \<Rightarrow> nat list \<Rightarrow> rng \<Rightarrow> error + (real list \<times> rng)" where
  "multi_point_assign offspring_chromosome [] rs = Inr (offspring_chromosome, rs)"
| "multi_point_assign offspring_chromosome (index # mutation_indices) rs =
     (case random_randint 0 100 rs of
        Inl e \<Rightarrow> Inl e
      | Inr (new_gene, rs') \<Rightarrow>
          multi_point_assign (offspring_chromosome[index := of_int new_gene])
            mutation_indices rs')"

definition multi_point_chromosome :: "real list \<Rightarrow> int \<Rightarrow> rng \<Rightarrow> error + (real list \<times> rng)" where
  "multi_point_chromosome c num_points rs =
     (case random_sample [0 ..< length c] num_points rs of
        Inl e \<Rightarrow> Inl e
      | Inr (mutation_indices, rs') \<Rightarrow> multi_point_assign c mutation_indices rs')"

definition multi_point_mutation :: "heap \<Rightarrow> ref \<Rightarrow> int \<Rightarrow> rng \<Rightarrow> error + (ref \<times> heap \<times> rng)" where
  "multi_point_mutation h candidate num_points rs =
     return_Candidate h (multi_point_chromosome (chromosome (h ! candidate)) num_points rs)"

definition gaussian_mutation_gene :: "real \<Rightarrow> real \<Rightarrow> real \<Rightarrow> rng \<Rightarrow> error + (real \<times> rng)" where
  "gaussian_mutation_gene mean stddev gene rs =
     (case random_gauss mean stddev rs of (z, rs') \<Rightarrow> Inr (gene + z, rs'))"

definition gaussian_mutation ::
  "heap \<Rightarrow> ref \<Rightarrow> real \<Rightarrow> real \<Rightarrow> rng \<Rightarrow> error + (ref \<times> heap \<times> rng)" where
  "gaussian_mutation h candidate mean stddev rs =
     return_Candidate h
       (for_each_gene (gaussian_mutation_gene mean stddev) (chromosome (h ! candidate)) rs)"

definition boundary_chromosome ::
  "real list \<Rightarrow> real \<Rightarrow> real \<Rightarrow> rng \<Rightarrow> error + (real list \<times> rng)" where
  "boundary_chromosome c lower_bound upper_bound rs =
     (case random_randint 0 (int (length c) - 1) rs of
        Inl e \<Rightarrow> Inl e
      | Inr (mutation_index, rs1) \<Rightarrow>
          (case random_random rs1 of
             (u, rs2) \<Rightarrow>
               Inr (c[nat mutation_index := (if u < 0.5 then lower_bound else upper_bound)],
                    rs2)))"

definition boundary_mutation ::
  "heap \<Rightarrow> ref \<Rightarrow> real \<Rightarrow> real \<Rightarrow> rng \<Rightarrow> error + (ref \<times> heap \<times> rng)" where
  "boundary_mutation h candidate lower_bound upper_bound rs =
     return_Candidate h
       (boundary_chromosome (chromosome (h ! candidate)) lower_bound upper_bound rs)"

text \<open>\<^verbatim>\<open>idx1, idx2 = random.sample(range(n), 2)\<close>, then the simultaneous assignment.\<close>

definition swap_chromosome :: "real list \<Rightarrow> rng \<Rightarrow> error + (real list \<times> rng)" where
  "swap_chromosome c rs =
     (case random_sample [0 ..< length c] 2 rs of
        Inl e \<Rightarrow> Inl e
      | Inr (picked, rs') \<Rightarrow>
          (case picked of
             [idx1, idx2] \<Rightarrow> Inr (c[idx1 := c ! idx2, idx2 := c ! idx1], rs')
           | _ \<Rightarrow> Inl ValueError))"

definition swap_mutation :: "heap \<Rightarrow> ref \<Rightarrow> rng \<Rightarrow> error + (ref \<times> heap \<times> rng)" where
  "swap_mutation h candidate rs =
     return_Candidate h (swap_chromosome (chromosome (h ! candidate)) rs)"

definition scramble_chromosome :: "real list \<Rightarrow> rng \<Rightarrow> error + (real list \<times> rng)" where
  "scramble_chromosome c rs =
     (case random_segment (length c) rs of
        Inl e \<Rightarrow> Inl e
      | Inr ((start, end), rs1) \<Rightarrow>
          (case random_shuffle (slice start end c) rs1 of
             (scrambled_part, rs2) \<Rightarrow>
               Inr (take start c @ scrambled_part @ drop end c, rs2)))"

definition scramble_mutation :: "heap \<Rightarrow> ref \<Rightarrow> rng \<Rightarrow> error + (ref \<times> heap \<times> rng)" where
  "scramble_mutation h candidate rs =
     return_Candidate h (scramble_chromosome (chromosome (h ! candidate)) rs)"

definition inversion_chromosome :: "real list \<Rightarrow> rng \<Rightarrow> error + (real list \<times> rng)" where
  "inversion_chromosome c rs =
     (case random_segment (length c) rs of
        Inl e \<Rightarrow> Inl e
      | Inr ((start, end), rs') \<Rightarrow>
          Inr (take start c @ rev (slice start end c) @ drop end c, rs'))"

definition inversion_mutation :: "heap \<Rightarrow> ref \<Rightarrow> rng \<Rightarrow> error + (ref \<times> heap \<times> rng)" where
  "inversion_mutation h candidate rs =
     return_Candidate h (inversion_chromosome (chromosome (h ! candidate)) rs)"

text \<open>
  The gene rule of \<^verbatim>\<open>non_uniform_mutation\<close>; \<^verbatim>\<open>generation / max_generations\<close> raises
  on \<open>max_generations = 0\<close>, after the draw of \<^verbatim>\<open>uniform(0, 1)\<close>.
\<close>

definition non_uniform_mutation_gene ::
  "real \<Rightarrow> real \<Rightarrow> real \<Rightarrow> real \<Rightarrow> rng \<Rightarrow> error + (real \<times> rng)" where
  "non_uniform_mutation_gene generation max_generations mutation_probability gene rs =
     (case random_random rs of
        (u, rs1) \<Rightarrow>
          if u < mutation_probability
          then (case random_uniform 0 1 rs1 of
                  (v, rs2) \<Rightarrow>
                    if max_generations = 0 then Inl ZeroDivisionError
                    else (let delta = v * (1 - generation / max_generations) in
                          case random_choice [- 1, 1] rs2 of
                            Inl e \<Rightarrow> Inl e
                          | Inr (sign, rs3) \<Rightarrow> Inr (gene + sign * delta, rs3)))
          else Inr (gene, rs1))"

definition non_uniform_mutation ::
  "heap \<Rightarrow> ref \<Rightarrow> real \<Rightarrow> real \<Rightarrow> real \<Rightarrow> rng \<Rightarrow> error + (ref \<times> heap \<times> rng)" where
  "non_uniform_mutation h candidate generation max_generations mutation_probability rs =
     return_Candidate h
       (for_each_gene
          (non_uniform_mutation_gene generation max_generations mutation_probability)
          (chromosome (h ! candidate)) rs)"

text \<open>\<^verbatim>\<open>sum(...) / len(population)\<close> raises on an empty population.\<close>

definition adaptive_mutation ::
  "heap \<Rightarrow> ref \<Rightarrow> ref list \<Rightarrow> real \<Rightarrow> real \<Rightarrow> rng \<Rightarrow> error + (ref \<times> heap \<times> rng)" where
  "adaptive_mutation h candidate population improvement_threshold mutation_probability rs =
     (if population = [] then Inl ZeroDivisionError
      else
        (let avg_fitness = total_fitness_of h population / real (length population);
             mutation_probability' =
               (if fitness (h ! candidate) < avg_fitness * (1 + improvement_threshold)
                then mutation_probability * 2 else mutation_probability)
         in return_Candidate h
              (for_each_gene (uniform_mutation_gene mutation_probability')
                 (chromosome (h ! candidate)) rs)))"

section \<open>Properties of the random source and the store\<close>

lemma randbelow_less: "0 < n \<Longrightarrow> randbelow n rs = (k, rs') \<Longrightarrow> k < n"
proof -
  assume n: "0 < n" and r: "randbelow n rs = (k, rs')"
  have "frac (shd rs) * real n < real n"
    using n frac_lt_1 [of "shd rs"] by simp
  then have "\<lfloor>frac (shd rs) * real n\<rfloor> < int n"
    by (simp add: floor_less_iff)
  moreover have "0 \<le> \<lfloor>frac (shd rs) * real n\<rfloor>"
    using frac_ge_0 [of "shd rs"] by simp
  ultimately have "nat \<lfloor>frac (shd rs) * real n\<rfloor> < n" by linarith
  then show ?thesis using r by (auto simp: randbelow_def)
qed

lemma random_randint_range:
  "random_randint a b rs = Inr (v, rs') \<Longrightarrow> a \<le> v \<and> v \<le> b"
  by (auto simp: random_randint_def split: if_splits prod.splits dest!: randbelow_less [rotated])

lemma random_randint_error:
  "random_randint a b rs = Inl e \<Longrightarrow> b < a \<and> e = ValueError"
  by (auto simp: random_randint_def split: if_splits prod.splits)

lemma single_gene_neighbor_Inr:
  assumes "single_gene_neighbor h c f rs = Inr (nb, h', rs')"
  shows "nb = length h \<and>
         (\<exists>ch. length ch = length (chromosome (h ! c)) \<and>
               h' = h @ [\<lparr>chromosome = ch, fitness = f ch\<rparr>])"
  using assms
  by (auto simp: single_gene_neighbor_def Let_def Candidate_init_def calculate_fitness_def
           split: sum.splits prod.splits)

lemma single_gene_neighbor_error:
  "single_gene_neighbor h c f rs = Inl e \<Longrightarrow> chromosome (h ! c) = [] \<and> e = ValueError"
  by (auto simp: single_gene_neighbor_def Let_def Candidate_init_def
           split: sum.splits prod.splits dest!: random_randint_error)

lemma single_gene_neighbor_returns:
  "chromosome (h ! c) \<noteq> [] \<Longrightarrow> \<exists>res. single_gene_neighbor h c f rs = Inr res"
  by (cases "single_gene_neighbor h c f rs") (auto dest: single_gene_neighbor_error)

text \<open>Evaluating a candidate in place touches the fitness of that one object only.\<close>

lemma calculate_fitness_length [simp]: "length (calculate_fitness h r f) = length h"
  by (simp add: calculate_fitness_def)

lemma calculate_fitness_same:
  "r < length h \<Longrightarrow>
     calculate_fitness h r f ! r = (h ! r)\<lparr>fitness := f (chromosome (h ! r))\<rparr>"
  by (simp add: calculate_fitness_def)

lemma calculate_fitness_other: "r' \<noteq> r \<Longrightarrow> calculate_fitness h r f ! r' = h ! r'"
  by (simp add: calculate_fitness_def)

section \<open>Hill climbing\<close>

lemma hill_climb_step_Inr:
  assumes "hill_climb_step f (c, h, rs) = Inr (c', h', rs')" and "c < length h"
  shows "c' < length h' \<and> prefix h h' \<and> fitness (h ! c) \<le> fitness (h' ! c') \<and>
         chromosome (h' ! c') \<noteq> [] \<and>
         (c' \<noteq> c \<longrightarrow> c' = length h \<and> fitness (h' ! c) < fitness (h' ! c'))"
proof -
  from assms(1) obtain nb where
    n: "single_gene_neighbor h c f rs = Inr (nb, h', rs')" and
    c': "c' = (if fitness (h' ! nb) > fitness (h' ! c) then nb else c)"
    by (auto simp: hill_climb_step_def split: sum.splits)
  from single_gene_neighbor_Inr [OF n] obtain ch where
    nb: "nb = length h" and len: "length ch = length (chromosome (h ! c))" and
    h': "h' = h @ [\<lparr>chromosome = ch, fitness = f ch\<rparr>]"
    by blast
  have ne: "chromosome (h ! c) \<noteq> []"
    using n by (auto simp: single_gene_neighbor_def Let_def random_randint_def
                     split: sum.splits if_splits)
  have old: "h' ! c = h ! c" using assms(2) h' by (simp add: nth_append)
  show ?thesis
    using c' nb h' old assms(2) ne len by (auto simp: nth_append)
qed

lemma hill_climb_step_Inl:
  "hill_climb_step f (c, h, rs) = Inl (e, h') \<Longrightarrow> h' = h \<and> e = ValueError"
  by (auto simp: hill_climb_step_def split: sum.splits dest: single_gene_neighbor_error)

lemma prefix_nth: "prefix h h' \<Longrightarrow> r < length h \<Longrightarrow> h' ! r = h ! r"
  by (auto simp: prefix_def nth_append)

lemma hill_climb_loop_Inr:
  "hill_climb_loop n f (c, h, rs) = Inr (c', h', rs') \<Longrightarrow> c < length h \<Longrightarrow>
     c' < length h' \<and> prefix h h' \<and> fitness (h ! c) \<le> fitness (h' ! c')"
proof (induction n arbitrary: c h rs)
  case 0
  then show ?case by simp
next
  case (Suc n)
  from Suc.prems(1) obtain c1 h1 rs1 where
    st: "hill_climb_step f (c, h, rs) = Inr (c1, h1, rs1)" and
    lp: "hill_climb_loop n f (c1, h1, rs1) = Inr (c', h', rs')"
    by (auto split: sum.splits)
  from hill_climb_step_Inr [OF st Suc.prems(2)]
  have a: "c1 < length h1" "prefix h h1" "fitness (h ! c) \<le> fitness (h1 ! c1)" by auto
  from Suc.IH [OF lp a(1)]
  have b: "c' < length h'" "prefix h1 h'" "fitness (h1 ! c1) \<le> fitness (h' ! c')" by auto
  show ?case using a b by (auto intro: prefix_order.trans)
qed

lemma hill_climb_loop_Inl:
  "hill_climb_loop n f (c, h, rs) = Inl (e, h') \<Longrightarrow> c < length h \<Longrightarrow>
     prefix h h' \<and> e = ValueError"
proof (induction n arbitrary: c h rs)
  case 0
  then show ?case by simp
next
  case (Suc n)
  show ?case
  proof (cases "hill_climb_step f (c, h, rs)")
    case (Inl a)
    with Suc.prems show ?thesis by (cases a) (auto dest: hill_climb_step_Inl)
  next
    case (Inr s)
    obtain c1 h1 rs1 where s: "s = (c1, h1, rs1)" by (cases s) auto
    from hill_climb_step_Inr [OF Inr [unfolded s] Suc.prems(2)]
    have a: "c1 < length h1" "prefix h h1" by auto
    from Suc.prems(1) Inr s have "hill_climb_loop n f (c1, h1, rs1) = Inl (e, h')" by simp
    from Suc.IH [OF this a(1)] a(2) show ?thesis by (auto intro: prefix_order.trans)
  qed
qed

lemma hill_climb_loop_returns:
  "chromosome (h ! c) \<noteq> [] \<Longrightarrow> c < length h \<Longrightarrow> \<exists>res. hill_climb_loop n f (c, h, rs) = Inr res"
proof (induction n arbitrary: c h rs)
  case 0
  then show ?case by simp
next
  case (Suc n)
  from single_gene_neighbor_returns [OF Suc.prems(1)] obtain nb h1 rs1 where
    "single_gene_neighbor h c f rs = Inr (nb, h1, rs1)" by (metis prod_cases3)
  then obtain c1 where st: "hill_climb_step f (c, h, rs) = Inr (c1, h1, rs1)"
    by (auto simp: hill_climb_step_def)
  from hill_climb_step_Inr [OF st Suc.prems(2)]
  have "c1 < length h1" "chromosome (h1 ! c1) \<noteq> []" by auto
  from Suc.IH [OF this(2,1)] st show ?case by simp
qed

text \<open>
  Claim C2. Whatever \<^verbatim>\<open>hill_climb\<close> returns has a fitness at least that of the initial
  candidate, which the call has set to the objective value of the initial chromosome; the
  call does return when the chromosome is not empty (or no iteration is asked for); and
  in any iteration of a run (the state after \<open>k\<close> iterations is what a budget of \<open>k\<close>
  returns) the current candidate changes only to a neighbour of strictly greater
  fitness, so a tie does not move.
\<close>

theorem hill_climb_never_regresses:
  assumes "candidate < length h"
  shows "(hill_climb h candidate f max_iterations rs = Inr (best, h', rs') \<longrightarrow>
            fitness (h' ! candidate) = f (chromosome (h ! candidate)) \<and>
            fitness (h' ! candidate) \<le> fitness (h' ! best))
       \<and> (chromosome (h ! candidate) \<noteq> [] \<or> max_iterations \<le> 0 \<longrightarrow>
            (\<exists>res. hill_climb h candidate f max_iterations rs = Inr res))
       \<and> (hill_climb h candidate f (int k) rs = Inr (cur, hk, rk) \<and>
          hill_climb_step f (cur, hk, rk) = Inr (cur', hk', rk') \<and> cur' \<noteq> cur \<longrightarrow>
            fitness (hk' ! cur) < fitness (hk' ! cur'))"
proof (intro conjI impI)
  let ?h0 = "calculate_fitness h candidate f"
  have c0: "candidate < length ?h0" using assms by simp
  {
    assume r: "hill_climb h candidate f max_iterations rs = Inr (best, h', rs')"
    then have "hill_climb_loop (nat max_iterations) f (candidate, ?h0, rs) = Inr (best, h', rs')"
      by (simp add: hill_climb_def)
    from hill_climb_loop_Inr [OF this c0]
    have p: "prefix ?h0 h'" and le: "fitness (?h0 ! candidate) \<le> fitness (h' ! best)" by auto
    have "h' ! candidate = ?h0 ! candidate" using prefix_nth [OF p c0] .
    then have eq: "h' ! candidate = (h ! candidate)\<lparr>fitness := f (chromosome (h ! candidate))\<rparr>"
      using assms by (simp add: calculate_fitness_same)
    then show "fitness (h' ! candidate) = f (chromosome (h ! candidate))" by simp
    show "fitness (h' ! candidate) \<le> fitness (h' ! best)"
      using le \<open>h' ! candidate = ?h0 ! candidate\<close> by simp
  }
  {
    assume "chromosome (h ! candidate) \<noteq> [] \<or> max_iterations \<le> 0"
    then show "\<exists>res. hill_climb h candidate f max_iterations rs = Inr res"
    proof
      assume "chromosome (h ! candidate) \<noteq> []"
      then have "chromosome (?h0 ! candidate) \<noteq> []"
        using assms by (simp add: calculate_fitness_same)
      from hill_climb_loop_returns [OF this c0] show ?thesis
        by (simp add: hill_climb_def)
    next
      assume "max_iterations \<le> 0"
      then show ?thesis by (simp add: hill_climb_def)
    qed
  }
  {
    assume a: "hill_climb h candidate f (int k) rs = Inr (cur, hk, rk) \<and>
          hill_climb_step f (cur, hk, rk) = Inr (cur', hk', rk') \<and> cur' \<noteq> cur"
    then have "hill_climb_loop k f (candidate, ?h0, rs) = Inr (cur, hk, rk)"
      by (simp add: hill_climb_def)
    from hill_climb_loop_Inr [OF this c0] have "cur < length hk" by simp
    from hill_climb_step_Inr [OF _ this] a
    show "fitness (hk' ! cur) < fitness (hk' ! cur')" by blast
  }
qed

theorem hill_climb_never_regresses_witness:
  "(0::nat) < length [\<lparr>chromosome = [1, 2, 3], fitness = 0\<rparr>]
   \<and> hill_climb [\<lparr>chromosome = [1, 2, 3], fitness = 0\<rparr>] 0 sum_list 2
        (1 / 2 ## 1 / 2 ## sconst 0)
      = Inr (1, [\<lparr>chromosome = [1, 2, 3], fitness = 6\<rparr>,
                 \<lparr>chromosome = [1, 50, 3], fitness = 54\<rparr>,
                 \<lparr>chromosome = [0, 50, 3], fitness = 53\<rparr>], sconst 0)
   \<and> hill_climb [\<lparr>chromosome = [1, 2, 3], fitness = 0\<rparr>] 0 sum_list (int 0)
        (1 / 2 ## 1 / 2 ## sconst 0)
      = Inr (0, [\<lparr>chromosome = [1, 2, 3], fitness = 6\<rparr>], 1 / 2 ## 1 / 2 ## sconst 0)
   \<and> hill_climb_step sum_list
        (0, [\<lparr>chromosome = [1, 2, 3], fitness = 6\<rparr>], 1 / 2 ## 1 / 2 ## sconst 0)
      = Inr (1, [\<lparr>chromosome = [1, 2, 3], fitness = 6\<rparr>,
                 \<lparr>chromosome = [1, 50, 3], fitness = 54\<rparr>], sconst 0)
   \<and> (6::real) \<le> 54
   \<and> fitness ([\<lparr>chromosome = [1, 2, 3], fitness = 6\<rparr>,
                \<lparr>chromosome = [1, 50, 3], fitness = 54\<rparr>] ! 0)
      < fitness ([\<lparr>chromosome = [1, 2, 3], fitness = 6\<rparr>,
                  \<lparr>chromosome = [1, 50, 3], fitness = 54\<rparr>] ! 1)"
  using hill_climb_never_regresses
    [of 0 "[\<lparr>chromosome = [1, 2, 3], fitness = 0\<rparr>]" sum_list 2
        "1 / 2 ## 1 / 2 ## sconst 0" 1
        "[\<lparr>chromosome = [1, 2, 3], fitness = 6\<rparr>,
          \<lparr>chromosome = [1, 50, 3], fitness = 54\<rparr>,
          \<lparr>chromosome = [0, 50, 3], fitness = 53\<rparr>]" "sconst 0"
        0 0 "[\<lparr>chromosome = [1, 2, 3], fitness = 6\<rparr>]" "1 / 2 ## 1 / 2 ## sconst 0"
        1 "[\<lparr>chromosome = [1, 2, 3], fitness = 6\<rparr>,
            \<lparr>chromosome = [1, 50, 3], fitness = 54\<rparr>]" "sconst 0"]
  by (simp add: hill_climb_def hill_climb_step_def single_gene_neighbor_def
        random_randint_def randbelow_def Candidate_init_def calculate_fitness_def
        numeral_2_eq_2 frac_def)

section \<open>Simulated annealing\<close>

lemma sa_step_Inr:
  assumes "sa_step f cr s = Inr s'"
    and "sa_candidate s < length (sa_heap s)"
    and "sa_best_candidate s < length (sa_heap s)"
  shows "sa_candidate s' < length (sa_heap s') \<and>
         sa_best_candidate s' < length (sa_heap s') \<and>
         prefix (sa_heap s) (sa_heap s') \<and>
         fitness (sa_heap s ! sa_best_candidate s)
           \<le> fitness (sa_heap s' ! sa_best_candidate s') \<and>
         (fitness (sa_heap s ! sa_candidate s) \<le> fitness (sa_heap s ! sa_best_candidate s)
            \<longrightarrow> fitness (sa_heap s' ! sa_candidate s')
                  \<le> fitness (sa_heap s' ! sa_best_candidate s'))"
proof -
  from assms(1) obtain nb h' rs' acc rs'' where
    n: "single_gene_neighbor (sa_heap s) (sa_candidate s) f (sa_rng s) = Inr (nb, h', rs')" and
    s': "s' = \<lparr>sa_candidate = (if acc then nb else sa_candidate s),
               sa_best_candidate =
                 (if acc \<and> fitness (h' ! nb) > fitness (h' ! sa_best_candidate s)
                  then nb else sa_best_candidate s),
               sa_temperature = sa_temperature s * (1 - cr),
               sa_heap = h', sa_rng = rs''\<rparr>"
    by (auto simp: sa_step_def split: sum.splits)
  from single_gene_neighbor_Inr [OF n] obtain ch where
    nb: "nb = length (sa_heap s)" and
    h': "h' = sa_heap s @ [\<lparr>chromosome = ch, fitness = f ch\<rparr>]"
    by blast
  have old: "h' ! sa_candidate s = sa_heap s ! sa_candidate s"
    "h' ! sa_best_candidate s = sa_heap s ! sa_best_candidate s"
    using assms(2,3) h' by (simp_all add: nth_append)
  show ?thesis
    using s' nb h' old assms(2,3) by (auto simp: nth_append)
qed

lemma sa_iter_done:
  "\<not> sa_temperature s > mt \<Longrightarrow> sa_iter n f cr mt s = Inr s"
  by (cases n) simp_all

lemma sa_iter_Inr:
  "sa_iter n f cr mt s = Inr s' \<Longrightarrow>
   sa_candidate s < length (sa_heap s) \<Longrightarrow> sa_best_candidate s < length (sa_heap s) \<Longrightarrow>
   fitness (sa_heap s ! sa_candidate s) \<le> fitness (sa_heap s ! sa_best_candidate s) \<Longrightarrow>
     sa_candidate s' < length (sa_heap s') \<and>
     sa_best_candidate s' < length (sa_heap s') \<and>
     prefix (sa_heap s) (sa_heap s') \<and>
     fitness (sa_heap s ! sa_best_candidate s) \<le> fitness (sa_heap s' ! sa_best_candidate s') \<and>
     fitness (sa_heap s' ! sa_candidate s') \<le> fitness (sa_heap s' ! sa_best_candidate s')"
proof (induction n arbitrary: s)
  case 0
  then show ?case by simp
next
  case (Suc n)
  show ?case
  proof (cases "sa_temperature s > mt")
    case False
    with Suc.prems show ?thesis by simp
  next
    case True
    with Suc.prems(1) obtain s1 where
      st: "sa_step f cr s = Inr s1" and it: "sa_iter n f cr mt s1 = Inr s'"
      by (auto split: sum.splits)
    from sa_step_Inr [OF st Suc.prems(2,3)] Suc.prems(4)
    have a: "sa_candidate s1 < length (sa_heap s1)"
      "sa_best_candidate s1 < length (sa_heap s1)"
      "prefix (sa_heap s) (sa_heap s1)"
      "fitness (sa_heap s ! sa_best_candidate s) \<le> fitness (sa_heap s1 ! sa_best_candidate s1)"
      "fitness (sa_heap s1 ! sa_candidate s1) \<le> fitness (sa_heap s1 ! sa_best_candidate s1)"
      by auto
    from Suc.IH [OF it a(1,2,5)] a(3,4) show ?thesis
      by (auto intro: prefix_order.trans)
  qed
qed

lemma sa_iter_Inl:
  "sa_iter n f cr mt s = Inl (e, h') \<Longrightarrow>
   sa_candidate s < length (sa_heap s) \<Longrightarrow> sa_best_candidate s < length (sa_heap s) \<Longrightarrow>
     prefix (sa_heap s) h'"
proof (induction n arbitrary: s)
  case 0
  then show ?case by simp
next
  case (Suc n)
  show ?case
  proof (cases "sa_step f cr s")
    case (Inl a)
    with Suc.prems(1) show ?thesis by (auto split: if_splits)
  next
    case (Inr s1)
    from sa_step_Inr [OF Inr Suc.prems(2,3)]
    have a: "sa_candidate s1 < length (sa_heap s1)"
      "sa_best_candidate s1 < length (sa_heap s1)" "prefix (sa_heap s) (sa_heap s1)" by auto
    from Suc.prems(1) Inr have "sa_iter n f cr mt s1 = Inl (e, h')" by (auto split: if_splits)
    from Suc.IH [OF this a(1,2)] a(3) show ?thesis by (auto intro: prefix_order.trans)
  qed
qed

text \<open>A run of \<open>n\<close> passes goes through the state after \<open>j \<le> n\<close> passes.\<close>

lemma sa_iter_split:
  "j \<le> n \<Longrightarrow> sa_iter n f cr mt s = Inr s' \<Longrightarrow>
     \<exists>sj. sa_iter j f cr mt s = Inr sj \<and> sa_iter (n - j) f cr mt sj = Inr s'"
proof (induction j arbitrary: n s)
  case 0
  then show ?case by simp
next
  case (Suc j)
  then obtain n' where n: "n = Suc n'" and le: "j \<le> n'" by (cases n) auto
  show ?case
  proof (cases "sa_temperature s > mt")
    case False
    with Suc.prems n have "s' = s" by simp
    with False show ?thesis by (simp add: sa_iter_done)
  next
    case True
    with Suc.prems(2) n obtain s1 where
      st: "sa_step f cr s = Inr s1" and it: "sa_iter n' f cr mt s1 = Inr s'"
      by (auto split: sum.splits)
    from Suc.IH [OF le it] True st n show ?thesis by simp
  qed
qed

text \<open>What the loop returns is the state after some number of passes.\<close>

lemma sa_loop_iter:
  assumes "sa_loop f cr mt s = Some r"
  shows "\<exists>n. sa_iter n f cr mt s = r \<and> (\<forall>sf. r = Inr sf \<longrightarrow> \<not> sa_temperature sf > mt)"
proof (induct rule: sa_loop.raw_induct [OF _ assms])
  case (1 loop f cr mt s r)
  show ?case
  proof (cases "sa_temperature s > mt")
    case False
    with 1(2) have "r = Inr s" by simp
    with False have "sa_iter 0 f cr mt s = r \<and> (\<forall>sf. r = Inr sf \<longrightarrow> \<not> sa_temperature sf > mt)"
      by simp
    then show ?thesis by blast
  next
    case True
    show ?thesis
    proof (cases "sa_step f cr s")
      case (Inl e)
      with True 1(2) have "r = Inl (e, sa_heap s)" by simp
      with True Inl have "sa_iter (Suc 0) f cr mt s = r \<and>
          (\<forall>sf. r = Inr sf \<longrightarrow> \<not> sa_temperature sf > mt)" by simp
      then show ?thesis by blast
    next
      case (Inr s1)
      with True 1(2) have "loop f cr mt s1 = Some r" by simp
      from 1(1) [OF this] obtain n where
        "sa_iter n f cr mt s1 = r" "\<forall>sf. r = Inr sf \<longrightarrow> \<not> sa_temperature sf > mt" by blast
      with True Inr have "sa_iter (Suc n) f cr mt s = r \<and>
          (\<forall>sf. r = Inr sf \<longrightarrow> \<not> sa_temperature sf > mt)" by simp
      then show ?thesis by blast
    qed
  qed
qed

lemma prefix_length_le: "prefix h h' \<Longrightarrow> length h \<le> length h'"
  by (auto simp: prefix_def)

lemma sa_iter_between:
  assumes run: "sa_iter n f cr mt s = Inr sn"
    and wf: "sa_candidate s < length (sa_heap s)" "sa_best_candidate s < length (sa_heap s)"
      "fitness (sa_heap s ! sa_candidate s) \<le> fitness (sa_heap s ! sa_best_candidate s)"
    and j: "j \<le> n"
  shows "\<exists>sj. sa_iter j f cr mt s = Inr sj \<and>
           sa_candidate sj < length (sa_heap sj) \<and>
           sa_best_candidate sj < length (sa_heap sj) \<and>
           prefix (sa_heap sj) (sa_heap sn) \<and>
           fitness (sa_heap sn ! sa_candidate sj) \<le> fitness (sa_heap sn ! sa_best_candidate sn) \<and>
           fitness (sa_heap sn ! sa_best_candidate sj)
             \<le> fitness (sa_heap sn ! sa_best_candidate sn)"
proof -
  from sa_iter_split [OF j run] obtain sj where
    a: "sa_iter j f cr mt s = Inr sj" and b: "sa_iter (n - j) f cr mt sj = Inr sn" by blast
  from sa_iter_Inr [OF a wf]
  have wj: "sa_candidate sj < length (sa_heap sj)" "sa_best_candidate sj < length (sa_heap sj)"
    "fitness (sa_heap sj ! sa_candidate sj) \<le> fitness (sa_heap sj ! sa_best_candidate sj)"
    by auto
  from sa_iter_Inr [OF b wj]
  have p: "prefix (sa_heap sj) (sa_heap sn)" and
    m: "fitness (sa_heap sj ! sa_best_candidate sj)
          \<le> fitness (sa_heap sn ! sa_best_candidate sn)" by auto
  have "sa_heap sn ! sa_candidate sj = sa_heap sj ! sa_candidate sj"
    "sa_heap sn ! sa_best_candidate sj = sa_heap sj ! sa_best_candidate sj"
    using prefix_nth [OF p] wj(1,2) by auto
  with a wj p m show ?thesis by auto
qed

text \<open>
  Claim C3. A run of \<^verbatim>\<open>simulated_annealing\<close> that returns has made some number \<open>n\<close> of
  passes through the loop; it returns the tracked best of the final state. For every
  \<open>j \<le> n\<close> the current candidate of the state after \<open>j\<close> passes (every current
  candidate the run has visited) is in the final store as it was then and has a fitness
  no greater than the returned one's, and the fitness of the tracked best after
  \<open>i \<le> j\<close> passes is no greater than after \<open>j\<close>.
\<close>

theorem simulated_annealing_best_tracking:
  assumes "candidate < length h"
    and "simulated_annealing h candidate f initial_temperature cooling_rate min_temperature rs
           = Some (Inr (best, h', rs'))"
  shows "\<exists>n sn. sa_iter n f cooling_rate min_temperature
                  (sa_init h candidate f initial_temperature rs) = Inr sn
           \<and> \<not> sa_temperature sn > min_temperature
           \<and> best = sa_best_candidate sn \<and> h' = sa_heap sn
           \<and> (\<forall>j\<le>n. \<exists>sj. sa_iter j f cooling_rate min_temperature
                               (sa_init h candidate f initial_temperature rs) = Inr sj
                 \<and> h' ! sa_candidate sj = sa_heap sj ! sa_candidate sj
                 \<and> fitness (h' ! sa_candidate sj) \<le> fitness (h' ! best)
                 \<and> (\<forall>i\<le>j. \<exists>si. sa_iter i f cooling_rate min_temperature
                                    (sa_init h candidate f initial_temperature rs) = Inr si
                       \<and> fitness (h' ! sa_best_candidate si)
                           \<le> fitness (h' ! sa_best_candidate sj)))"
proof -
  let ?s0 = "sa_init h candidate f initial_temperature rs"
  have wf: "sa_candidate ?s0 < length (sa_heap ?s0)"
    "sa_best_candidate ?s0 < length (sa_heap ?s0)"
    "fitness (sa_heap ?s0 ! sa_candidate ?s0) \<le> fitness (sa_heap ?s0 ! sa_best_candidate ?s0)"
    using assms(1) by (simp_all add: sa_init_def)
  from assms(2) obtain sn where
    lp: "sa_loop f cooling_rate min_temperature ?s0 = Some (Inr sn)" and
    res: "best = sa_best_candidate sn" "h' = sa_heap sn"
    by (auto simp: simulated_annealing_def split: option.splits sum.splits)
  from sa_loop_iter [OF lp] obtain n where
    run: "sa_iter n f cooling_rate min_temperature ?s0 = Inr sn" and
    fin: "\<not> sa_temperature sn > min_temperature" by blast
  have "\<exists>sj. sa_iter j f cooling_rate min_temperature ?s0 = Inr sj
            \<and> h' ! sa_candidate sj = sa_heap sj ! sa_candidate sj
            \<and> fitness (h' ! sa_candidate sj) \<le> fitness (h' ! best)
            \<and> (\<forall>i\<le>j. \<exists>si. sa_iter i f cooling_rate min_temperature ?s0 = Inr si
                  \<and> fitness (h' ! sa_best_candidate si)
                      \<le> fitness (h' ! sa_best_candidate sj))" if j: "j \<le> n" for j
  proof -
    from sa_iter_between [OF run wf j] obtain sj where
      a: "sa_iter j f cooling_rate min_temperature ?s0 = Inr sj" and
      wc: "sa_candidate sj < length (sa_heap sj)" and
      wj: "sa_best_candidate sj < length (sa_heap sj)" and
      p: "prefix (sa_heap sj) (sa_heap sn)" and
      c: "fitness (sa_heap sn ! sa_candidate sj) \<le> fitness (sa_heap sn ! sa_best_candidate sn)"
      by blast
    have same: "h' ! sa_candidate sj = sa_heap sj ! sa_candidate sj"
      using prefix_nth [OF p wc] res by simp
    have "\<exists>si. sa_iter i f cooling_rate min_temperature ?s0 = Inr si
              \<and> fitness (h' ! sa_best_candidate si) \<le> fitness (h' ! sa_best_candidate sj)"
      if i: "i \<le> j" for i
    proof -
      from sa_iter_between [OF a wf i] obtain si where
        b: "sa_iter i f cooling_rate min_temperature ?s0 = Inr si" and
        wi: "sa_best_candidate si < length (sa_heap si)" and
        pi: "prefix (sa_heap si) (sa_heap sj)" and
        m: "fitness (sa_heap sj ! sa_best_candidate si)
              \<le> fitness (sa_heap sj ! sa_best_candidate sj)"
        by blast
      have "sa_best_candidate si < length (sa_heap sj)"
        using wi prefix_length_le [OF pi] by simp
      then have "sa_heap sn ! sa_best_candidate si = sa_heap sj ! sa_best_candidate si"
        "sa_heap sn ! sa_best_candidate sj = sa_heap sj ! sa_best_candidate sj"
        using prefix_nth [OF p] wj by auto
      with b m res show ?thesis by auto
    qed
    with a c res same show ?thesis by auto
  qed
  with run fin res show ?thesis by blast
qed

lemmas sa_eval = sa_step_def sa_accept_def random_random_def single_gene_neighbor_def
  random_randint_def randbelow_def Candidate_init_def calculate_fitness_def frac_def Let_def

theorem simulated_annealing_best_tracking_witness:
  "(0::nat) < length [\<lparr>chromosome = [0], fitness = 7\<rparr>]
   \<and> simulated_annealing [\<lparr>chromosome = [0], fitness = 7\<rparr>] 0 sum_list 1 (1 / 2) (1 / 4)
        (0 ## 1 / 2 ## 0 ## 1 / 2 ## 1 / 2 ## sconst 0)
      = Some (Inr (1, [\<lparr>chromosome = [0], fitness = 0\<rparr>,
                       \<lparr>chromosome = [50], fitness = 50\<rparr>,
                       \<lparr>chromosome = [50], fitness = 50\<rparr>], sconst 0))
   \<and> (\<exists>n sn. sa_iter n sum_list (1 / 2) (1 / 4)
                (sa_init [\<lparr>chromosome = [0], fitness = 7\<rparr>] 0 sum_list 1
                   (0 ## 1 / 2 ## 0 ## 1 / 2 ## 1 / 2 ## sconst 0)) = Inr sn
          \<and> sa_best_candidate sn = 1)"
proof -
  have h: "(0::nat) < length [\<lparr>chromosome = [0], fitness = 7\<rparr>]" by simp
  have r: "simulated_annealing [\<lparr>chromosome = [0], fitness = 7\<rparr>] 0 sum_list 1 (1 / 2) (1 / 4)
        (0 ## 1 / 2 ## 0 ## 1 / 2 ## 1 / 2 ## sconst 0)
      = Some (Inr (1, [\<lparr>chromosome = [0], fitness = 0\<rparr>,
                       \<lparr>chromosome = [50], fitness = 50\<rparr>,
                       \<lparr>chromosome = [50], fitness = 50\<rparr>], sconst 0))"
    apply (simp add: simulated_annealing_def sa_init_def calculate_fitness_def)
    apply (subst sa_loop.simps, simp add: sa_eval)
    apply (subst sa_loop.simps, simp add: sa_eval)
    apply (subst sa_loop.simps, simp add: sa_eval)
    done
  from simulated_annealing_best_tracking [OF h r] obtain n sn where
    "sa_iter n sum_list (1 / 2) (1 / 4)
       (sa_init [\<lparr>chromosome = [0], fitness = 7\<rparr>] 0 sum_list 1
          (0 ## 1 / 2 ## 0 ## 1 / 2 ## 1 / 2 ## sconst 0)) = Inr sn"
    "1 = sa_best_candidate sn"
    by blast
  then have "\<exists>n sn. sa_iter n sum_list (1 / 2) (1 / 4)
                (sa_init [\<lparr>chromosome = [0], fitness = 7\<rparr>] 0 sum_list 1
                   (0 ## 1 / 2 ## 0 ## 1 / 2 ## 1 / 2 ## sconst 0)) = Inr sn
          \<and> sa_best_candidate sn = 1"
    by metis
  with h r show ?thesis by (intro conjI)
qed

subsection \<open>Termination of simulated annealing\<close>

text \<open>
  With \<open>0 < cooling_rate < 1\<close> and a positive \<open>min_temperature\<close> the temperature falls
  below the threshold after finitely many passes, and on a chromosome that is not empty
  no pass raises: the call returns.
\<close>

lemma sa_iter_loop:
  "sa_iter n f cr mt s = r \<Longrightarrow> \<forall>sf. r = Inr sf \<longrightarrow> \<not> sa_temperature sf > mt \<Longrightarrow>
     sa_loop f cr mt s = Some r"
proof (induction n arbitrary: s)
  case 0
  then show ?case by (subst sa_loop.simps) auto
next
  case (Suc n)
  show ?case
  proof (cases "sa_temperature s > mt")
    case False
    with Suc.prems show ?thesis by (subst sa_loop.simps) auto
  next
    case True
    show ?thesis
    proof (cases "sa_step f cr s")
      case (Inl e)
      with True Suc.prems show ?thesis by (subst sa_loop.simps) auto
    next
      case (Inr s1)
      with True Suc.prems have "sa_iter n f cr mt s1 = r" by simp
      from Suc.IH [OF this Suc.prems(2)] True Inr show ?thesis
        by (subst sa_loop.simps) simp
    qed
  qed
qed

lemma sa_step_returns:
  assumes "sa_candidate s < length (sa_heap s)"
    and "chromosome (sa_heap s ! sa_candidate s) \<noteq> []"
    and "sa_temperature s \<noteq> 0"
  shows "\<exists>s'. sa_step f cr s = Inr s' \<and> sa_candidate s' < length (sa_heap s') \<and>
           chromosome (sa_heap s' ! sa_candidate s') \<noteq> [] \<and>
           sa_temperature s' = sa_temperature s * (1 - cr)"
proof -
  from single_gene_neighbor_returns [OF assms(2)] obtain nb h' rs' where
    n: "single_gene_neighbor (sa_heap s) (sa_candidate s) f (sa_rng s) = Inr (nb, h', rs')"
    by (metis prod_cases3)
  from single_gene_neighbor_Inr [OF n] obtain ch where
    nb: "nb = length (sa_heap s)" and
    len: "length ch = length (chromosome (sa_heap s ! sa_candidate s))" and
    h': "h' = sa_heap s @ [\<lparr>chromosome = ch, fitness = f ch\<rparr>]" by blast
  have "\<exists>acc rs''.
      sa_accept (fitness (h' ! nb) - fitness (h' ! sa_candidate s)) (sa_temperature s) rs'
        = Inr (acc, rs'')"
    using assms(3) by (auto simp: sa_accept_def random_random_def)
  then obtain acc rs'' where
    a: "sa_accept (fitness (h' ! nb) - fitness (h' ! sa_candidate s)) (sa_temperature s) rs'
          = Inr (acc, rs'')"
    by blast
  have "ch \<noteq> []" using len assms(2) by auto
  then show ?thesis
    using n a nb h' assms(1,2) by (auto simp: sa_step_def nth_append)
qed

lemma sa_iter_cooling:
  "sa_candidate s < length (sa_heap s) \<Longrightarrow>
   chromosome (sa_heap s ! sa_candidate s) \<noteq> [] \<Longrightarrow> 0 < mt \<Longrightarrow>
     \<exists>sf. sa_iter n f cr mt s = Inr sf \<and>
          (\<not> sa_temperature sf > mt \<or> sa_temperature sf = sa_temperature s * (1 - cr) ^ n)"
proof (induction n arbitrary: s)
  case 0
  then show ?case by simp
next
  case (Suc n)
  show ?case
  proof (cases "sa_temperature s > mt")
    case False
    then show ?thesis by simp
  next
    case True
    with Suc.prems(3) have "sa_temperature s \<noteq> 0" by simp
    from sa_step_returns [OF Suc.prems(1,2) this, of f cr] obtain s1 where
      st: "sa_step f cr s = Inr s1" and
      w: "sa_candidate s1 < length (sa_heap s1)"
        "chromosome (sa_heap s1 ! sa_candidate s1) \<noteq> []" and
      t: "sa_temperature s1 = sa_temperature s * (1 - cr)" by blast
    from Suc.IH [OF w Suc.prems(3)] obtain sf where
      "sa_iter n f cr mt s1 = Inr sf"
      "\<not> sa_temperature sf > mt \<or> sa_temperature sf = sa_temperature s1 * (1 - cr) ^ n"
      by blast
    with True st t show ?thesis by (auto simp: mult.assoc)
  qed
qed

lemma simulated_annealing_returns:
  assumes "candidate < length h" and "chromosome (h ! candidate) \<noteq> []"
    and "0 < cooling_rate" and "cooling_rate < 1" and "0 < min_temperature"
  shows "\<exists>best h' rs'.
           simulated_annealing h candidate f initial_temperature cooling_rate min_temperature rs
             = Some (Inr (best, h', rs'))"
proof -
  let ?s0 = "sa_init h candidate f initial_temperature rs"
  have w: "sa_candidate ?s0 < length (sa_heap ?s0)"
    "chromosome (sa_heap ?s0 ! sa_candidate ?s0) \<noteq> []"
    using assms(1,2) by (simp_all add: sa_init_def calculate_fitness_same)
  have t0: "sa_temperature ?s0 = initial_temperature" by (simp add: sa_init_def)
  have "\<exists>n. initial_temperature * (1 - cooling_rate) ^ n \<le> min_temperature"
  proof (cases "initial_temperature \<le> min_temperature")
    case True
    then have "initial_temperature * (1 - cooling_rate) ^ 0 \<le> min_temperature" by simp
    then show ?thesis by blast
  next
    case False
    then have pos: "0 < initial_temperature" using assms(5) by simp
    then have "0 < min_temperature / initial_temperature" using assms(5) by simp
    from real_arch_pow_inv [OF this, of "1 - cooling_rate"] assms(3) obtain n where
      "(1 - cooling_rate) ^ n < min_temperature / initial_temperature" by auto
    then have "initial_temperature * (1 - cooling_rate) ^ n < min_temperature"
      using pos by (simp add: field_simps)
    then show ?thesis by (auto intro: less_imp_le)
  qed
  then obtain n where n: "initial_temperature * (1 - cooling_rate) ^ n \<le> min_temperature"
    by blast
  from sa_iter_cooling [OF w assms(5), of n f cooling_rate] obtain sf where
    it: "sa_iter n f cooling_rate min_temperature ?s0 = Inr sf" and
    "\<not> sa_temperature sf > min_temperature
       \<or> sa_temperature sf = sa_temperature ?s0 * (1 - cooling_rate) ^ n" by blast
  with n t0 have "\<not> sa_temperature sf > min_temperature" by auto
  with sa_iter_loop [OF it]
  have "sa_loop f cooling_rate min_temperature ?s0 = Some (Inr sf)" by simp
  then show ?thesis by (simp add: simulated_annealing_def)
qed

section \<open>Tabu search\<close>

lemma deque_append_length: "length q \<le> n \<Longrightarrow> length (deque_append n q x) \<le> n"
  by (auto simp: deque_append_def Let_def)

lemma deque_append_last: "0 < n \<Longrightarrow> x \<in> set (deque_append n q x)"
  by (cases q) (auto simp: deque_append_def Let_def)

lemma tabu_neighborhood_Inr:
  "tabu_neighborhood n h cur f rs = Inr (nbs, h', rs') \<Longrightarrow> cur < length h \<Longrightarrow>
     prefix h h' \<and> (\<forall>nb\<in>set nbs. nb < length h')"
proof (induction n arbitrary: h rs nbs)
  case 0
  then show ?case by simp
next
  case (Suc n)
  from Suc.prems(1) obtain nb h1 rs1 nbs1 where
    n: "single_gene_neighbor h cur f rs = Inr (nb, h1, rs1)" and
    r: "tabu_neighborhood n h1 cur f rs1 = Inr (nbs1, h', rs')" and
    nbs: "nbs = nb # nbs1"
    by (auto split: sum.splits)
  from single_gene_neighbor_Inr [OF n] obtain ch where
    nb: "nb = length h" and h1: "h1 = h @ [\<lparr>chromosome = ch, fitness = f ch\<rparr>]" by blast
  have "cur < length h1" using Suc.prems(2) h1 by simp
  from Suc.IH [OF r this] have p: "prefix h1 h'" and a: "\<forall>nb\<in>set nbs1. nb < length h'" by auto
  have "prefix h h1" using h1 by simp
  with p have "prefix h h'" by (auto intro: prefix_order.trans)
  moreover have "nb < length h'" using prefix_length_le [OF p] nb h1 by simp
  ultimately show ?case using a nbs by simp
qed

text \<open>
  The scan returns the candidate it started with or a neighbour that passed the
  admissibility test.
\<close>

lemma tabu_best_neighbor_Some:
  "tabu_best_neighbor h tabu_list best nbs acc = Some b \<Longrightarrow>
     acc = Some b \<or>
     (b \<in> set nbs \<and>
      (chromosome (h ! b) \<notin> set tabu_list \<or> fitness (h ! b) > fitness (h ! best)))"
proof (induction nbs arbitrary: acc)
  case Nil
  then show ?case by simp
next
  case (Cons nb nbs)
  let ?acc' = "if chromosome (h ! nb) \<notin> set tabu_list \<or> fitness (h ! nb) > fitness (h ! best)
        then (case acc of None \<Rightarrow> Some nb
              | Some b' \<Rightarrow> if fitness (h ! nb) > fitness (h ! b') then Some nb else Some b')
        else acc"
  from Cons.prems have "tabu_best_neighbor h tabu_list best nbs ?acc' = Some b" by simp
  from Cons.IH [OF this] show ?case
    by (auto split: if_splits option.splits)
qed

lemma tabu_step_Inr:
  assumes "tabu_step f tsz nsize s = Inr s'"
    and "ts_current_candidate s < length (ts_heap s)"
    and "ts_best_candidate s < length (ts_heap s)"
  shows "ts_current_candidate s' < length (ts_heap s') \<and>
         ts_best_candidate s' < length (ts_heap s') \<and>
         prefix (ts_heap s) (ts_heap s') \<and>
         ts_tabu_list s' =
           deque_append tsz (ts_tabu_list s)
             (chromosome (ts_heap s' ! ts_current_candidate s'))"
proof -
  from assms(1) obtain nbs h' rs' where
    n: "tabu_neighborhood nsize (ts_heap s) (ts_current_candidate s) f (ts_rng s)
          = Inr (nbs, h', rs')"
    by (auto simp: tabu_step_def split: sum.splits)
  let ?bn = "tabu_best_neighbor h' (ts_tabu_list s) (ts_best_candidate s) nbs None"
  from tabu_neighborhood_Inr [OF n assms(2)]
  have p: "prefix (ts_heap s) h'" and fresh: "\<forall>nb\<in>set nbs. nb < length h'" by auto
  have bn: "b < length h'" if "?bn = Some b" for b
    using tabu_best_neighbor_Some [OF that] fresh by auto
  have old: "ts_current_candidate s < length h'" "ts_best_candidate s < length h'"
    using prefix_length_le [OF p] assms(2,3) by auto
  let ?move = "case ?bn of None \<Rightarrow> False
      | Some b \<Rightarrow> fitness (h' ! b) > fitness (h' ! ts_current_candidate s)"
  let ?cur = "if ?move then the ?bn else ts_current_candidate s"
  let ?best = "if ?move \<and> fitness (h' ! the ?bn) > fitness (h' ! ts_best_candidate s)
      then the ?bn else ts_best_candidate s"
  from assms(1) n have s': "s' = \<lparr>ts_current_candidate = ?cur, ts_best_candidate = ?best,
      ts_tabu_list = deque_append tsz (ts_tabu_list s) (chromosome (h' ! ?cur)),
      ts_heap = h', ts_rng = rs'\<rparr>"
    by (simp add: tabu_step_def Let_def)
  have the_bn: "the ?bn < length h'" if "?move"
    using that bn by (cases ?bn) auto
  have h: "ts_heap s' = h'" using s' by simp
  have cur: "ts_current_candidate s' < length h'"
    using s' old the_bn by auto
  have best: "ts_best_candidate s' < length h'"
    using s' old the_bn by auto
  have tabu: "ts_tabu_list s' =
      deque_append tsz (ts_tabu_list s) (chromosome (h' ! ts_current_candidate s'))"
    using s' by simp
  show ?thesis using h cur best p tabu by simp
qed

lemma tabu_loop_Inr:
  "tabu_loop n f tsz nsize s = Inr s' \<Longrightarrow>
   ts_current_candidate s < length (ts_heap s) \<Longrightarrow>
   ts_best_candidate s < length (ts_heap s) \<Longrightarrow>
   length (ts_tabu_list s) \<le> tsz \<Longrightarrow>
     ts_current_candidate s' < length (ts_heap s') \<and>
     ts_best_candidate s' < length (ts_heap s') \<and>
     prefix (ts_heap s) (ts_heap s') \<and>
     length (ts_tabu_list s') \<le> tsz"
proof (induction n arbitrary: s)
  case 0
  then show ?case by simp
next
  case (Suc n)
  from Suc.prems(1) obtain s1 where
    st: "tabu_step f tsz nsize s = Inr s1" and
    lp: "tabu_loop n f tsz nsize s1 = Inr s'"
    by (auto split: sum.splits)
  from tabu_step_Inr [OF st Suc.prems(2,3)]
  have a: "ts_current_candidate s1 < length (ts_heap s1)"
    "ts_best_candidate s1 < length (ts_heap s1)"
    "prefix (ts_heap s) (ts_heap s1)"
    "ts_tabu_list s1 = deque_append tsz (ts_tabu_list s)
        (chromosome (ts_heap s1 ! ts_current_candidate s1))"
    by auto
  have "length (ts_tabu_list s1) \<le> tsz"
    using a(4) deque_append_length [OF Suc.prems(4)] by simp
  from Suc.IH [OF lp a(1,2) this] a(3) show ?case
    by (auto intro: prefix_order.trans)
qed

lemma tabu_loop_Inl:
  "tabu_loop n f tsz nsize s = Inl (e, h') \<Longrightarrow>
   ts_current_candidate s < length (ts_heap s) \<Longrightarrow>
   ts_best_candidate s < length (ts_heap s) \<Longrightarrow>
     prefix (ts_heap s) h'"
proof (induction n arbitrary: s)
  case 0
  then show ?case by simp
next
  case (Suc n)
  show ?case
  proof (cases "tabu_step f tsz nsize s")
    case (Inl a)
    with Suc.prems(1) show ?thesis by auto
  next
    case (Inr s1)
    from tabu_step_Inr [OF Inr Suc.prems(2,3)]
    have a: "ts_current_candidate s1 < length (ts_heap s1)"
      "ts_best_candidate s1 < length (ts_heap s1)"
      "prefix (ts_heap s) (ts_heap s1)" by auto
    from Suc.prems(1) Inr have "tabu_loop n f tsz nsize s1 = Inl (e, h')" by simp
    from Suc.IH [OF this a(1,2)] a(3) show ?thesis by (auto intro: prefix_order.trans)
  qed
qed

lemma tabu_init_wf:
  "c < length h \<Longrightarrow>
     ts_current_candidate (tabu_init h c f tsz rs) < length (ts_heap (tabu_init h c f tsz rs)) \<and>
     ts_best_candidate (tabu_init h c f tsz rs) < length (ts_heap (tabu_init h c f tsz rs)) \<and>
     length (ts_tabu_list (tabu_init h c f tsz rs)) \<le> tsz \<and>
     ts_heap (tabu_init h c f tsz rs) = calculate_fitness h c f"
  by (simp add: tabu_init_def Let_def deque_append_def)

text \<open>
  Claim C4, as amended. Take the state \<open>s\<close> of a run of \<^verbatim>\<open>tabu_search\<close> after \<open>k\<close>
  iterations and the state \<open>s'\<close> after the next one. Tabu memory is a FIFO queue of at
  most \<open>tabu_list_size\<close> entries: the iteration pushes the chromosome of its final
  current candidate, whether or not a move occurred, and drops the oldest entry when
  the queue was full. When \<open>tabu_list_size\<close> is at least 1 that chromosome is therefore
  in tabu memory at the end of the iteration. A neighbour whose chromosome is in tabu
  memory is chosen by the scan for \<^verbatim>\<open>best_neighbor\<close> only when its fitness exceeds that
  of the running best candidate.
\<close>

theorem tabu_search_memory:
  assumes "initial_candidate < length h"
    and "tabu_loop k f (nat tabu_list_size) (nat neighborhood_size)
           (tabu_init h initial_candidate f (nat tabu_list_size) rs) = Inr s"
    and "tabu_step f (nat tabu_list_size) (nat neighborhood_size) s = Inr s'"
  shows "(1 \<le> tabu_list_size \<longrightarrow>
            chromosome (ts_heap s' ! ts_current_candidate s') \<in> set (ts_tabu_list s'))
       \<and> length (ts_tabu_list s') \<le> nat tabu_list_size
       \<and> ts_tabu_list s' =
           (if length (ts_tabu_list s) < nat tabu_list_size
            then ts_tabu_list s @ [chromosome (ts_heap s' ! ts_current_candidate s')]
            else tl (ts_tabu_list s @ [chromosome (ts_heap s' ! ts_current_candidate s')]))
       \<and> (tabu_best_neighbor hn tabu_list best_candidate neighborhood None = Some b
            \<and> chromosome (hn ! b) \<in> set tabu_list \<longrightarrow>
              fitness (hn ! b) > fitness (hn ! best_candidate))"
proof -
  let ?s0 = "tabu_init h initial_candidate f (nat tabu_list_size) rs"
  from tabu_init_wf [OF assms(1), of f "nat tabu_list_size" rs]
  have w0: "ts_current_candidate ?s0 < length (ts_heap ?s0)"
    "ts_best_candidate ?s0 < length (ts_heap ?s0)"
    "length (ts_tabu_list ?s0) \<le> nat tabu_list_size" by auto
  from tabu_loop_Inr [OF assms(2) w0]
  have w: "ts_current_candidate s < length (ts_heap s)"
    "ts_best_candidate s < length (ts_heap s)"
    "length (ts_tabu_list s) \<le> nat tabu_list_size" by auto
  from tabu_step_Inr [OF assms(3) w(1,2)]
  have t: "ts_tabu_list s' = deque_append (nat tabu_list_size) (ts_tabu_list s)
        (chromosome (ts_heap s' ! ts_current_candidate s'))" by simp
  have 1: "1 \<le> tabu_list_size \<longrightarrow>
      chromosome (ts_heap s' ! ts_current_candidate s') \<in> set (ts_tabu_list s')"
    using t deque_append_last [of "nat tabu_list_size"] by auto
  have 2: "length (ts_tabu_list s') \<le> nat tabu_list_size"
    using t deque_append_length [OF w(3)] by simp
  have 3: "ts_tabu_list s' =
           (if length (ts_tabu_list s) < nat tabu_list_size
            then ts_tabu_list s @ [chromosome (ts_heap s' ! ts_current_candidate s')]
            else tl (ts_tabu_list s @ [chromosome (ts_heap s' ! ts_current_candidate s')]))"
    using t w(3) by (auto simp: deque_append_def Let_def)
  have 4: "tabu_best_neighbor hn tabu_list best_candidate neighborhood None = Some b
            \<and> chromosome (hn ! b) \<in> set tabu_list \<longrightarrow>
              fitness (hn ! b) > fitness (hn ! best_candidate)"
    using tabu_best_neighbor_Some [of hn tabu_list best_candidate neighborhood None b] by auto
  from 1 2 3 4 show ?thesis by (intro conjI)
qed

lemmas ts_eval = tabu_init_def tabu_step_def deque_append_def single_gene_neighbor_def
  random_randint_def randbelow_def Candidate_init_def calculate_fitness_def frac_def Let_def

theorem tabu_search_memory_witness:
  "(0::nat) < length [\<lparr>chromosome = [0], fitness = 0\<rparr>]
   \<and> tabu_loop 0 sum_list (nat 1) (nat 1)
        (tabu_init [\<lparr>chromosome = [0], fitness = 0\<rparr>] 0 sum_list (nat 1)
           (0 ## 1 / 2 ## sconst 0))
      = Inr \<lparr>ts_current_candidate = 0, ts_best_candidate = 0, ts_tabu_list = [[0]],
             ts_heap = [\<lparr>chromosome = [0], fitness = 0\<rparr>],
             ts_rng = 0 ## 1 / 2 ## sconst 0\<rparr>
   \<and> tabu_step sum_list (nat 1) (nat 1)
        \<lparr>ts_current_candidate = 0, ts_best_candidate = 0, ts_tabu_list = [[0]],
         ts_heap = [\<lparr>chromosome = [0], fitness = 0\<rparr>],
         ts_rng = 0 ## 1 / 2 ## sconst 0\<rparr>
      = Inr \<lparr>ts_current_candidate = 1, ts_best_candidate = 1, ts_tabu_list = [[50]],
             ts_heap = [\<lparr>chromosome = [0], fitness = 0\<rparr>,
                        \<lparr>chromosome = [50], fitness = 50\<rparr>],
             ts_rng = sconst 0\<rparr>
   \<and> (1::int) \<le> 1
   \<and> tabu_best_neighbor [\<lparr>chromosome = [1], fitness = 5\<rparr>, \<lparr>chromosome = [2], fitness = 9\<rparr>]
        [[2]] 0 [1] None = Some 1
   \<and> chromosome ([\<lparr>chromosome = [1], fitness = 5\<rparr>, \<lparr>chromosome = [2], fitness = 9\<rparr>] ! 1)
        \<in> set [[2]]
   \<and> [50] \<in> set [[50::real]]
   \<and> fitness ([\<lparr>chromosome = [1], fitness = 5\<rparr>, \<lparr>chromosome = [2], fitness = 9\<rparr>] ! 0)
        < fitness ([\<lparr>chromosome = [1], fitness = 5\<rparr>, \<lparr>chromosome = [2], fitness = 9\<rparr>] ! 1)"
proof -
  have a: "(0::nat) < length [\<lparr>chromosome = [0], fitness = 0\<rparr>]" by simp
  have b: "tabu_loop 0 sum_list (nat 1) (nat 1)
        (tabu_init [\<lparr>chromosome = [0], fitness = 0\<rparr>] 0 sum_list (nat 1)
           (0 ## 1 / 2 ## sconst 0))
      = Inr \<lparr>ts_current_candidate = 0, ts_best_candidate = 0, ts_tabu_list = [[0]],
             ts_heap = [\<lparr>chromosome = [0], fitness = 0\<rparr>],
             ts_rng = 0 ## 1 / 2 ## sconst 0\<rparr>"
    by (simp add: ts_eval)
  have c: "tabu_step sum_list (nat 1) (nat 1)
        \<lparr>ts_current_candidate = 0, ts_best_candidate = 0, ts_tabu_list = [[0]],
         ts_heap = [\<lparr>chromosome = [0], fitness = 0\<rparr>],
         ts_rng = 0 ## 1 / 2 ## sconst 0\<rparr>
      = Inr \<lparr>ts_current_candidate = 1, ts_best_candidate = 1, ts_tabu_list = [[50]],
             ts_heap = [\<lparr>chromosome = [0], fitness = 0\<rparr>,
                        \<lparr>chromosome = [50], fitness = 50\<rparr>],
             ts_rng = sconst 0\<rparr>"
    by (simp add: ts_eval)
  have d: "tabu_best_neighbor [\<lparr>chromosome = [1], fitness = 5\<rparr>, \<lparr>chromosome = [2], fitness = 9\<rparr>]
        [[2]] 0 [1] None = Some 1"
    by simp
  from tabu_search_memory [OF a b c,
      of "[\<lparr>chromosome = [1], fitness = 5\<rparr>, \<lparr>chromosome = [2], fitness = 9\<rparr>]"
         "[[2]]" 0 "[1]" 1]
  show ?thesis using a b c d by simp
qed

text \<open>
  With \<^verbatim>\<open>tabu_list_size = 0\<close> the queue \<^verbatim>\<open>deque(maxlen=0)\<close> keeps nothing: after the
  first iteration of this run the current candidate is the neighbour \<open>[50]\<close> and tabu
  memory is empty.
\<close>

theorem tabu_search_memory_counterexample:
  "tabu_search [\<lparr>chromosome = [0], fitness = 0\<rparr>] 0 sum_list 0 1 1 (0 ## 1 / 2 ## sconst 0)
     = Inr (1, [\<lparr>chromosome = [0], fitness = 0\<rparr>, \<lparr>chromosome = [50], fitness = 50\<rparr>],
            sconst 0)
   \<and> tabu_loop 1 sum_list (nat 0) (nat 1)
        (tabu_init [\<lparr>chromosome = [0], fitness = 0\<rparr>] 0 sum_list (nat 0)
           (0 ## 1 / 2 ## sconst 0))
      = Inr \<lparr>ts_current_candidate = 1, ts_best_candidate = 1, ts_tabu_list = [],
             ts_heap = [\<lparr>chromosome = [0], fitness = 0\<rparr>,
                        \<lparr>chromosome = [50], fitness = 50\<rparr>],
             ts_rng = sconst 0\<rparr>
   \<and> chromosome
        (ts_heap \<lparr>ts_current_candidate = 1, ts_best_candidate = 1, ts_tabu_list = [],
                  ts_heap = [\<lparr>chromosome = [0], fitness = 0\<rparr>,
                             \<lparr>chromosome = [50], fitness = 50\<rparr>],
                  ts_rng = sconst 0\<rparr>
         ! ts_current_candidate
             \<lparr>ts_current_candidate = 1, ts_best_candidate = 1, ts_tabu_list = [],
              ts_heap = [\<lparr>chromosome = [0], fitness = 0\<rparr>,
                         \<lparr>chromosome = [50], fitness = 50\<rparr>],
              ts_rng = sconst 0\<rparr>)
       \<notin> set (ts_tabu_list
                 \<lparr>ts_current_candidate = 1, ts_best_candidate = 1, ts_tabu_list = [],
                  ts_heap = [\<lparr>chromosome = [0], fitness = 0\<rparr>,
                             \<lparr>chromosome = [50], fitness = 50\<rparr>],
                  ts_rng = sconst 0\<rparr>)"
  by (simp add: tabu_search_def ts_eval)

section \<open>The effect of the local searches on the caller's objects\<close>

lemma prefix_take: "prefix a b \<Longrightarrow> take (length a) b = a"
  by (auto simp: prefix_def)

lemma hill_climb_store:
  assumes "c < length h"
    and "hill_climb h c f n rs = Inr (r, h', rs') \<or> hill_climb h c f n rs = Inl (e, h')"
  shows "prefix (calculate_fitness h c f) h'"
proof -
  have c0: "c < length (calculate_fitness h c f)" using assms(1) by simp
  from assms(2) show ?thesis
    using hill_climb_loop_Inr [OF _ c0] hill_climb_loop_Inl [OF _ c0]
    by (auto simp: hill_climb_def)
qed

lemma simulated_annealing_store:
  assumes "c < length h"
    and "simulated_annealing h c f t0 cr mt rs = Some (Inr (r, h', rs'))
         \<or> simulated_annealing h c f t0 cr mt rs = Some (Inl (e, h'))"
  shows "prefix (calculate_fitness h c f) h'"
proof -
  let ?s0 = "sa_init h c f t0 rs"
  have wf: "sa_candidate ?s0 < length (sa_heap ?s0)"
    "sa_best_candidate ?s0 < length (sa_heap ?s0)"
    "fitness (sa_heap ?s0 ! sa_candidate ?s0) \<le> fitness (sa_heap ?s0 ! sa_best_candidate ?s0)"
    and h0: "sa_heap ?s0 = calculate_fitness h c f"
    using assms(1) by (simp_all add: sa_init_def)
  from assms(2) show ?thesis
  proof
    assume "simulated_annealing h c f t0 cr mt rs = Some (Inr (r, h', rs'))"
    then obtain sn where lp: "sa_loop f cr mt ?s0 = Some (Inr sn)" and h': "h' = sa_heap sn"
      by (auto simp: simulated_annealing_def split: option.splits sum.splits)
    from sa_loop_iter [OF lp] obtain n where "sa_iter n f cr mt ?s0 = Inr sn" by blast
    from sa_iter_Inr [OF this wf] h' h0 show ?thesis by simp
  next
    assume "simulated_annealing h c f t0 cr mt rs = Some (Inl (e, h'))"
    then have lp: "sa_loop f cr mt ?s0 = Some (Inl (e, h'))"
      by (auto simp: simulated_annealing_def split: option.splits sum.splits)
    from sa_loop_iter [OF lp] obtain n where "sa_iter n f cr mt ?s0 = Inl (e, h')" by blast
    from sa_iter_Inl [OF this wf(1,2)] h0 show ?thesis by simp
  qed
qed

lemma tabu_search_store:
  assumes "c < length h"
    and "tabu_search h c f tsz n nsize rs = Inr (r, h', rs')
         \<or> tabu_search h c f tsz n nsize rs = Inl (e, h')"
  shows "prefix (calculate_fitness h c f) h'"
proof (cases "tsz < 0")
  case True
  with assms(2) show ?thesis by (auto simp: tabu_search_def)
next
  case False
  let ?s0 = "tabu_init h c f (nat tsz) rs"
  from tabu_init_wf [OF assms(1), of f "nat tsz" rs]
  have w0: "ts_current_candidate ?s0 < length (ts_heap ?s0)"
    "ts_best_candidate ?s0 < length (ts_heap ?s0)"
    "length (ts_tabu_list ?s0) \<le> nat tsz" and h0: "ts_heap ?s0 = calculate_fitness h c f"
    by auto
  from assms(2) show ?thesis
  proof
    assume "tabu_search h c f tsz n nsize rs = Inr (r, h', rs')"
    with False obtain sn where
      lp: "tabu_loop (nat n) f (nat tsz) (nat nsize) ?s0 = Inr sn" and h': "h' = ts_heap sn"
      by (auto simp: tabu_search_def split: sum.splits)
    from tabu_loop_Inr [OF lp w0] h' h0 show ?thesis by simp
  next
    assume "tabu_search h c f tsz n nsize rs = Inl (e, h')"
    with False have lp: "tabu_loop (nat n) f (nat tsz) (nat nsize) ?s0 = Inl (e, h')"
      by (auto simp: tabu_search_def split: sum.splits)
    from tabu_loop_Inl [OF lp w0(1,2)] h0 show ?thesis by simp
  qed
qed

text \<open>
  Claim C9. When \<^verbatim>\<open>hill_climb\<close>, \<^verbatim>\<open>simulated_annealing\<close> or \<^verbatim>\<open>tabu_search\<close> ends, by
  return or by an exception, the objects the caller held are as before except that
  the fitness field of the input candidate is the objective value of its chromosome:
  its chromosome and every other candidate are unchanged.
\<close>

theorem local_search_mutates_input_fitness_only:
  assumes "candidate < length h"
  shows "(hill_climb h candidate f max_iterations rs = Inr (r1, h1, rs1)
            \<or> hill_climb h candidate f max_iterations rs = Inl (e1, h1) \<longrightarrow>
          take (length h) h1
            = h[candidate := (h ! candidate)\<lparr>fitness := f (chromosome (h ! candidate))\<rparr>])
       \<and> (simulated_annealing h candidate f initial_temperature cooling_rate
              min_temperature rs = Some (Inr (r2, h2, rs2))
            \<or> simulated_annealing h candidate f initial_temperature cooling_rate
              min_temperature rs = Some (Inl (e2, h2)) \<longrightarrow>
          take (length h) h2
            = h[candidate := (h ! candidate)\<lparr>fitness := f (chromosome (h ! candidate))\<rparr>])
       \<and> (tabu_search h candidate f tabu_list_size max_iterations neighborhood_size rs
              = Inr (r3, h3, rs3)
            \<or> tabu_search h candidate f tabu_list_size max_iterations neighborhood_size rs
              = Inl (e3, h3) \<longrightarrow>
          take (length h) h3
            = h[candidate := (h ! candidate)\<lparr>fitness := f (chromosome (h ! candidate))\<rparr>])"
  using prefix_take [OF hill_climb_store [OF assms]]
    prefix_take [OF simulated_annealing_store [OF assms]]
    prefix_take [OF tabu_search_store [OF assms]]
  by (simp add: calculate_fitness_def)

theorem local_search_mutates_input_fitness_only_witness:
  "(0::nat) < length [\<lparr>chromosome = [0], fitness = 7\<rparr>, \<lparr>chromosome = [5], fitness = 3\<rparr>]
   \<and> hill_climb [\<lparr>chromosome = [0], fitness = 7\<rparr>, \<lparr>chromosome = [5], fitness = 3\<rparr>] 0
        sum_list 1 (0 ## 1 / 2 ## sconst 0)
      = Inr (2, [\<lparr>chromosome = [0], fitness = 0\<rparr>, \<lparr>chromosome = [5], fitness = 3\<rparr>,
                 \<lparr>chromosome = [50], fitness = 50\<rparr>], sconst 0)
   \<and> simulated_annealing [\<lparr>chromosome = [0], fitness = 7\<rparr>, \<lparr>chromosome = [5], fitness = 3\<rparr>]
        0 sum_list 1 (1 / 2) (1 / 2) (0 ## 1 / 2 ## sconst 0)
      = Some (Inr (2, [\<lparr>chromosome = [0], fitness = 0\<rparr>, \<lparr>chromosome = [5], fitness = 3\<rparr>,
                       \<lparr>chromosome = [50], fitness = 50\<rparr>], sconst 0))
   \<and> tabu_search [\<lparr>chromosome = [0], fitness = 7\<rparr>, \<lparr>chromosome = [5], fitness = 3\<rparr>] 0
        sum_list 1 1 1 (0 ## 1 / 2 ## sconst 0)
      = Inr (2, [\<lparr>chromosome = [0], fitness = 0\<rparr>, \<lparr>chromosome = [5], fitness = 3\<rparr>,
                 \<lparr>chromosome = [50], fitness = 50\<rparr>], sconst 0)
   \<and> take (length [\<lparr>chromosome = [0], fitness = 7\<rparr>, \<lparr>chromosome = [5], fitness = 3\<rparr>])
        [\<lparr>chromosome = [0], fitness = 0\<rparr>, \<lparr>chromosome = [5], fitness = 3\<rparr>,
         \<lparr>chromosome = [50], fitness = 50\<rparr>]
      = [\<lparr>chromosome = [0], fitness = 0\<rparr>, \<lparr>chromosome = [5], fitness = 3\<rparr>]"
proof -
  let ?h = "[\<lparr>chromosome = [0], fitness = 7\<rparr>, \<lparr>chromosome = [5], fitness = 3\<rparr>]"
  let ?h' = "[\<lparr>chromosome = [0], fitness = 0\<rparr>, \<lparr>chromosome = [5], fitness = 3\<rparr>,
              \<lparr>chromosome = [50], fitness = 50\<rparr>]"
  have a: "(0::nat) < length ?h" by simp
  have b: "hill_climb ?h 0 sum_list 1 (0 ## 1 / 2 ## sconst 0) = Inr (2, ?h', sconst 0)"
    by (simp add: hill_climb_def hill_climb_step_def sa_eval)
  have c: "simulated_annealing ?h 0 sum_list 1 (1 / 2) (1 / 2) (0 ## 1 / 2 ## sconst 0)
             = Some (Inr (2, ?h', sconst 0))"
    apply (simp add: simulated_annealing_def sa_init_def calculate_fitness_def)
    apply (subst sa_loop.simps, simp add: sa_eval)
    apply (subst sa_loop.simps, simp add: sa_eval)
    done
  have d: "tabu_search ?h 0 sum_list 1 1 1 (0 ## 1 / 2 ## sconst 0) = Inr (2, ?h', sconst 0)"
    by (simp add: tabu_search_def ts_eval)
  from local_search_mutates_input_fitness_only [OF a, of sum_list 1 "0 ## 1 / 2 ## sconst 0"
      2 ?h' "sconst 0" _ 1 "1 / 2" "1 / 2" 2 ?h' "sconst 0" _ 1 1 2 ?h' "sconst 0"]
  show ?thesis using a b c d by simp
qed

section \<open>Selection operators\<close>

lemma roulette_resample_differs:
  assumes "roulette_resample h generation total_fitness parent1 parent2 rs = Some y"
  shows "fst y \<noteq> parent1"
proof (induct rule: roulette_resample.raw_induct [OF _ assms])
  case (1 loop h generation total_fitness parent1 parent2 rs y)
  show ?case
  proof (cases "parent2 = parent1")
    case True
    with 1(2) obtain p' rs'' where "loop h generation total_fitness parent1 p' rs'' = Some y"
      by (auto split: prod.splits)
    from 1(1) [OF this] show ?thesis .
  next
    case False
    with 1(2) show ?thesis by auto
  qed
qed

lemma truncation_resample_differs:
  assumes "truncation_resample truncated_generation parent1 parent2 rs = Some (Inr (p, rs'))"
  shows "p \<noteq> parent1"
proof -
  have "\<forall>p rs'. y = Inr (p, rs') \<longrightarrow> p \<noteq> parent1"
    if "truncation_resample truncated_generation parent1 parent2 rs = Some y" for y
  proof (induct rule: truncation_resample.raw_induct [OF _ that])
    case (1 loop truncated_generation parent1 parent2 rs y)
    show ?case
    proof (cases "parent2 = parent1")
      case False
      with 1(2) show ?thesis by auto
    next
      case True
      show ?thesis
      proof (cases "random_choice truncated_generation rs")
        case (Inl e)
        with True 1(2) show ?thesis by auto
      next
        case (Inr a)
        with True 1(2) obtain p' rs'' where
          "loop truncated_generation parent1 p' rs'' = Some y"
          by (cases a) auto
        from 1(1) [OF this] show ?thesis .
      qed
    qed
  qed
  with assms show ?thesis by blast
qed

lemmas selection_eval = total_fitness_of_def sorted_by_def sorted_by_reverse_def py_int_def
  slice_to_def random_uniform_def random_random_def random_choice_def random_sample_def
  randbelow_def frac_def Let_def

text \<open>
  Claim C1, as amended. Roulette-wheel and truncation selection, when they return,
  return two parents that differ under \<^verbatim>\<open>==\<close>, which on candidates is object identity:
  the two may be different objects with the same chromosome. Rank-based, tournament and
  stochastic universal sampling selection compare nothing and, like elitism, may return
  one candidate twice.
\<close>

theorem selection_distinct_parents:
  "(roulette_wheel_selection h generation rs = Some ((parent1, parent2), rs')
      \<longrightarrow> parent1 \<noteq> parent2)
   \<and> (truncation_selection h2 generation2 truncation_percentage rs2
        = Some (Inr ((parent1', parent2'), rs2')) \<longrightarrow> parent1' \<noteq> parent2')
   \<and> (\<exists>h generation rs p1 p2 rs'.
         roulette_wheel_selection h generation rs = Some ((Some p1, Some p2), rs')
         \<and> chromosome (h ! p1) = chromosome (h ! p2))
   \<and> (\<exists>h generation rs p rs'. rank_based_selection h generation rs = ((Some p, Some p), rs'))
   \<and> (\<exists>h generation k rs p rs'. tournament_selection h generation k rs = Inr ((p, p), rs'))
   \<and> (\<exists>h generation n rs p rs'.
         stochastic_universal_sampling h generation n rs = Inr ((p, p), rs'))
   \<and> (\<exists>h generation e rs p rs'. elitism_selection h generation e rs = Inr ((p, p), rs'))"
proof (intro conjI impI)
  assume "roulette_wheel_selection h generation rs = Some ((parent1, parent2), rs')"
  then obtain p2 rs2 where
    "roulette_resample h generation (total_fitness_of h generation) parent1 p2 rs2
       = Some (parent2, rs')"
    by (auto simp: roulette_wheel_selection_def Let_def split: prod.splits option.splits)
  from roulette_resample_differs [OF this] show "parent1 \<noteq> parent2" by simp
next
  assume "truncation_selection h2 generation2 truncation_percentage rs2
        = Some (Inr ((parent1', parent2'), rs2'))"
  then obtain tg p2 rs3 where
    "truncation_resample tg parent1' p2 rs3 = Some (Inr (parent2', rs2'))"
    by (auto simp: truncation_selection_def Let_def split: sum.splits option.splits)
  from truncation_resample_differs [OF this] show "parent1' \<noteq> parent2'" by simp
next
  have "roulette_wheel_selection
          [\<lparr>chromosome = [7], fitness = 1\<rparr>, \<lparr>chromosome = [7], fitness = 1\<rparr>] [0, 1]
          (0 ## 3 / 4 ## sconst 0) = Some ((Some 0, Some 1), sconst 0)"
    by (simp add: roulette_wheel_selection_def roulette_select_one_def selection_eval
          roulette_resample.simps)
  then show "\<exists>h generation rs p1 p2 rs'.
         roulette_wheel_selection h generation rs = Some ((Some p1, Some p2), rs')
         \<and> chromosome (h ! p1) = chromosome (h ! p2)"
    by (intro exI [of _ "[\<lparr>chromosome = [7], fitness = 1\<rparr>, \<lparr>chromosome = [7], fitness = 1\<rparr>]"]
          exI [of _ "[0, 1]"] exI [of _ "0 ## 3 / 4 ## sconst 0"] exI [of _ 0] exI [of _ 1]
          exI [of _ "sconst 0"]) simp
next
  have "rank_based_selection [\<lparr>chromosome = [1], fitness = 1\<rparr>] [0] (sconst 0)
          = ((Some 0, Some 0), sconst 0)"
    by (simp add: rank_based_selection_def rank_select_one_def selection_eval)
  then show "\<exists>h generation rs p rs'. rank_based_selection h generation rs = ((Some p, Some p), rs')"
    by blast
next
  have "tournament_selection [\<lparr>chromosome = [1], fitness = 1\<rparr>] [0] 1 (sconst 0)
          = Inr ((0, 0), sconst 0)"
    by (simp add: tournament_selection_def tournament_select_one_def py_max_def selection_eval)
  then show "\<exists>h generation k rs p rs'. tournament_selection h generation k rs = Inr ((p, p), rs')"
    by blast
next
  have "stochastic_universal_sampling [\<lparr>chromosome = [1], fitness = 1\<rparr>] [0] 2 (sconst 0)
          = Inr ((0, 0), sconst 0)"
    by (simp add: stochastic_universal_sampling_def selection_eval sus_collect.simps)
  then show "\<exists>h generation n rs p rs'.
         stochastic_universal_sampling h generation n rs = Inr ((p, p), rs')"
    by blast
next
  have "elitism_selection [\<lparr>chromosome = [1], fitness = 1\<rparr>] [0] (1 / 10) (sconst 0)
          = Inr ((0, 0), sconst 0)"
    by (simp add: elitism_selection_def selection_eval)
  then show "\<exists>h generation e rs p rs'. elitism_selection h generation e rs = Inr ((p, p), rs')"
    by blast
qed

theorem selection_distinct_parents_witness:
  "roulette_wheel_selection
     [\<lparr>chromosome = [7], fitness = 1\<rparr>, \<lparr>chromosome = [8], fitness = 1\<rparr>] [0, 1]
     (0 ## 0 ## 3 / 4 ## sconst 0) = Some ((Some 0, Some 1), sconst 0)
   \<and> truncation_selection
       [\<lparr>chromosome = [1], fitness = 1\<rparr>, \<lparr>chromosome = [2], fitness = 2\<rparr>,
        \<lparr>chromosome = [3], fitness = 3\<rparr>, \<lparr>chromosome = [4], fitness = 4\<rparr>] [0, 1, 2, 3]
       (1 / 2) (0 ## 0 ## 1 / 2 ## sconst 0) = Some (Inr ((3, 2), sconst 0))
   \<and> Some (0::nat) \<noteq> Some 1 \<and> (3::nat) \<noteq> 2"
proof -
  have a: "roulette_wheel_selection
     [\<lparr>chromosome = [7], fitness = 1\<rparr>, \<lparr>chromosome = [8], fitness = 1\<rparr>] [0, 1]
     (0 ## 0 ## 3 / 4 ## sconst 0) = Some ((Some 0, Some 1), sconst 0)"
    apply (simp add: roulette_wheel_selection_def roulette_select_one_def selection_eval)
    apply (subst roulette_resample.simps, simp add: roulette_select_one_def selection_eval)
    apply (subst roulette_resample.simps, simp)
    done
  have b: "truncation_selection
       [\<lparr>chromosome = [1], fitness = 1\<rparr>, \<lparr>chromosome = [2], fitness = 2\<rparr>,
        \<lparr>chromosome = [3], fitness = 3\<rparr>, \<lparr>chromosome = [4], fitness = 4\<rparr>] [0, 1, 2, 3]
       (1 / 2) (0 ## 0 ## 1 / 2 ## sconst 0) = Some (Inr ((3, 2), sconst 0))"
    apply (simp add: truncation_selection_def selection_eval)
    apply (subst truncation_resample.simps, simp add: selection_eval)
    apply (subst truncation_resample.simps, simp)
    done
  from selection_distinct_parents
    [of "[\<lparr>chromosome = [7], fitness = 1\<rparr>, \<lparr>chromosome = [8], fitness = 1\<rparr>]" "[0, 1]"
        "0 ## 0 ## 3 / 4 ## sconst 0" "Some 0" "Some 1" "sconst 0"
        "[\<lparr>chromosome = [1], fitness = 1\<rparr>, \<lparr>chromosome = [2], fitness = 2\<rparr>,
          \<lparr>chromosome = [3], fitness = 3\<rparr>, \<lparr>chromosome = [4], fitness = 4\<rparr>]"
        "[0, 1, 2, 3]" "1 / 2" "0 ## 0 ## 1 / 2 ## sconst 0" 3 2 "sconst 0"]
  show ?thesis using a b by simp
qed

text \<open>
  Rank-based selection on two candidates: both draws pick the candidate of rank 1, and
  the same object is returned twice.
\<close>

theorem selection_distinct_parents_counterexample:
  "rank_based_selection
     [\<lparr>chromosome = [1], fitness = 1\<rparr>, \<lparr>chromosome = [2], fitness = 2\<rparr>] [0, 1] (sconst 0)
   = ((Some 0, Some 0), sconst 0)"
  by (simp add: rank_based_selection_def rank_select_one_def selection_eval)

text \<open>A pick below the sum of the remaining ranks selects a candidate.\<close>

lemma rank_walk_Some:
  "current \<le> pick \<Longrightarrow> pick < current + real (sum_list [i + 1 ..< i + length xs + 1]) \<Longrightarrow>
     \<exists>c\<in>set xs. rank_walk pick current i xs = Some c"
proof (induction xs arbitrary: current i)
  case Nil
  then show ?case by simp
next
  case (Cons x xs)
  show ?case
  proof (cases "current + real (i + 1) > pick")
    case True
    then show ?thesis by simp
  next
    case False
    have eq: "[i + 1 ..< i + length (x # xs) + 1]
        = (i + 1) # [(i + 1) + 1 ..< (i + 1) + length xs + 1]"
      using upt_conv_Cons [of "i + 1" "i + length (x # xs) + 1"] by (simp del: upt_Suc)
    from Cons.prems(2)
    have "pick < current + real (sum_list ((i + 1) # [(i + 1) + 1 ..< (i + 1) + length xs + 1]))"
      by (simp only: eq)
    then have "pick < (current + real (i + 1))
                   + real (sum_list [(i + 1) + 1 ..< (i + 1) + length xs + 1])"
      by (simp only: sum_list.Cons of_nat_add add.assoc)
    moreover have "current + real (i + 1) \<le> pick" using False by simp
    ultimately obtain c where
      "c \<in> set xs" "rank_walk pick (current + real (i + 1)) (i + 1) xs = Some c"
      using Cons.IH [of "current + real (i + 1)" "i + 1"] by blast
    with False show ?thesis by (simp del: upt_Suc)
  qed
qed

lemma rank_select_one_Some:
  assumes "ranked \<noteq> []"
  shows "\<exists>c\<in>set ranked.
           rank_select_one ranked (sum_list [1 ..< length ranked + 1]) rs = (Some c, stl rs)"
proof -
  let ?total = "real (sum_list [1 ..< length ranked + 1])"
  have pos: "0 < ?total"
    using assms by (cases ranked) simp_all
  have "0 + (?total - 0) * frac (shd rs) < ?total"
    using pos frac_lt_1 [of "shd rs"] by simp
  then have "0 + (?total - 0) * frac (shd rs)
               < 0 + real (sum_list [0 + 1 ..< 0 + length ranked + 1])" by simp
  moreover have "0 \<le> 0 + (?total - 0) * frac (shd rs)"
    using pos frac_ge_0 [of "shd rs"] by simp
  ultimately show ?thesis using rank_walk_Some [of 0 _ 0 ranked]
    by (auto simp: rank_select_one_def random_uniform_def random_random_def)
qed

text \<open>With total fitness zero every pick is zero and every selection gives the same result.\<close>

lemma roulette_resample_diverges:
  assumes "roulette_resample h generation total_fitness parent1 parent2 rs = Some y"
  shows "\<not> (total_fitness = 0 \<and> parent1 = roulette_walk h 0 0 generation \<and> parent2 = parent1)"
proof (induct rule: roulette_resample.raw_induct [OF _ assms])
  case (1 loop h generation total_fitness parent1 parent2 rs y)
  show ?case
  proof
    assume a: "total_fitness = 0 \<and> parent1 = roulette_walk h 0 0 generation \<and> parent2 = parent1"
    with 1(2) have "loop h generation total_fitness parent1 (roulette_walk h 0 0 generation)
        (stl rs) = Some y"
      by (simp add: roulette_select_one_def random_uniform_def random_random_def)
    from 1(1) [OF this] a show False by simp
  qed
qed

lemma sus_walk_all_zero:
  "\<forall>c\<in>set generation. fitness (h ! c) = 0 \<Longrightarrow>
     sus_walk h num_parents 0 0 generation ([], 0) = ([], 0)"
  by (induction generation) (simp_all add: sus_collect.simps)

text \<open>
  Claim C5, as amended. No operator checks the total fitness. With total fitness zero,
  roulette-wheel selection never returns and raises nothing: every pick is zero, both
  selections give the same result and the re-sampling loop does not end. Rank-based
  selection looks at the ranks alone: on a population that is not empty it returns
  two of its candidates whatever the fitness values are. Stochastic universal sampling
  raises only where it reads a parent that was not collected: IndexError when every
  fitness is zero.
\<close>

theorem degenerate_total_fitness_not_rejected:
  "(total_fitness_of h generation = 0 \<longrightarrow> roulette_wheel_selection h generation rs = None)
   \<and> (generation \<noteq> [] \<longrightarrow>
        (\<exists>c1\<in>set generation. \<exists>c2\<in>set generation.
           rank_based_selection h generation rs = ((Some c1, Some c2), stl (stl rs))))
   \<and> ((\<forall>c\<in>set generation. fitness (h ! c) = 0) \<and> num_parents \<noteq> 0 \<longrightarrow>
        stochastic_universal_sampling h generation num_parents rs = Inl IndexError)"
proof (intro conjI impI)
  assume z: "total_fitness_of h generation = 0"
  show "roulette_wheel_selection h generation rs = None"
  proof (rule ccontr)
    assume "roulette_wheel_selection h generation rs \<noteq> None"
    then obtain y where
      "roulette_resample h generation 0 (roulette_walk h 0 0 generation)
         (roulette_walk h 0 0 generation) (stl (stl rs)) = Some y"
      using z
      by (auto simp: roulette_wheel_selection_def roulette_select_one_def random_uniform_def
            random_random_def split: option.splits)
    from roulette_resample_diverges [OF this] show False by simp
  qed
next
  assume ne: "generation \<noteq> []"
  let ?ranked = "sorted_by (\<lambda>c. fitness (h ! c)) generation"
  have "length ?ranked = length generation" by (simp add: sorted_by_def)
  with ne have "length ?ranked \<noteq> 0" by simp
  then have r1: "?ranked \<noteq> []" by (simp only: length_0_conv not_False_eq_True)
  have r2: "set ?ranked = set generation" by (simp add: sorted_by_def)
  note r = r1 r2
  from rank_select_one_Some [OF r(1), of rs] obtain c1 where
    c1: "c1 \<in> set ?ranked"
    "rank_select_one ?ranked (sum_list [1 ..< length ?ranked + 1]) rs = (Some c1, stl rs)"
    by blast
  from rank_select_one_Some [OF r(1), of "stl rs"] obtain c2 where
    c2: "c2 \<in> set ?ranked"
    "rank_select_one ?ranked (sum_list [1 ..< length ?ranked + 1]) (stl rs)
       = (Some c2, stl (stl rs))"
    by blast
  have "rank_based_selection h generation rs = ((Some c1, Some c2), stl (stl rs))"
    using c1(2) c2(2) by (simp add: rank_based_selection_def Let_def)
  with c1(1) c2(1) r(2)
  show "\<exists>c1\<in>set generation. \<exists>c2\<in>set generation.
           rank_based_selection h generation rs = ((Some c1, Some c2), stl (stl rs))"
    by blast
next
  assume a: "(\<forall>c\<in>set generation. fitness (h ! c) = 0) \<and> num_parents \<noteq> 0"
  then have "total_fitness_of h generation = 0"
    by (induction generation) (simp_all add: total_fitness_of_def)
  with a sus_walk_all_zero [of generation h num_parents]
  show "stochastic_universal_sampling h generation num_parents rs = Inl IndexError"
    by (simp add: stochastic_universal_sampling_def random_uniform_def random_random_def)
qed

theorem degenerate_total_fitness_not_rejected_witness:
  "total_fitness_of [\<lparr>chromosome = [1], fitness = 0\<rparr>, \<lparr>chromosome = [2], fitness = 0\<rparr>] [0, 1] = 0
   \<and> [0, 1] \<noteq> ([]::nat list)
   \<and> fitness ([\<lparr>chromosome = [1], fitness = 0\<rparr>, \<lparr>chromosome = [2], fitness = 0\<rparr>] ! 0) = 0
   \<and> fitness ([\<lparr>chromosome = [1], fitness = 0\<rparr>, \<lparr>chromosome = [2], fitness = 0\<rparr>] ! 1) = 0
   \<and> (2::int) \<noteq> 0
   \<and> roulette_wheel_selection
        [\<lparr>chromosome = [1], fitness = 0\<rparr>, \<lparr>chromosome = [2], fitness = 0\<rparr>] [0, 1]
        (sconst (1 / 2)) = None
   \<and> stochastic_universal_sampling
        [\<lparr>chromosome = [1], fitness = 0\<rparr>, \<lparr>chromosome = [2], fitness = 0\<rparr>] [0, 1] 2
        (sconst (1 / 2)) = Inl IndexError"
proof -
  let ?h = "[\<lparr>chromosome = [1], fitness = 0\<rparr>, \<lparr>chromosome = [2], fitness = 0\<rparr>]"
  have a: "total_fitness_of ?h [0, 1] = 0" by (simp add: total_fitness_of_def)
  have b: "\<forall>c\<in>set [0, 1]. fitness (?h ! c) = 0" by simp
  from degenerate_total_fitness_not_rejected [of ?h "[0, 1]" "sconst (1 / 2)" 2] a b
  show ?thesis by simp
qed

text \<open>
  A population of total fitness zero: rank-based selection returns two parents and
  raises nothing.
\<close>

theorem degenerate_total_fitness_not_rejected_counterexample:
  "total_fitness_of [\<lparr>chromosome = [1], fitness = 0\<rparr>, \<lparr>chromosome = [2], fitness = 0\<rparr>] [0, 1] = 0
   \<and> rank_based_selection
        [\<lparr>chromosome = [1], fitness = 0\<rparr>, \<lparr>chromosome = [2], fitness = 0\<rparr>] [0, 1]
        (0 ## 1 / 2 ## sconst 0) = ((Some 0, Some 1), sconst 0)"
  by (simp add: rank_based_selection_def rank_select_one_def selection_eval)

subsection \<open>The pointer walk in exact arithmetic\<close>

text \<open>
  In exact arithmetic the current pointer is the start point plus one spacing per
  collected parent, the inner loop leaves a candidate when enough parents are collected
  or the pointer has passed the cumulative fitness, and a positive total fitness is
  above every pointer: the walk collects exactly \<open>num_parents\<close> parents. Collecting
  fewer is an effect of rounding alone.
\<close>

lemma sus_collect_inv:
  "snd acc = start + real (length (fst acc)) * spacing \<Longrightarrow>
   int (length (fst acc)) \<le> num_parents \<Longrightarrow>
   sus_collect num_parents spacing cumulative candidate acc = (ps, cp) \<Longrightarrow>
     cp = start + real (length ps) * spacing \<and> int (length ps) \<le> num_parents \<and>
     (int (length ps) = num_parents \<or> \<not> cumulative > cp) \<and>
     set ps \<subseteq> set (fst acc) \<union> {candidate}"
proof (induction num_parents spacing cumulative candidate acc rule: sus_collect.induct)
  case (1 num_parents spacing cumulative candidate parents current_point)
  show ?case
  proof (cases "cumulative > current_point \<and> int (length parents) < num_parents")
    case True
    have a: "snd (parents @ [candidate], current_point + spacing)
        = start + real (length (fst (parents @ [candidate], current_point + spacing))) * spacing"
      using "1.prems"(1) by (simp add: algebra_simps)
    have b: "int (length (fst (parents @ [candidate], current_point + spacing))) \<le> num_parents"
      using True by simp
    have c: "sus_collect num_parents spacing cumulative candidate
        (parents @ [candidate], current_point + spacing) = (ps, cp)"
      using "1.prems"(3) True by (subst (asm) sus_collect.simps) simp
    from "1.IH" [OF True a b c] show ?thesis by auto
  next
    case False
    then have "(ps, cp) = (parents, current_point)"
      using "1.prems"(3) by (subst (asm) sus_collect.simps) auto
    with False "1.prems"(1,2) show ?thesis by auto
  qed
qed

lemma sus_walk_inv:
  "generation \<noteq> [] \<Longrightarrow>
   current_point = start + real (length parents) * spacing \<Longrightarrow>
   int (length parents) \<le> num_parents \<Longrightarrow>
   sus_walk h num_parents spacing cumulative generation (parents, current_point) = (ps, cp) \<Longrightarrow>
     cp = start + real (length ps) * spacing \<and> int (length ps) \<le> num_parents \<and>
     (int (length ps) = num_parents
        \<or> \<not> cumulative + total_fitness_of h generation > cp) \<and>
     set ps \<subseteq> set parents \<union> set generation"
proof (induction generation arbitrary: cumulative parents current_point)
  case Nil
  then show ?case by simp
next
  case (Cons c generation)
  obtain ps1 cp1 where
    col: "sus_collect num_parents spacing (cumulative + fitness (h ! c)) c
            (parents, current_point) = (ps1, cp1)"
    by (cases "sus_collect num_parents spacing (cumulative + fitness (h ! c)) c
            (parents, current_point)") auto
  from sus_collect_inv [of "(parents, current_point)" start spacing num_parents, OF _ _ col]
    Cons.prems(2,3)
  have i1: "cp1 = start + real (length ps1) * spacing" "int (length ps1) \<le> num_parents"
    "int (length ps1) = num_parents \<or> \<not> cumulative + fitness (h ! c) > cp1"
    "set ps1 \<subseteq> set parents \<union> {c}" by auto
  from Cons.prems(4) col
  have w: "sus_walk h num_parents spacing (cumulative + fitness (h ! c)) generation (ps1, cp1)
             = (ps, cp)" by simp
  show ?case
  proof (cases "generation = []")
    case True
    with w have "ps = ps1" "cp = cp1" by auto
    with i1 True show ?thesis by (auto simp: total_fitness_of_def)
  next
    case False
    from Cons.IH [OF False i1(1,2) w] i1(4) show ?thesis
      by (auto simp: total_fitness_of_def add.assoc)
  qed
qed

lemma sus_collects_all:
  assumes pos: "0 < total_fitness_of h generation" and n: "1 \<le> num_parents"
    and w: "sus_walk h num_parents (total_fitness_of h generation / of_int num_parents) 0
              generation
              ([], total_fitness_of h generation / of_int num_parents * frac (shd rs))
            = (ps, cp)"
  shows "int (length ps) = num_parents \<and> set ps \<subseteq> set generation"
proof -
  let ?total = "total_fitness_of h generation"
  let ?sp = "?total / of_int num_parents"
  let ?start = "?sp * frac (shd rs)"
  have sp: "0 < ?sp" using pos n by simp
  have ne: "generation \<noteq> []" using pos by (auto simp: total_fitness_of_def)
  have "?start = ?start + real (length ([]::ref list)) * ?sp" by simp
  from sus_walk_inv [OF ne this _ w]
  have i: "cp = ?start + real (length ps) * ?sp" "int (length ps) \<le> num_parents"
    "int (length ps) = num_parents \<or> \<not> 0 + ?total > cp" "set ps \<subseteq> set generation"
    using n by auto
  have "int (length ps) = num_parents"
  proof (rule ccontr)
    assume neq: "int (length ps) \<noteq> num_parents"
    with i(2) have "int (length ps) + 1 \<le> num_parents" by simp
    then have "real (length ps) + 1 \<le> real_of_int num_parents" by linarith
    then have A: "(real (length ps) + 1) * ?sp \<le> real_of_int num_parents * ?sp"
      using sp by (simp only: mult_le_cancel_right_pos)
    have B: "real_of_int num_parents * ?sp = ?total" using n by simp
    have C: "?start < ?sp"
      using mult_strict_left_mono [OF frac_lt_1 [of "shd rs"] sp] by simp
    have D: "(real (length ps) + 1) * ?sp = real (length ps) * ?sp + ?sp"
      by (simp only: distrib_right mult_1)
    from A B C D i(1) have "cp < ?total" by linarith
    with neq i(3) show False by simp
  qed
  with i(4) show ?thesis by simp
qed


text \<open>
  The function returns \<^verbatim>\<open>parents[0], parents[1]\<close> whatever \<open>num_parents\<close> is: with
  \<open>num_parents = 1\<close> one parent is collected and \<^verbatim>\<open>parents[1]\<close> raises, with
  \<open>num_parents = 3\<close> three are collected and two returned.
\<close>

lemma sus_other_num_parents:
  "stochastic_universal_sampling [\<lparr>chromosome = [1], fitness = 1\<rparr>] [0] 1 (sconst 0)
     = Inl IndexError
   \<and> sus_walk [\<lparr>chromosome = [1], fitness = 1\<rparr>, \<lparr>chromosome = [2], fitness = 1\<rparr>,
               \<lparr>chromosome = [3], fitness = 1\<rparr>] 3 1 0 [0, 1, 2] ([], 0) = ([0, 1, 2], 3)
   \<and> stochastic_universal_sampling
        [\<lparr>chromosome = [1], fitness = 1\<rparr>, \<lparr>chromosome = [2], fitness = 1\<rparr>,
         \<lparr>chromosome = [3], fitness = 1\<rparr>] [0, 1, 2] 3 (sconst 0) = Inr ((0, 1), sconst 0)"
  by (simp add: stochastic_universal_sampling_def selection_eval sus_collect.simps)

subsection \<open>Rounding to binary64\<close>

text \<open>The rounding of a number of the binade \<open>[2\<^sup>k, 2\<^sup>k\<^sup>+\<^sup>1)\<close>.\<close>

lemma double_round_binade:
  assumes "2 ^ k \<le> x" and "x < 2 ^ (k + 1)"
  shows "double_round x = of_int (round_half_even (x * 2 ^ 52 / 2 ^ k)) * 2 ^ k / 2 ^ 52"
proof -
  have pos: "0 < x" using assms(1) by (rule less_le_trans [rotated]) simp
  have "2 powr real_of_int (int k) \<le> x \<and> x < 2 powr real_of_int (int k + 1)"
    using assms by (simp add: powr_realpow powr_add)
  with pos have e: "\<lfloor>log 2 x\<rfloor> = int k" by (simp add: floor_log_eq_powr_iff)
  have ulp: "2 powr (real_of_int (int k) - 52) = 2 ^ k / 2 ^ 52"
    by (simp add: powr_diff powr_realpow)
  have "\<bar>x\<bar> = x" using pos by simp
  then have u: "2 powr (real_of_int \<lfloor>log 2 \<bar>x\<bar>\<rfloor> - 52) = 2 ^ k / 2 ^ 52"
    using e ulp by (simp only:)
  have "double_round x
      = of_int (round_half_even (x / (2 powr (real_of_int \<lfloor>log 2 \<bar>x\<bar>\<rfloor> - 52))))
          * (2 powr (real_of_int \<lfloor>log 2 \<bar>x\<bar>\<rfloor> - 52))"
    using pos by (simp add: double_round_def Let_def)
  also have "\<dots> = of_int (round_half_even (x / (2 ^ k / 2 ^ 52))) * (2 ^ k / 2 ^ 52)"
    by (simp only: u)
  also have "\<dots> = of_int (round_half_even (x * 2 ^ 52 / 2 ^ k)) * 2 ^ k / 2 ^ 52"
    by (simp only: divide_divide_eq_right times_divide_eq_right)
  finally show ?thesis .
qed

lemma double_round_small_integers:
  "double_round 1 = 1" "double_round 2 = 2" "double_round 3 = 3" "double_round 4 = 4"
  using double_round_binade [of 0 1] double_round_binade [of 1 2]
    double_round_binade [of 1 3] double_round_binade [of 2 4]
  by (simp_all add: round_half_even_def Let_def)

lemma double_round_below_two: "double_round (2 - 1 / 2 ^ 52) = 2 - 1 / 2 ^ 52"
  using double_round_binade [of 0 "2 - 1 / 2 ^ 52"]
  by (simp add: round_half_even_def Let_def)

text \<open>The tie between \<open>4 - 2\<^sup>-\<^sup>5\<^sup>1\<close> and \<open>4\<close> goes to the even mantissa.\<close>

lemma double_round_below_four: "double_round (4 - 1 / 2 ^ 52) = 4"
  using double_round_binade [of 1 "4 - 1 / 2 ^ 52"]
  by (simp add: round_half_even_def Let_def)

text \<open>
  Claim C6. \<^verbatim>\<open>stochastic_universal_sampling\<close> is to return two parents (its docstring:
  a tuple of two selected parents), for four candidates of fitness 1 and
  \<open>num_parents = 2\<close> at every start offset. In the code's binary64 arithmetic it does not:
  at \<^verbatim>\<open>random.random()\<close> \<open>= 1 - 2\<^sup>-\<^sup>5\<^sup>3\<close> the start point is \<open>2 - 2\<^sup>-\<^sup>5\<^sup>2\<close>, the second
  pointer \<open>2 - 2\<^sup>-\<^sup>5\<^sup>2 + 2\<close> is rounded to \<open>4\<close>, which the cumulative fitness never
  exceeds, one parent is collected and \<^verbatim>\<open>parents[1]\<close> raises IndexError.
\<close>

theorem sus_under_collects_in_binary64:
  "random_uniform_double 0 2 (sconst (1 - 1 / 2 ^ 53)) = (2 - 1 / 2 ^ 52, sconst (1 - 1 / 2 ^ 53))
   \<and> sus_walk_double
        [\<lparr>chromosome = [1], fitness = 1\<rparr>, \<lparr>chromosome = [2], fitness = 1\<rparr>,
         \<lparr>chromosome = [3], fitness = 1\<rparr>, \<lparr>chromosome = [4], fitness = 1\<rparr>]
        2 2 0 [0, 1, 2, 3] ([], 2 - 1 / 2 ^ 52) = ([1], 4)
   \<and> stochastic_universal_sampling_double
        [\<lparr>chromosome = [1], fitness = 1\<rparr>, \<lparr>chromosome = [2], fitness = 1\<rparr>,
         \<lparr>chromosome = [3], fitness = 1\<rparr>, \<lparr>chromosome = [4], fitness = 1\<rparr>]
        [0, 1, 2, 3] 2 (sconst (1 - 1 / 2 ^ 53)) = Inl IndexError"
proof -
  let ?h = "[\<lparr>chromosome = [1], fitness = 1\<rparr>, \<lparr>chromosome = [2], fitness = 1\<rparr>,
             \<lparr>chromosome = [3], fitness = 1\<rparr>, \<lparr>chromosome = [4], fitness = 1\<rparr>]"
  let ?rs = "sconst (1 - 1 / 2 ^ 53 :: real)"
  have u: "random_random_double ?rs = (1 - 1 / 2 ^ 53, ?rs)"
    by (simp add: random_random_double_def frac_def)
  have a1: "(2::real) - 0 = 2" by simp
  have a2: "(2::real) * (1 - 1 / 2 ^ 53) = 2 - 1 / 2 ^ 52" by simp
  have a3: "(0::real) + (2 - 1 / 2 ^ 52) = 2 - 1 / 2 ^ 52" by simp
  have start: "random_uniform_double 0 2 ?rs = (2 - 1 / 2 ^ 52, ?rs)"
    unfolding random_uniform_double_def u prod.case a1 double_round_small_integers(2) a2
      double_round_below_two a3 ..
  have a4: "(2::real) - 1 / 2 ^ 52 + 2 = 4 - 1 / 2 ^ 52" by simp
  have next_pointer: "double_round (2 - 1 / 2 ^ 52 + 2) = 4"
    unfolding a4 by (rule double_round_below_four)
  have c0: "sus_collect_double 2 2 1 0 ([], 2 - 1 / 2 ^ 52) = ([], 2 - 1 / 2 ^ 52)"
    by (subst sus_collect_double.simps) simp
  have c1b: "sus_collect_double 2 2 2 1 ([1], 4) = ([1], 4)"
    by (subst sus_collect_double.simps) simp
  have c1: "sus_collect_double 2 2 2 1 ([], 2 - 1 / 2 ^ 52) = ([1], 4)"
    using c1b by (subst sus_collect_double.simps, simp only: next_pointer, simp)
  have c2: "sus_collect_double 2 2 3 2 ([1], 4) = ([1], 4)"
    by (subst sus_collect_double.simps) simp
  have c3: "sus_collect_double 2 2 4 3 ([1], 4) = ([1], 4)"
    by (subst sus_collect_double.simps) simp
  have walk: "sus_walk_double ?h 2 2 0 [0, 1, 2, 3] ([], 2 - 1 / 2 ^ 52) = ([1], 4)"
    using c0 c1 c2 c3 by (simp add: double_round_small_integers)
  have total: "total_fitness_double ?h [0, 1, 2, 3] = 4"
    by (simp add: total_fitness_double_def double_round_small_integers)
  have spacing: "double_round (4 / real_of_int 2) = 2"
    by (simp add: double_round_small_integers)
  have "stochastic_universal_sampling_double ?h [0, 1, 2, 3] 2 ?rs = Inl IndexError"
    unfolding stochastic_universal_sampling_double_def total Let_def spacing start prod.case walk
    by simp
  with start walk show ?thesis by (intro conjI)
qed

text \<open>In exact arithmetic the same call returns the second and the fourth candidate.\<close>

lemma sus_exact_at_largest_offset:
  "stochastic_universal_sampling
     [\<lparr>chromosome = [1], fitness = 1\<rparr>, \<lparr>chromosome = [2], fitness = 1\<rparr>,
      \<lparr>chromosome = [3], fitness = 1\<rparr>, \<lparr>chromosome = [4], fitness = 1\<rparr>]
     [0, 1, 2, 3] 2 (sconst (1 - 1 / 2 ^ 53)) = Inr ((1, 3), sconst (1 - 1 / 2 ^ 53))"
  by (simp add: stochastic_universal_sampling_def selection_eval sus_collect.simps)

section \<open>Crossover and mutation operators\<close>

lemma sample_pick_mset:
  "k \<le> length xs \<Longrightarrow> sample_pick xs k rs = (ys, rs') \<Longrightarrow>
     length ys = k \<and> mset ys \<subseteq># mset xs"
proof (induction k arbitrary: xs rs ys rs')
  case 0
  then show ?case by simp
next
  case (Suc k)
  obtain i rs1 where r: "randbelow (length xs) rs = (i, rs1)"
    by (cases "randbelow (length xs) rs") auto
  have "0 < length xs" using Suc.prems(1) by (cases xs) auto
  from randbelow_less [OF this r] have i: "i < length xs" .
  let ?rest = "take i xs @ drop (Suc i) xs"
  obtain zs rs2 where s: "sample_pick ?rest k rs1 = (zs, rs2)"
    by (cases "sample_pick ?rest k rs1") auto
  have "k \<le> length ?rest" using Suc.prems(1) i by simp
  from Suc.IH [OF this s] have z: "length zs = k" "mset zs \<subseteq># mset ?rest" by auto
  have ys: "ys = xs ! i # zs" using Suc.prems(2) r s by simp
  have "xs = take i xs @ xs ! i # drop (Suc i) xs" using i by (rule id_take_nth_drop)
  then have "mset xs = add_mset (xs ! i) (mset ?rest)"
    by (metis mset.simps(2) mset_append union_mset_add_mset_right)
  with z ys show ?case by simp
qed

lemma mset_sub_distinct: "mset ys \<subseteq># mset xs \<Longrightarrow> distinct xs \<Longrightarrow> distinct ys"
proof -
  assume m: "mset ys \<subseteq># mset xs" and d: "distinct xs"
  have "count (mset ys) a = (if a \<in> set ys then 1 else 0)" for a
  proof (cases "a \<in> set ys")
    case True
    then have "1 \<le> count (mset ys) a" by (simp add: Suc_le_eq)
    moreover have "count (mset ys) a \<le> count (mset xs) a"
      using m by (rule mset_subset_eq_count)
    moreover have "count (mset xs) a \<le> 1"
      using d by (simp add: distinct_count_atmost_1)
    ultimately have "count (mset ys) a = 1" by linarith
    with True show ?thesis by simp
  next
    case False
    then show ?thesis by simp
  qed
  then show "distinct ys" by (simp add: distinct_count_atmost_1)
qed

lemma random_shuffle_length: "random_shuffle xs rs = (ys, rs') \<Longrightarrow> length ys = length xs"
  using sample_pick_mset [of "length xs" xs rs ys rs'] by (simp add: random_shuffle_def)

text \<open>A drawn segment \<open>[start, end)\<close> lies inside the chromosome and is not empty.\<close>

lemma random_segment_Inr:
  assumes "random_segment n rs = Inr ((start, end), rs')"
  shows "start < end \<and> end < n"
proof -
  from assms obtain picked where
    s: "sample_pick [0 ..< n] 2 rs = (picked, rs')" and n: "2 \<le> n" and
    so: "sort picked = [start, end]"
    by (auto simp: random_segment_def random_sample_def
          split: if_splits sum.splits prod.splits list.splits)
  from sample_pick_mset [OF _ s] n have m: "mset picked \<subseteq># mset [0 ..< n]" by simp
  have "distinct picked" using m distinct_upt [of 0 n] by (rule mset_sub_distinct)
  then have "distinct (sort picked)" by simp
  then have d: "distinct [start, end]" using so by simp
  have "sorted (sort picked)" by simp
  then have "sorted [start, end]" using so by simp
  with d have lt: "start < end" by auto
  have "set (sort picked) = set picked" by simp
  then have "set [start, end] = set picked" using so by simp
  moreover have "set picked \<subseteq> set [0 ..< n]" using set_mset_mono [OF m] by simp
  ultimately have "end < n" by auto
  with lt show ?thesis by simp
qed

lemma random_segment_returns:
  assumes "2 \<le> n"
  shows "\<exists>start end rs'. random_segment n rs = Inr ((start, end), rs')"
proof -
  obtain picked rs' where s: "sample_pick [0 ..< n] 2 rs = (picked, rs')"
    by (cases "sample_pick [0 ..< n] 2 rs") auto
  from sample_pick_mset [OF _ s] assms have "length picked = 2" by simp
  then have "length (sort picked) = 2" by simp
  then obtain a b where "sort picked = [a, b]"
    by (cases "sort picked"; cases "tl (sort picked)") auto
  with s assms show ?thesis by (simp add: random_segment_def random_sample_def)
qed

lemma return_Candidate_Inr:
  "return_Candidate h res = Inr (r, h', rs') \<Longrightarrow>
     \<exists>ch. res = Inr (ch, rs') \<and> r = length h \<and> h' = h @ [\<lparr>chromosome = ch, fitness = 0\<rparr>]"
  by (auto simp: return_Candidate_def Candidate_init_def split: sum.splits prod.splits)

lemma for_each_gene_length:
  "for_each_gene body genes rs = Inr (ch, rs') \<Longrightarrow> length ch = length genes"
  by (induction genes arbitrary: rs ch) (auto split: sum.splits prod.splits)

lemma length_slice: "b \<le> length xs \<Longrightarrow> length (slice a b xs) = b - a"
  by (auto simp: slice_def)

lemma n_point_segments_length:
  "sorted (prev_point # points) \<Longrightarrow> \<forall>p\<in>set (prev_point # points). p \<le> length c1 \<Longrightarrow>
   length c2 = length c1 \<Longrightarrow>
     length (n_point_segments c1 c2 swap prev_point points) = last (prev_point # points) - prev_point"
proof (induction points arbitrary: prev_point swap)
  case Nil
  then show ?case by simp
next
  case (Cons point points)
  have "length (n_point_segments c1 c2 (\<not> swap) point points) = last (point # points) - point"
    using Cons.prems by (intro Cons.IH) auto
  moreover have "length (slice prev_point point (if swap then c2 else c1)) = point - prev_point"
    using Cons.prems by (auto simp: length_slice)
  moreover have "prev_point \<le> point" "point \<le> last (point # points)"
    using Cons.prems(1) by auto
  ultimately show ?case by simp
qed

lemma multi_point_assign_length:
  "multi_point_assign c indices rs = Inr (ch, rs') \<Longrightarrow> length ch = length c"
  by (induction indices arbitrary: c rs) (auto split: sum.splits prod.splits)

lemma order_fill_length:
  "order_fill slots genes = Inr ch \<Longrightarrow> length ch = length slots"
  by (induction slots genes arbitrary: ch rule: order_fill.induct) (auto split: sum.splits)

subsection \<open>Chromosome lengths\<close>

lemma n_point_chromosome_length:
  assumes "n_point_chromosome c1 c2 n_points rs = Inr (ch, rs')" and "length c2 = length c1"
  shows "length ch = length c1"
proof -
  from assms(1) obtain points where
    s: "sample_pick [1 ..< length c1] (nat n_points) rs = (points, rs')" and
    k: "0 \<le> n_points" "n_points \<le> int (length [1 ..< length c1])" and
    ch: "ch = n_point_segments c1 c2 False 0 (sort points @ [length c1])"
    by (auto simp: n_point_chromosome_def random_sample_def
          split: if_splits sum.splits prod.splits)
  from sample_pick_mset [OF _ s] k have "mset points \<subseteq># mset [1 ..< length c1]" by simp
  from set_mset_mono [OF this] have p: "\<forall>p\<in>set points. p \<le> length c1" by auto
  have "sorted (0 # sort points @ [length c1])"
    using p by (simp add: sorted_append)
  moreover have "\<forall>p\<in>set (0 # sort points @ [length c1]). p \<le> length c1"
    using p by simp
  ultimately have "length (n_point_segments c1 c2 False 0 (sort points @ [length c1]))
      = last (0 # sort points @ [length c1]) - 0"
    using assms(2) by (rule n_point_segments_length)
  with ch show ?thesis by simp
qed

lemma order_crossover_chromosome_length:
  assumes "order_crossover_chromosome c1 c2 rs = Inr (ch, rs')"
  shows "length ch = length c1"
proof -
  from assms obtain start "end" where
    seg: "random_segment (length c1) rs = Inr ((start, end), rs')"
    by (auto simp: order_crossover_chromosome_def Let_def split: sum.splits prod.splits)
  from random_segment_Inr [OF seg] have b: "start < end" "end < length c1" by auto
  let ?slots = "take start (replicate (length c1) None)
      @ map Some (slice start end c1) @ drop end (replicate (length c1) None)"
  from assms seg obtain genes where "order_fill ?slots genes = Inr ch"
    by (auto simp: order_crossover_chromosome_def Let_def split: sum.splits)
  from order_fill_length [OF this] have "length ch = length ?slots" .
  also have "\<dots> = length c1" using b by (simp add: length_slice)
  finally show ?thesis .
qed

lemma swap_chromosome_length:
  "swap_chromosome c rs = Inr (ch, rs') \<Longrightarrow> length ch = length c"
  by (auto simp: swap_chromosome_def split: sum.splits prod.splits list.splits)

lemma boundary_chromosome_length:
  "boundary_chromosome c lo hi rs = Inr (ch, rs') \<Longrightarrow> length ch = length c"
  by (auto simp: boundary_chromosome_def split: sum.splits prod.splits)

lemma multi_point_chromosome_length:
  "multi_point_chromosome c num_points rs = Inr (ch, rs') \<Longrightarrow> length ch = length c"
  by (auto simp: multi_point_chromosome_def split: sum.splits prod.splits
        dest: multi_point_assign_length)

lemma scramble_chromosome_length:
  assumes "scramble_chromosome c rs = Inr (ch, rs')"
  shows "length ch = length c"
proof -
  from assms obtain start "end" rs1 scrambled where
    seg: "random_segment (length c) rs = Inr ((start, end), rs1)" and
    sh: "random_shuffle (slice start end c) rs1 = (scrambled, rs')" and
    ch: "ch = take start c @ scrambled @ drop end c"
    by (auto simp: scramble_chromosome_def split: sum.splits prod.splits)
  from random_segment_Inr [OF seg] have b: "start < end" "end < length c" by auto
  from random_shuffle_length [OF sh] b have "length scrambled = end - start"
    by (simp add: length_slice)
  with ch b show ?thesis by simp
qed

lemma inversion_chromosome_length:
  assumes "inversion_chromosome c rs = Inr (ch, rs')"
  shows "length ch = length c"
proof -
  from assms obtain start "end" where
    seg: "random_segment (length c) rs = Inr ((start, end), rs')" and
    ch: "ch = take start c @ rev (slice start end c) @ drop end c"
    by (auto simp: inversion_chromosome_def split: sum.splits prod.splits)
  from random_segment_Inr [OF seg] have b: "start < end" "end < length c" by auto
  with ch show ?thesis by (simp add: length_slice)
qed

subsection \<open>The operators on a small store\<close>

lemmas operator_eval = return_Candidate_def Candidate_init_def slice_def random_sample_def
  random_choice_def random_randint_def random_uniform_def random_random_def random_gauss_def
  random_shuffle_def random_segment_def randbelow_def frac_def Let_def eval_nat_numeral
  total_fitness_of_def

lemma n_point_crossover_example:
  "n_point_crossover
     [\<lparr>chromosome = [1, 2, 3], fitness = 5\<rparr>, \<lparr>chromosome = [3, 1, 2], fitness = 9\<rparr>]
     0 1 2 (sconst 0)
   = Inr (2, [\<lparr>chromosome = [1, 2, 3], fitness = 5\<rparr>, \<lparr>chromosome = [3, 1, 2], fitness = 9\<rparr>,
        \<lparr>chromosome = [1, 1, 3], fitness = 0\<rparr>], sconst 0)"
  by (simp add: n_point_crossover_def n_point_chromosome_def operator_eval)

lemma uniform_crossover_example:
  "uniform_crossover
     [\<lparr>chromosome = [1, 2, 3], fitness = 5\<rparr>, \<lparr>chromosome = [3, 1, 2], fitness = 9\<rparr>]
     0 1 (sconst 0)
   = Inr (2, [\<lparr>chromosome = [1, 2, 3], fitness = 5\<rparr>, \<lparr>chromosome = [3, 1, 2], fitness = 9\<rparr>,
        \<lparr>chromosome = [1, 2, 3], fitness = 0\<rparr>], sconst 0)"
  by (simp add: uniform_crossover_def uniform_crossover_gene_def operator_eval)

lemma arithmetic_crossover_example:
  "arithmetic_crossover
     [\<lparr>chromosome = [1, 2, 3], fitness = 5\<rparr>, \<lparr>chromosome = [3, 1, 2], fitness = 9\<rparr>]
     0 1 (1 / 2) (sconst 0)
   = Inr (2, [\<lparr>chromosome = [1, 2, 3], fitness = 5\<rparr>, \<lparr>chromosome = [3, 1, 2], fitness = 9\<rparr>,
        \<lparr>chromosome = [2, 3 / 2, 5 / 2], fitness = 0\<rparr>], sconst 0)"
  by (simp add: arithmetic_crossover_def  operator_eval)

lemma blend_crossover_example:
  "blend_crossover
     [\<lparr>chromosome = [1, 2, 3], fitness = 5\<rparr>, \<lparr>chromosome = [3, 1, 2], fitness = 9\<rparr>]
     0 1 (1 / 2) (sconst 0)
   = Inr (2, [\<lparr>chromosome = [1, 2, 3], fitness = 5\<rparr>, \<lparr>chromosome = [3, 1, 2], fitness = 9\<rparr>,
        \<lparr>chromosome = [0, 1 / 2, 3 / 2], fitness = 0\<rparr>], sconst 0)"
  by (simp add: blend_crossover_def blend_crossover_gene_def operator_eval)

lemma order_crossover_example:
  "order_crossover
     [\<lparr>chromosome = [1, 2, 3], fitness = 5\<rparr>, \<lparr>chromosome = [3, 1, 2], fitness = 9\<rparr>]
     0 1 (sconst 0)
   = Inr (2, [\<lparr>chromosome = [1, 2, 3], fitness = 5\<rparr>, \<lparr>chromosome = [3, 1, 2], fitness = 9\<rparr>,
        \<lparr>chromosome = [1, 3, 2], fitness = 0\<rparr>], sconst 0)"
  by (simp add: order_crossover_def order_crossover_chromosome_def operator_eval)

lemma uniform_mutation_example:
  "uniform_mutation
     [\<lparr>chromosome = [1, 2, 3], fitness = 5\<rparr>, \<lparr>chromosome = [3, 1, 2], fitness = 9\<rparr>]
     0 (1 / 2) (sconst 0)
   = Inr (2, [\<lparr>chromosome = [1, 2, 3], fitness = 5\<rparr>, \<lparr>chromosome = [3, 1, 2], fitness = 9\<rparr>,
        \<lparr>chromosome = [0, 0, 0], fitness = 0\<rparr>], sconst 0)"
  by (simp add: uniform_mutation_def uniform_mutation_gene_def operator_eval)

lemma multi_point_mutation_example:
  "multi_point_mutation
     [\<lparr>chromosome = [1, 2, 3], fitness = 5\<rparr>, \<lparr>chromosome = [3, 1, 2], fitness = 9\<rparr>]
     0 1 (sconst 0)
   = Inr (2, [\<lparr>chromosome = [1, 2, 3], fitness = 5\<rparr>, \<lparr>chromosome = [3, 1, 2], fitness = 9\<rparr>,
        \<lparr>chromosome = [0, 2, 3], fitness = 0\<rparr>], sconst 0)"
  by (simp add: multi_point_mutation_def multi_point_chromosome_def operator_eval)

lemma gaussian_mutation_example:
  "gaussian_mutation
     [\<lparr>chromosome = [1, 2, 3], fitness = 5\<rparr>, \<lparr>chromosome = [3, 1, 2], fitness = 9\<rparr>]
     0 0 1 (sconst 0)
   = Inr (2, [\<lparr>chromosome = [1, 2, 3], fitness = 5\<rparr>, \<lparr>chromosome = [3, 1, 2], fitness = 9\<rparr>,
        \<lparr>chromosome = [1, 2, 3], fitness = 0\<rparr>], sconst 0)"
  by (simp add: gaussian_mutation_def gaussian_mutation_gene_def operator_eval)

lemma boundary_mutation_example:
  "boundary_mutation
     [\<lparr>chromosome = [1, 2, 3], fitness = 5\<rparr>, \<lparr>chromosome = [3, 1, 2], fitness = 9\<rparr>]
     0 (- 1) 7 (sconst 0)
   = Inr (2, [\<lparr>chromosome = [1, 2, 3], fitness = 5\<rparr>, \<lparr>chromosome = [3, 1, 2], fitness = 9\<rparr>,
        \<lparr>chromosome = [- 1, 2, 3], fitness = 0\<rparr>], sconst 0)"
  by (simp add: boundary_mutation_def boundary_chromosome_def operator_eval)

lemma swap_mutation_example:
  "swap_mutation
     [\<lparr>chromosome = [1, 2, 3], fitness = 5\<rparr>, \<lparr>chromosome = [3, 1, 2], fitness = 9\<rparr>]
     0 (sconst 0)
   = Inr (2, [\<lparr>chromosome = [1, 2, 3], fitness = 5\<rparr>, \<lparr>chromosome = [3, 1, 2], fitness = 9\<rparr>,
        \<lparr>chromosome = [2, 1, 3], fitness = 0\<rparr>], sconst 0)"
  by (simp add: swap_mutation_def swap_chromosome_def operator_eval)

lemma scramble_mutation_example:
  "scramble_mutation
     [\<lparr>chromosome = [1, 2, 3], fitness = 5\<rparr>, \<lparr>chromosome = [3, 1, 2], fitness = 9\<rparr>]
     0 (sconst 0)
   = Inr (2, [\<lparr>chromosome = [1, 2, 3], fitness = 5\<rparr>, \<lparr>chromosome = [3, 1, 2], fitness = 9\<rparr>,
        \<lparr>chromosome = [1, 2, 3], fitness = 0\<rparr>], sconst 0)"
  by (simp add: scramble_mutation_def scramble_chromosome_def operator_eval)

lemma inversion_mutation_example:
  "inversion_mutation
     [\<lparr>chromosome = [1, 2, 3], fitness = 5\<rparr>, \<lparr>chromosome = [3, 1, 2], fitness = 9\<rparr>]
     0 (sconst 0)
   = Inr (2, [\<lparr>chromosome = [1, 2, 3], fitness = 5\<rparr>, \<lparr>chromosome = [3, 1, 2], fitness = 9\<rparr>,
        \<lparr>chromosome = [1, 2, 3], fitness = 0\<rparr>], sconst 0)"
  by (simp add: inversion_mutation_def inversion_chromosome_def operator_eval)

lemma non_uniform_mutation_example:
  "non_uniform_mutation
     [\<lparr>chromosome = [1, 2, 3], fitness = 5\<rparr>, \<lparr>chromosome = [3, 1, 2], fitness = 9\<rparr>]
     0 1 2 (1 / 2) (sconst 0)
   = Inr (2, [\<lparr>chromosome = [1, 2, 3], fitness = 5\<rparr>, \<lparr>chromosome = [3, 1, 2], fitness = 9\<rparr>,
        \<lparr>chromosome = [1, 2, 3], fitness = 0\<rparr>], sconst 0)"
  by (simp add: non_uniform_mutation_def non_uniform_mutation_gene_def operator_eval)

lemma adaptive_mutation_example:
  "adaptive_mutation
     [\<lparr>chromosome = [1, 2, 3], fitness = 5\<rparr>, \<lparr>chromosome = [3, 1, 2], fitness = 9\<rparr>]
     0 [0, 1] (1 / 10) (1 / 2) (sconst 0)
   = Inr (2, [\<lparr>chromosome = [1, 2, 3], fitness = 5\<rparr>, \<lparr>chromosome = [3, 1, 2], fitness = 9\<rparr>,
        \<lparr>chromosome = [0, 0, 0], fitness = 0\<rparr>], sconst 0)"
  by (simp add: adaptive_mutation_def uniform_mutation_gene_def operator_eval)

lemma cut_and_splice_crossover_example:
  "cut_and_splice_crossover
     [\<lparr>chromosome = [1, 2, 3], fitness = 5\<rparr>, \<lparr>chromosome = [3, 1, 2], fitness = 9\<rparr>]
     0 1 (1 / 2 ## sconst 0)
   = Inr (2, [\<lparr>chromosome = [1, 2, 3], fitness = 5\<rparr>, \<lparr>chromosome = [3, 1, 2], fitness = 9\<rparr>,
        \<lparr>chromosome = [1, 3, 1, 2], fitness = 0\<rparr>], sconst 0)"
  by (simp add: cut_and_splice_crossover_def cut_and_splice_chromosome_def operator_eval)

lemma return_Candidate_offspring:
  "return_Candidate h res = Inr (r, h', rs') \<Longrightarrow>
     res = Inr (chromosome (h' ! r), rs') \<and> r = length h \<and>
     h' = h @ [\<lparr>chromosome = chromosome (h' ! r), fitness = 0\<rparr>]"
  by (auto dest!: return_Candidate_Inr)

lemma n_point_crossover_length:
  "length (chromosome (h ! parent2)) = length (chromosome (h ! parent1)) \<Longrightarrow>
   n_point_crossover h parent1 parent2 n_points rs = Inr (r, h', rs') \<Longrightarrow>
     length (chromosome (h' ! r)) = length (chromosome (h ! parent1))"
  using n_point_chromosome_length
    [of "chromosome (h ! parent1)" "chromosome (h ! parent2)" n_points rs "chromosome (h' ! r)" rs']
  by (auto simp: n_point_crossover_def dest!: return_Candidate_offspring)

lemma uniform_crossover_length:
  "length (chromosome (h ! parent2)) = length (chromosome (h ! parent1)) \<Longrightarrow>
   uniform_crossover h parent1 parent2 rs = Inr (r, h', rs') \<Longrightarrow>
     length (chromosome (h' ! r)) = length (chromosome (h ! parent1))"
  by (auto simp: uniform_crossover_def dest!: return_Candidate_offspring dest!: for_each_gene_length)

lemma arithmetic_crossover_length:
  "length (chromosome (h ! parent2)) = length (chromosome (h ! parent1)) \<Longrightarrow>
   arithmetic_crossover h parent1 parent2 alpha rs = Inr (r, h', rs') \<Longrightarrow>
     length (chromosome (h' ! r)) = length (chromosome (h ! parent1))"
proof -
  assume e: "length (chromosome (h ! parent2)) = length (chromosome (h ! parent1))"
    and "arithmetic_crossover h parent1 parent2 alpha rs = Inr (r, h', rs')"
  then have "map (\<lambda>(gene1, gene2). alpha * gene1 + (1 - alpha) * gene2)
      (zip (chromosome (h ! parent1)) (chromosome (h ! parent2))) = chromosome (h' ! r)"
    by (auto simp: arithmetic_crossover_def dest!: return_Candidate_offspring)
  then have "length (chromosome (h' ! r))
      = length (zip (chromosome (h ! parent1)) (chromosome (h ! parent2)))"
    by (metis length_map)
  with e show ?thesis by simp
qed

lemma blend_crossover_length:
  "length (chromosome (h ! parent2)) = length (chromosome (h ! parent1)) \<Longrightarrow>
   blend_crossover h parent1 parent2 alpha rs = Inr (r, h', rs') \<Longrightarrow>
     length (chromosome (h' ! r)) = length (chromosome (h ! parent1))"
  by (auto simp: blend_crossover_def dest!: return_Candidate_offspring dest!: for_each_gene_length)

lemma order_crossover_length:
  "order_crossover h parent1 parent2 rs = Inr (r, h', rs') \<Longrightarrow>
     length (chromosome (h' ! r)) = length (chromosome (h ! parent1))"
  by (auto simp: order_crossover_def dest!: return_Candidate_offspring dest: order_crossover_chromosome_length)

lemma uniform_mutation_length:
  "uniform_mutation h candidate mutation_probability rs = Inr (r, h', rs') \<Longrightarrow>
     length (chromosome (h' ! r)) = length (chromosome (h ! candidate))"
  by (auto simp: uniform_mutation_def dest!: return_Candidate_offspring dest!: for_each_gene_length)

lemma multi_point_mutation_length:
  "multi_point_mutation h candidate num_points rs = Inr (r, h', rs') \<Longrightarrow>
     length (chromosome (h' ! r)) = length (chromosome (h ! candidate))"
  by (auto simp: multi_point_mutation_def dest!: return_Candidate_offspring dest: multi_point_chromosome_length)

lemma gaussian_mutation_length:
  "gaussian_mutation h candidate mean stddev rs = Inr (r, h', rs') \<Longrightarrow>
     length (chromosome (h' ! r)) = length (chromosome (h ! candidate))"
  by (auto simp: gaussian_mutation_def dest!: return_Candidate_offspring dest!: for_each_gene_length)

lemma boundary_mutation_length:
  "boundary_mutation h candidate lower_bound upper_bound rs = Inr (r, h', rs') \<Longrightarrow>
     length (chromosome (h' ! r)) = length (chromosome (h ! candidate))"
  by (auto simp: boundary_mutation_def dest!: return_Candidate_offspring dest: boundary_chromosome_length)

lemma swap_mutation_length:
  "swap_mutation h candidate rs = Inr (r, h', rs') \<Longrightarrow>
     length (chromosome (h' ! r)) = length (chromosome (h ! candidate))"
  by (auto simp: swap_mutation_def dest!: return_Candidate_offspring dest: swap_chromosome_length)

lemma scramble_mutation_length:
  "scramble_mutation h candidate rs = Inr (r, h', rs') \<Longrightarrow>
     length (chromosome (h' ! r)) = length (chromosome (h ! candidate))"
  by (auto simp: scramble_mutation_def dest!: return_Candidate_offspring dest: scramble_chromosome_length)

lemma inversion_mutation_length:
  "inversion_mutation h candidate rs = Inr (r, h', rs') \<Longrightarrow>
     length (chromosome (h' ! r)) = length (chromosome (h ! candidate))"
  by (auto simp: inversion_mutation_def dest!: return_Candidate_offspring dest: inversion_chromosome_length)

lemma non_uniform_mutation_length:
  "non_uniform_mutation h candidate generation max_generations mutation_probability rs = Inr (r, h', rs') \<Longrightarrow>
     length (chromosome (h' ! r)) = length (chromosome (h ! candidate))"
  by (auto simp: non_uniform_mutation_def dest!: return_Candidate_offspring dest!: for_each_gene_length)

lemma adaptive_mutation_length:
  "adaptive_mutation h candidate population improvement_threshold mutation_probability rs = Inr (r, h', rs') \<Longrightarrow>
     length (chromosome (h' ! r)) = length (chromosome (h ! candidate))"
  by (auto simp: adaptive_mutation_def Let_def split: if_splits
        dest!: return_Candidate_offspring dest: for_each_gene_length)


text \<open>
  Claim C8. For parents with chromosomes of equal length, the offspring chromosome of
  n-point, uniform, arithmetic, blend and order crossover has the length of the
  parents'; the chromosome produced by each of the nine mutation operators has the
  length of the input's. Cut-and-splice crossover is the only operator whose offspring
  may have another length.
\<close>

theorem operators_preserve_length:
  "(length (chromosome (h ! parent2)) = length (chromosome (h ! parent1)) \<longrightarrow>
      (n_point_crossover h parent1 parent2 n_points rs = Inr (r1, h1, rs1) \<longrightarrow>
         length (chromosome (h1 ! r1)) = length (chromosome (h ! parent1))) \<and>
      (uniform_crossover h parent1 parent2 rs = Inr (r2, h2, rs2) \<longrightarrow>
         length (chromosome (h2 ! r2)) = length (chromosome (h ! parent1))) \<and>
      (arithmetic_crossover h parent1 parent2 alpha rs = Inr (r3, h3, rs3) \<longrightarrow>
         length (chromosome (h3 ! r3)) = length (chromosome (h ! parent1))) \<and>
      (blend_crossover h parent1 parent2 alpha rs = Inr (r4, h4, rs4) \<longrightarrow>
         length (chromosome (h4 ! r4)) = length (chromosome (h ! parent1))) \<and>
      (order_crossover h parent1 parent2 rs = Inr (r5, h5, rs5) \<longrightarrow>
         length (chromosome (h5 ! r5)) = length (chromosome (h ! parent1))))
   \<and> (uniform_mutation h candidate mutation_probability rs = Inr (r6, h6, rs6) \<longrightarrow>
         length (chromosome (h6 ! r6)) = length (chromosome (h ! candidate)))
   \<and> (multi_point_mutation h candidate num_points rs = Inr (r7, h7, rs7) \<longrightarrow>
         length (chromosome (h7 ! r7)) = length (chromosome (h ! candidate)))
   \<and> (gaussian_mutation h candidate mean stddev rs = Inr (r8, h8, rs8) \<longrightarrow>
         length (chromosome (h8 ! r8)) = length (chromosome (h ! candidate)))
   \<and> (boundary_mutation h candidate lower_bound upper_bound rs = Inr (r9, h9, rs9) \<longrightarrow>
         length (chromosome (h9 ! r9)) = length (chromosome (h ! candidate)))
   \<and> (swap_mutation h candidate rs = Inr (r10, h10, rs10) \<longrightarrow>
         length (chromosome (h10 ! r10)) = length (chromosome (h ! candidate)))
   \<and> (scramble_mutation h candidate rs = Inr (r11, h11, rs11) \<longrightarrow>
         length (chromosome (h11 ! r11)) = length (chromosome (h ! candidate)))
   \<and> (inversion_mutation h candidate rs = Inr (r12, h12, rs12) \<longrightarrow>
         length (chromosome (h12 ! r12)) = length (chromosome (h ! candidate)))
   \<and> (non_uniform_mutation h candidate generation max_generations mutation_probability rs = Inr (r13, h13, rs13) \<longrightarrow>
         length (chromosome (h13 ! r13)) = length (chromosome (h ! candidate)))
   \<and> (adaptive_mutation h candidate population improvement_threshold mutation_probability rs = Inr (r14, h14, rs14) \<longrightarrow>
         length (chromosome (h14 ! r14)) = length (chromosome (h ! candidate)))
   \<and> (\<exists>h parent1 parent2 rs r h' rs'.
         length (chromosome (h ! parent2)) = length (chromosome (h ! parent1))
         \<and> cut_and_splice_crossover h parent1 parent2 rs = Inr (r, h', rs')
         \<and> length (chromosome (h' ! r)) \<noteq> length (chromosome (h ! parent1)))"
proof -
  have "length (chromosome ([\<lparr>chromosome = [1, 2, 3], fitness = 5\<rparr>, \<lparr>chromosome = [3, 1, 2], fitness = 9\<rparr>] ! 1))
          = length (chromosome ([\<lparr>chromosome = [1, 2, 3], fitness = 5\<rparr>, \<lparr>chromosome = [3, 1, 2], fitness = 9\<rparr>] ! 0))
        \<and> cut_and_splice_crossover
            [\<lparr>chromosome = [1, 2, 3], fitness = 5\<rparr>, \<lparr>chromosome = [3, 1, 2], fitness = 9\<rparr>]
            0 1 (1 / 2 ## sconst 0)
          = Inr (2, [\<lparr>chromosome = [1, 2, 3], fitness = 5\<rparr>, \<lparr>chromosome = [3, 1, 2], fitness = 9\<rparr>,
          \<lparr>chromosome = [1, 3, 1, 2], fitness = 0\<rparr>], sconst 0)
        \<and> length (chromosome ([\<lparr>chromosome = [1, 2, 3], fitness = 5\<rparr>, \<lparr>chromosome = [3, 1, 2], fitness = 9\<rparr>,
          \<lparr>chromosome = [1, 3, 1, 2], fitness = 0\<rparr>] ! 2))
          \<noteq> length (chromosome ([\<lparr>chromosome = [1, 2, 3], fitness = 5\<rparr>, \<lparr>chromosome = [3, 1, 2], fitness = 9\<rparr>] ! 0))"
    using cut_and_splice_crossover_example by simp
  then have "\<exists>h parent1 parent2 rs r h' rs'.
         length (chromosome (h ! parent2)) = length (chromosome (h ! parent1))
         \<and> cut_and_splice_crossover h parent1 parent2 rs = Inr (r, h', rs')
         \<and> length (chromosome (h' ! r)) \<noteq> length (chromosome (h ! parent1))"
    by blast
  then show ?thesis
    using n_point_crossover_length
      uniform_crossover_length
      arithmetic_crossover_length
      blend_crossover_length
      order_crossover_length
      uniform_mutation_length
      multi_point_mutation_length
      gaussian_mutation_length
      boundary_mutation_length
      swap_mutation_length
      scramble_mutation_length
      inversion_mutation_length
      non_uniform_mutation_length
      adaptive_mutation_length
    by (intro conjI impI) assumption+
qed

theorem operators_preserve_length_witness:
  "length (chromosome ([\<lparr>chromosome = [1, 2, 3], fitness = 5\<rparr>, \<lparr>chromosome = [3, 1, 2], fitness = 9\<rparr>] ! 1))
     = length (chromosome ([\<lparr>chromosome = [1, 2, 3], fitness = 5\<rparr>, \<lparr>chromosome = [3, 1, 2], fitness = 9\<rparr>] ! 0))
   \<and> n_point_crossover
        [\<lparr>chromosome = [1, 2, 3], fitness = 5\<rparr>, \<lparr>chromosome = [3, 1, 2], fitness = 9\<rparr>]
        0 1 2 (sconst 0)
      = Inr (2, [\<lparr>chromosome = [1, 2, 3], fitness = 5\<rparr>, \<lparr>chromosome = [3, 1, 2], fitness = 9\<rparr>,
          \<lparr>chromosome = [1, 1, 3], fitness = 0\<rparr>], sconst 0)
   \<and> length (chromosome ([\<lparr>chromosome = [1, 2, 3], fitness = 5\<rparr>, \<lparr>chromosome = [3, 1, 2], fitness = 9\<rparr>,
          \<lparr>chromosome = [1, 1, 3], fitness = 0\<rparr>] ! 2)) = 3
   \<and> uniform_crossover
        [\<lparr>chromosome = [1, 2, 3], fitness = 5\<rparr>, \<lparr>chromosome = [3, 1, 2], fitness = 9\<rparr>]
        0 1 (sconst 0)
      = Inr (2, [\<lparr>chromosome = [1, 2, 3], fitness = 5\<rparr>, \<lparr>chromosome = [3, 1, 2], fitness = 9\<rparr>,
          \<lparr>chromosome = [1, 2, 3], fitness = 0\<rparr>], sconst 0)
   \<and> length (chromosome ([\<lparr>chromosome = [1, 2, 3], fitness = 5\<rparr>, \<lparr>chromosome = [3, 1, 2], fitness = 9\<rparr>,
          \<lparr>chromosome = [1, 2, 3], fitness = 0\<rparr>] ! 2)) = 3
   \<and> arithmetic_crossover
        [\<lparr>chromosome = [1, 2, 3], fitness = 5\<rparr>, \<lparr>chromosome = [3, 1, 2], fitness = 9\<rparr>]
        0 1 (1 / 2) (sconst 0)
      = Inr (2, [\<lparr>chromosome = [1, 2, 3], fitness = 5\<rparr>, \<lparr>chromosome = [3, 1, 2], fitness = 9\<rparr>,
          \<lparr>chromosome = [2, 3 / 2, 5 / 2], fitness = 0\<rparr>], sconst 0)
   \<and> length (chromosome ([\<lparr>chromosome = [1, 2, 3], fitness = 5\<rparr>, \<lparr>chromosome = [3, 1, 2], fitness = 9\<rparr>,
          \<lparr>chromosome = [2, 3 / 2, 5 / 2], fitness = 0\<rparr>] ! 2)) = 3
   \<and> blend_crossover
        [\<lparr>chromosome = [1, 2, 3], fitness = 5\<rparr>, \<lparr>chromosome = [3, 1, 2], fitness = 9\<rparr>]
        0 1 (1 / 2) (sconst 0)
      = Inr (2, [\<lparr>chromosome = [1, 2, 3], fitness = 5\<rparr>, \<lparr>chromosome = [3, 1, 2], fitness = 9\<rparr>,
          \<lparr>chromosome = [0, 1 / 2, 3 / 2], fitness = 0\<rparr>], sconst 0)
   \<and> length (chromosome ([\<lparr>chromosome = [1, 2, 3], fitness = 5\<rparr>, \<lparr>chromosome = [3, 1, 2], fitness = 9\<rparr>,
          \<lparr>chromosome = [0, 1 / 2, 3 / 2], fitness = 0\<rparr>] ! 2)) = 3
   \<and> order_crossover
        [\<lparr>chromosome = [1, 2, 3], fitness = 5\<rparr>, \<lparr>chromosome = [3, 1, 2], fitness = 9\<rparr>]
        0 1 (sconst 0)
      = Inr (2, [\<lparr>chromosome = [1, 2, 3], fitness = 5\<rparr>, \<lparr>chromosome = [3, 1, 2], fitness = 9\<rparr>,
          \<lparr>chromosome = [1, 3, 2], fitness = 0\<rparr>], sconst 0)
   \<and> length (chromosome ([\<lparr>chromosome = [1, 2, 3], fitness = 5\<rparr>, \<lparr>chromosome = [3, 1, 2], fitness = 9\<rparr>,
          \<lparr>chromosome = [1, 3, 2], fitness = 0\<rparr>] ! 2)) = 3
   \<and> uniform_mutation
        [\<lparr>chromosome = [1, 2, 3], fitness = 5\<rparr>, \<lparr>chromosome = [3, 1, 2], fitness = 9\<rparr>]
        0 (1 / 2) (sconst 0)
      = Inr (2, [\<lparr>chromosome = [1, 2, 3], fitness = 5\<rparr>, \<lparr>chromosome = [3, 1, 2], fitness = 9\<rparr>,
          \<lparr>chromosome = [0, 0, 0], fitness = 0\<rparr>], sconst 0)
   \<and> length (chromosome ([\<lparr>chromosome = [1, 2, 3], fitness = 5\<rparr>, \<lparr>chromosome = [3, 1, 2], fitness = 9\<rparr>,
          \<lparr>chromosome = [0, 0, 0], fitness = 0\<rparr>] ! 2)) = 3
   \<and> multi_point_mutation
        [\<lparr>chromosome = [1, 2, 3], fitness = 5\<rparr>, \<lparr>chromosome = [3, 1, 2], fitness = 9\<rparr>]
        0 1 (sconst 0)
      = Inr (2, [\<lparr>chromosome = [1, 2, 3], fitness = 5\<rparr>, \<lparr>chromosome = [3, 1, 2], fitness = 9\<rparr>,
          \<lparr>chromosome = [0, 2, 3], fitness = 0\<rparr>], sconst 0)
   \<and> length (chromosome ([\<lparr>chromosome = [1, 2, 3], fitness = 5\<rparr>, \<lparr>chromosome = [3, 1, 2], fitness = 9\<rparr>,
          \<lparr>chromosome = [0, 2, 3], fitness = 0\<rparr>] ! 2)) = 3
   \<and> gaussian_mutation
        [\<lparr>chromosome = [1, 2, 3], fitness = 5\<rparr>, \<lparr>chromosome = [3, 1, 2], fitness = 9\<rparr>]
        0 0 1 (sconst 0)
      = Inr (2, [\<lparr>chromosome = [1, 2, 3], fitness = 5\<rparr>, \<lparr>chromosome = [3, 1, 2], fitness = 9\<rparr>,
          \<lparr>chromosome = [1, 2, 3], fitness = 0\<rparr>], sconst 0)
   \<and> length (chromosome ([\<lparr>chromosome = [1, 2, 3], fitness = 5\<rparr>, \<lparr>chromosome = [3, 1, 2], fitness = 9\<rparr>,
          \<lparr>chromosome = [1, 2, 3], fitness = 0\<rparr>] ! 2)) = 3
   \<and> boundary_mutation
        [\<lparr>chromosome = [1, 2, 3], fitness = 5\<rparr>, \<lparr>chromosome = [3, 1, 2], fitness = 9\<rparr>]
        0 (- 1) 7 (sconst 0)
      = Inr (2, [\<lparr>chromosome = [1, 2, 3], fitness = 5\<rparr>, \<lparr>chromosome = [3, 1, 2], fitness = 9\<rparr>,
          \<lparr>chromosome = [- 1, 2, 3], fitness = 0\<rparr>], sconst 0)
   \<and> length (chromosome ([\<lparr>chromosome = [1, 2, 3], fitness = 5\<rparr>, \<lparr>chromosome = [3, 1, 2], fitness = 9\<rparr>,
          \<lparr>chromosome = [- 1, 2, 3], fitness = 0\<rparr>] ! 2)) = 3
   \<and> swap_mutation
        [\<lparr>chromosome = [1, 2, 3], fitness = 5\<rparr>, \<lparr>chromosome = [3, 1, 2], fitness = 9\<rparr>]
        0 (sconst 0)
      = Inr (2, [\<lparr>chromosome = [1, 2, 3], fitness = 5\<rparr>, \<lparr>chromosome = [3, 1, 2], fitness = 9\<rparr>,
          \<lparr>chromosome = [2, 1, 3], fitness = 0\<rparr>], sconst 0)
   \<and> length (chromosome ([\<lparr>chromosome = [1, 2, 3], fitness = 5\<rparr>, \<lparr>chromosome = [3, 1, 2], fitness = 9\<rparr>,
          \<lparr>chromosome = [2, 1, 3], fitness = 0\<rparr>] ! 2)) = 3
   \<and> scramble_mutation
        [\<lparr>chromosome = [1, 2, 3], fitness = 5\<rparr>, \<lparr>chromosome = [3, 1, 2], fitness = 9\<rparr>]
        0 (sconst 0)
      = Inr (2, [\<lparr>chromosome = [1, 2, 3], fitness = 5\<rparr>, \<lparr>chromosome = [3, 1, 2], fitness = 9\<rparr>,
          \<lparr>chromosome = [1, 2, 3], fitness = 0\<rparr>], sconst 0)
   \<and> length (chromosome ([\<lparr>chromosome = [1, 2, 3], fitness = 5\<rparr>, \<lparr>chromosome = [3, 1, 2], fitness = 9\<rparr>,
          \<lparr>chromosome = [1, 2, 3], fitness = 0\<rparr>] ! 2)) = 3
   \<and> inversion_mutation
        [\<lparr>chromosome = [1, 2, 3], fitness = 5\<rparr>, \<lparr>chromosome = [3, 1, 2], fitness = 9\<rparr>]
        0 (sconst 0)
      = Inr (2, [\<lparr>chromosome = [1, 2, 3], fitness = 5\<rparr>, \<lparr>chromosome = [3, 1, 2], fitness = 9\<rparr>,
          \<lparr>chromosome = [1, 2, 3], fitness = 0\<rparr>], sconst 0)
   \<and> length (chromosome ([\<lparr>chromosome = [1, 2, 3], fitness = 5\<rparr>, \<lparr>chromosome = [3, 1, 2], fitness = 9\<rparr>,
          \<lparr>chromosome = [1, 2, 3], fitness = 0\<rparr>] ! 2)) = 3
   \<and> non_uniform_mutation
        [\<lparr>chromosome = [1, 2, 3], fitness = 5\<rparr>, \<lparr>chromosome = [3, 1, 2], fitness = 9\<rparr>]
        0 1 2 (1 / 2) (sconst 0)
      = Inr (2, [\<lparr>chromosome = [1, 2, 3], fitness = 5\<rparr>, \<lparr>chromosome = [3, 1, 2], fitness = 9\<rparr>,
          \<lparr>chromosome = [1, 2, 3], fitness = 0\<rparr>], sconst 0)
   \<and> length (chromosome ([\<lparr>chromosome = [1, 2, 3], fitness = 5\<rparr>, \<lparr>chromosome = [3, 1, 2], fitness = 9\<rparr>,
          \<lparr>chromosome = [1, 2, 3], fitness = 0\<rparr>] ! 2)) = 3
   \<and> adaptive_mutation
        [\<lparr>chromosome = [1, 2, 3], fitness = 5\<rparr>, \<lparr>chromosome = [3, 1, 2], fitness = 9\<rparr>]
        0 [0, 1] (1 / 10) (1 / 2) (sconst 0)
      = Inr (2, [\<lparr>chromosome = [1, 2, 3], fitness = 5\<rparr>, \<lparr>chromosome = [3, 1, 2], fitness = 9\<rparr>,
          \<lparr>chromosome = [0, 0, 0], fitness = 0\<rparr>], sconst 0)
   \<and> length (chromosome ([\<lparr>chromosome = [1, 2, 3], fitness = 5\<rparr>, \<lparr>chromosome = [3, 1, 2], fitness = 9\<rparr>,
          \<lparr>chromosome = [0, 0, 0], fitness = 0\<rparr>] ! 2)) = 3"
  using operators_preserve_length
    [of "[\<lparr>chromosome = [1, 2, 3], fitness = 5\<rparr>, \<lparr>chromosome = [3, 1, 2], fitness = 9\<rparr>]" 1 0 2 "sconst 0" 2 "[\<lparr>chromosome = [1, 2, 3], fitness = 5\<rparr>, \<lparr>chromosome = [3, 1, 2], fitness = 9\<rparr>,
          \<lparr>chromosome = [1, 1, 3], fitness = 0\<rparr>]" "sconst 0" 2 "[\<lparr>chromosome = [1, 2, 3], fitness = 5\<rparr>, \<lparr>chromosome = [3, 1, 2], fitness = 9\<rparr>,
          \<lparr>chromosome = [1, 2, 3], fitness = 0\<rparr>]" "sconst 0" "1 / 2" 2 "[\<lparr>chromosome = [1, 2, 3], fitness = 5\<rparr>, \<lparr>chromosome = [3, 1, 2], fitness = 9\<rparr>,
          \<lparr>chromosome = [2, 3 / 2, 5 / 2], fitness = 0\<rparr>]" "sconst 0" 2 "[\<lparr>chromosome = [1, 2, 3], fitness = 5\<rparr>, \<lparr>chromosome = [3, 1, 2], fitness = 9\<rparr>,
          \<lparr>chromosome = [0, 1 / 2, 3 / 2], fitness = 0\<rparr>]" "sconst 0" 2 "[\<lparr>chromosome = [1, 2, 3], fitness = 5\<rparr>, \<lparr>chromosome = [3, 1, 2], fitness = 9\<rparr>,
          \<lparr>chromosome = [1, 3, 2], fitness = 0\<rparr>]" "sconst 0" 0 "1 / 2" 2 "[\<lparr>chromosome = [1, 2, 3], fitness = 5\<rparr>, \<lparr>chromosome = [3, 1, 2], fitness = 9\<rparr>,
          \<lparr>chromosome = [0, 0, 0], fitness = 0\<rparr>]" "sconst 0" 1 2 "[\<lparr>chromosome = [1, 2, 3], fitness = 5\<rparr>, \<lparr>chromosome = [3, 1, 2], fitness = 9\<rparr>,
          \<lparr>chromosome = [0, 2, 3], fitness = 0\<rparr>]" "sconst 0" 0 1 2 "[\<lparr>chromosome = [1, 2, 3], fitness = 5\<rparr>, \<lparr>chromosome = [3, 1, 2], fitness = 9\<rparr>,
          \<lparr>chromosome = [1, 2, 3], fitness = 0\<rparr>]" "sconst 0" "- 1" 7 2 "[\<lparr>chromosome = [1, 2, 3], fitness = 5\<rparr>, \<lparr>chromosome = [3, 1, 2], fitness = 9\<rparr>,
          \<lparr>chromosome = [- 1, 2, 3], fitness = 0\<rparr>]" "sconst 0" 2 "[\<lparr>chromosome = [1, 2, 3], fitness = 5\<rparr>, \<lparr>chromosome = [3, 1, 2], fitness = 9\<rparr>,
          \<lparr>chromosome = [2, 1, 3], fitness = 0\<rparr>]" "sconst 0" 2 "[\<lparr>chromosome = [1, 2, 3], fitness = 5\<rparr>, \<lparr>chromosome = [3, 1, 2], fitness = 9\<rparr>,
          \<lparr>chromosome = [1, 2, 3], fitness = 0\<rparr>]" "sconst 0" 2 "[\<lparr>chromosome = [1, 2, 3], fitness = 5\<rparr>, \<lparr>chromosome = [3, 1, 2], fitness = 9\<rparr>,
          \<lparr>chromosome = [1, 2, 3], fitness = 0\<rparr>]" "sconst 0" 1 2 2 "[\<lparr>chromosome = [1, 2, 3], fitness = 5\<rparr>, \<lparr>chromosome = [3, 1, 2], fitness = 9\<rparr>,
          \<lparr>chromosome = [1, 2, 3], fitness = 0\<rparr>]" "sconst 0" "[0, 1]" "1 / 10" 2 "[\<lparr>chromosome = [1, 2, 3], fitness = 5\<rparr>, \<lparr>chromosome = [3, 1, 2], fitness = 9\<rparr>,
          \<lparr>chromosome = [0, 0, 0], fitness = 0\<rparr>]" "sconst 0"]
    n_point_crossover_example
    uniform_crossover_example
    arithmetic_crossover_example
    blend_crossover_example
    order_crossover_example
    uniform_mutation_example
    multi_point_mutation_example
    gaussian_mutation_example
    boundary_mutation_example
    swap_mutation_example
    scramble_mutation_example
    inversion_mutation_example
    non_uniform_mutation_example
    adaptive_mutation_example
  by simp

subsection \<open>The fitness of an offspring\<close>

lemma return_Candidate_fresh:
  assumes "return_Candidate h res = Inr (r, h', rs')"
  shows "r = length h \<and> h' = h @ [h' ! r] \<and> fitness (h' ! r) = 0 \<and>
         calculate_fitness h' r (\<lambda>ch. 0) = h'"
proof -
  from return_Candidate_Inr [OF assms] obtain ch where
    r: "r = length h" and h': "h' = h @ [\<lparr>chromosome = ch, fitness = 0\<rparr>]" by blast
  have n: "h' ! r = \<lparr>chromosome = ch, fitness = 0\<rparr>" using r h' by simp
  have "calculate_fitness h' r (\<lambda>ch. 0) = h'[r := h' ! r]"
    by (simp add: calculate_fitness_def n)
  then have "calculate_fitness h' r (\<lambda>ch. 0) = h'"
    by (simp only: list_update_id)
  with r h' n show ?thesis by simp
qed

lemma adaptive_mutation_fresh:
  "adaptive_mutation h candidate population improvement_threshold mutation_probability rs
     = Inr (r, h', rs') \<Longrightarrow>
   r = length h \<and> h' = h @ [h' ! r] \<and> fitness (h' ! r) = 0 \<and>
   calculate_fitness h' r (\<lambda>ch. 0) = h'"
  by (auto simp: adaptive_mutation_def Let_def split: if_splits dest!: return_Candidate_fresh)

lemma cut_and_splice_crossover_same_length_example:
  "cut_and_splice_crossover
     [\<lparr>chromosome = [1, 2, 3], fitness = 5\<rparr>, \<lparr>chromosome = [3, 1, 2], fitness = 9\<rparr>]
     0 1 (sconst 0)
   = Inr (2, [\<lparr>chromosome = [1, 2, 3], fitness = 5\<rparr>, \<lparr>chromosome = [3, 1, 2], fitness = 9\<rparr>,
          \<lparr>chromosome = [3, 1, 2], fitness = 0\<rparr>], sconst 0)"
  by (simp add: cut_and_splice_crossover_def cut_and_splice_chromosome_def operator_eval)

text \<open>
  Claim C10. Each of the six crossover and nine mutation operators, when it returns,
  returns a new object: it is appended to the store, whose other objects are untouched,
  and its fitness field is 0, the default of the constructor, whatever the fitness of
  the parents. The field of such an offspring is the number 0: evaluating the offspring
  with an objective whose value is 0 leaves the store as it is.
\<close>

theorem operators_return_unevaluated_offspring:
  "(n_point_crossover h parent1 parent2 n_points rs = Inr (r1, h1, rs1) \<longrightarrow>
      r1 = length h \<and> h1 = h @ [h1 ! r1] \<and> fitness (h1 ! r1) = 0 \<and>
      calculate_fitness h1 r1 (\<lambda>ch. 0) = h1)
   \<and> (uniform_crossover h parent1 parent2 rs = Inr (r2, h2, rs2) \<longrightarrow>
      r2 = length h \<and> h2 = h @ [h2 ! r2] \<and> fitness (h2 ! r2) = 0 \<and>
      calculate_fitness h2 r2 (\<lambda>ch. 0) = h2)
   \<and> (arithmetic_crossover h parent1 parent2 alpha rs = Inr (r3, h3, rs3) \<longrightarrow>
      r3 = length h \<and> h3 = h @ [h3 ! r3] \<and> fitness (h3 ! r3) = 0 \<and>
      calculate_fitness h3 r3 (\<lambda>ch. 0) = h3)
   \<and> (blend_crossover h parent1 parent2 alpha rs = Inr (r4, h4, rs4) \<longrightarrow>
      r4 = length h \<and> h4 = h @ [h4 ! r4] \<and> fitness (h4 ! r4) = 0 \<and>
      calculate_fitness h4 r4 (\<lambda>ch. 0) = h4)
   \<and> (cut_and_splice_crossover h parent1 parent2 rs = Inr (r5, h5, rs5) \<longrightarrow>
      r5 = length h \<and> h5 = h @ [h5 ! r5] \<and> fitness (h5 ! r5) = 0 \<and>
      calculate_fitness h5 r5 (\<lambda>ch. 0) = h5)
   \<and> (order_crossover h parent1 parent2 rs = Inr (r6, h6, rs6) \<longrightarrow>
      r6 = length h \<and> h6 = h @ [h6 ! r6] \<and> fitness (h6 ! r6) = 0 \<and>
      calculate_fitness h6 r6 (\<lambda>ch. 0) = h6)
   \<and> (uniform_mutation h candidate mutation_probability rs = Inr (r7, h7, rs7) \<longrightarrow>
      r7 = length h \<and> h7 = h @ [h7 ! r7] \<and> fitness (h7 ! r7) = 0 \<and>
      calculate_fitness h7 r7 (\<lambda>ch. 0) = h7)
   \<and> (multi_point_mutation h candidate num_points rs = Inr (r8, h8, rs8) \<longrightarrow>
      r8 = length h \<and> h8 = h @ [h8 ! r8] \<and> fitness (h8 ! r8) = 0 \<and>
      calculate_fitness h8 r8 (\<lambda>ch. 0) = h8)
   \<and> (gaussian_mutation h candidate mean stddev rs = Inr (r9, h9, rs9) \<longrightarrow>
      r9 = length h \<and> h9 = h @ [h9 ! r9] \<and> fitness (h9 ! r9) = 0 \<and>
      calculate_fitness h9 r9 (\<lambda>ch. 0) = h9)
   \<and> (boundary_mutation h candidate lower_bound upper_bound rs = Inr (r10, h10, rs10) \<longrightarrow>
      r10 = length h \<and> h10 = h @ [h10 ! r10] \<and> fitness (h10 ! r10) = 0 \<and>
      calculate_fitness h10 r10 (\<lambda>ch. 0) = h10)
   \<and> (swap_mutation h candidate rs = Inr (r11, h11, rs11) \<longrightarrow>
      r11 = length h \<and> h11 = h @ [h11 ! r11] \<and> fitness (h11 ! r11) = 0 \<and>
      calculate_fitness h11 r11 (\<lambda>ch. 0) = h11)
   \<and> (scramble_mutation h candidate rs = Inr (r12, h12, rs12) \<longrightarrow>
      r12 = length h \<and> h12 = h @ [h12 ! r12] \<and> fitness (h12 ! r12) = 0 \<and>
      calculate_fitness h12 r12 (\<lambda>ch. 0) = h12)
   \<and> (inversion_mutation h candidate rs = Inr (r13, h13, rs13) \<longrightarrow>
      r13 = length h \<and> h13 = h @ [h13 ! r13] \<and> fitness (h13 ! r13) = 0 \<and>
      calculate_fitness h13 r13 (\<lambda>ch. 0) = h13)
   \<and> (non_uniform_mutation h candidate generation max_generations mutation_probability rs = Inr (r14, h14, rs14) \<longrightarrow>
      r14 = length h \<and> h14 = h @ [h14 ! r14] \<and> fitness (h14 ! r14) = 0 \<and>
      calculate_fitness h14 r14 (\<lambda>ch. 0) = h14)
   \<and> (adaptive_mutation h candidate population improvement_threshold mutation_probability rs = Inr (r15, h15, rs15) \<longrightarrow>
      r15 = length h \<and> h15 = h @ [h15 ! r15] \<and> fitness (h15 ! r15) = 0 \<and>
      calculate_fitness h15 r15 (\<lambda>ch. 0) = h15)"
  using return_Candidate_fresh adaptive_mutation_fresh
  unfolding n_point_crossover_def
    uniform_crossover_def
    arithmetic_crossover_def
    blend_crossover_def
    cut_and_splice_crossover_def
    order_crossover_def
    uniform_mutation_def
    multi_point_mutation_def
    gaussian_mutation_def
    boundary_mutation_def
    swap_mutation_def
    scramble_mutation_def
    inversion_mutation_def
    non_uniform_mutation_def
  by (intro conjI impI) blast+

theorem operators_return_unevaluated_offspring_witness:
  "n_point_crossover
     [\<lparr>chromosome = [1, 2, 3], fitness = 5\<rparr>, \<lparr>chromosome = [3, 1, 2], fitness = 9\<rparr>]
     0 1 2 (sconst 0)
   = Inr (2, [\<lparr>chromosome = [1, 2, 3], fitness = 5\<rparr>, \<lparr>chromosome = [3, 1, 2], fitness = 9\<rparr>,
          \<lparr>chromosome = [1, 1, 3], fitness = 0\<rparr>], sconst 0)
   \<and> fitness ([\<lparr>chromosome = [1, 2, 3], fitness = 5\<rparr>, \<lparr>chromosome = [3, 1, 2], fitness = 9\<rparr>,
          \<lparr>chromosome = [1, 1, 3], fitness = 0\<rparr>] ! 2) = 0
   \<and> uniform_crossover
     [\<lparr>chromosome = [1, 2, 3], fitness = 5\<rparr>, \<lparr>chromosome = [3, 1, 2], fitness = 9\<rparr>]
     0 1 (sconst 0)
   = Inr (2, [\<lparr>chromosome = [1, 2, 3], fitness = 5\<rparr>, \<lparr>chromosome = [3, 1, 2], fitness = 9\<rparr>,
          \<lparr>chromosome = [1, 2, 3], fitness = 0\<rparr>], sconst 0)
   \<and> fitness ([\<lparr>chromosome = [1, 2, 3], fitness = 5\<rparr>, \<lparr>chromosome = [3, 1, 2], fitness = 9\<rparr>,
          \<lparr>chromosome = [1, 2, 3], fitness = 0\<rparr>] ! 2) = 0
   \<and> arithmetic_crossover
     [\<lparr>chromosome = [1, 2, 3], fitness = 5\<rparr>, \<lparr>chromosome = [3, 1, 2], fitness = 9\<rparr>]
     0 1 (1 / 2) (sconst 0)
   = Inr (2, [\<lparr>chromosome = [1, 2, 3], fitness = 5\<rparr>, \<lparr>chromosome = [3, 1, 2], fitness = 9\<rparr>,
          \<lparr>chromosome = [2, 3 / 2, 5 / 2], fitness = 0\<rparr>], sconst 0)
   \<and> fitness ([\<lparr>chromosome = [1, 2, 3], fitness = 5\<rparr>, \<lparr>chromosome = [3, 1, 2], fitness = 9\<rparr>,
          \<lparr>chromosome = [2, 3 / 2, 5 / 2], fitness = 0\<rparr>] ! 2) = 0
   \<and> blend_crossover
     [\<lparr>chromosome = [1, 2, 3], fitness = 5\<rparr>, \<lparr>chromosome = [3, 1, 2], fitness = 9\<rparr>]
     0 1 (1 / 2) (sconst 0)
   = Inr (2, [\<lparr>chromosome = [1, 2, 3], fitness = 5\<rparr>, \<lparr>chromosome = [3, 1, 2], fitness = 9\<rparr>,
          \<lparr>chromosome = [0, 1 / 2, 3 / 2], fitness = 0\<rparr>], sconst 0)
   \<and> fitness ([\<lparr>chromosome = [1, 2, 3], fitness = 5\<rparr>, \<lparr>chromosome = [3, 1, 2], fitness = 9\<rparr>,
          \<lparr>chromosome = [0, 1 / 2, 3 / 2], fitness = 0\<rparr>] ! 2) = 0
   \<and> cut_and_splice_crossover
     [\<lparr>chromosome = [1, 2, 3], fitness = 5\<rparr>, \<lparr>chromosome = [3, 1, 2], fitness = 9\<rparr>]
     0 1 (sconst 0)
   = Inr (2, [\<lparr>chromosome = [1, 2, 3], fitness = 5\<rparr>, \<lparr>chromosome = [3, 1, 2], fitness = 9\<rparr>,
          \<lparr>chromosome = [3, 1, 2], fitness = 0\<rparr>], sconst 0)
   \<and> fitness ([\<lparr>chromosome = [1, 2, 3], fitness = 5\<rparr>, \<lparr>chromosome = [3, 1, 2], fitness = 9\<rparr>,
          \<lparr>chromosome = [3, 1, 2], fitness = 0\<rparr>] ! 2) = 0
   \<and> order_crossover
     [\<lparr>chromosome = [1, 2, 3], fitness = 5\<rparr>, \<lparr>chromosome = [3, 1, 2], fitness = 9\<rparr>]
     0 1 (sconst 0)
   = Inr (2, [\<lparr>chromosome = [1, 2, 3], fitness = 5\<rparr>, \<lparr>chromosome = [3, 1, 2], fitness = 9\<rparr>,
          \<lparr>chromosome = [1, 3, 2], fitness = 0\<rparr>], sconst 0)
   \<and> fitness ([\<lparr>chromosome = [1, 2, 3], fitness = 5\<rparr>, \<lparr>chromosome = [3, 1, 2], fitness = 9\<rparr>,
          \<lparr>chromosome = [1, 3, 2], fitness = 0\<rparr>] ! 2) = 0
   \<and> uniform_mutation
     [\<lparr>chromosome = [1, 2, 3], fitness = 5\<rparr>, \<lparr>chromosome = [3, 1, 2], fitness = 9\<rparr>]
     0 (1 / 2) (sconst 0)
   = Inr (2, [\<lparr>chromosome = [1, 2, 3], fitness = 5\<rparr>, \<lparr>chromosome = [3, 1, 2], fitness = 9\<rparr>,
          \<lparr>chromosome = [0, 0, 0], fitness = 0\<rparr>], sconst 0)
   \<and> fitness ([\<lparr>chromosome = [1, 2, 3], fitness = 5\<rparr>, \<lparr>chromosome = [3, 1, 2], fitness = 9\<rparr>,
          \<lparr>chromosome = [0, 0, 0], fitness = 0\<rparr>] ! 2) = 0
   \<and> multi_point_mutation
     [\<lparr>chromosome = [1, 2, 3], fitness = 5\<rparr>, \<lparr>chromosome = [3, 1, 2], fitness = 9\<rparr>]
     0 1 (sconst 0)
   = Inr (2, [\<lparr>chromosome = [1, 2, 3], fitness = 5\<rparr>, \<lparr>chromosome = [3, 1, 2], fitness = 9\<rparr>,
          \<lparr>chromosome = [0, 2, 3], fitness = 0\<rparr>], sconst 0)
   \<and> fitness ([\<lparr>chromosome = [1, 2, 3], fitness = 5\<rparr>, \<lparr>chromosome = [3, 1, 2], fitness = 9\<rparr>,
          \<lparr>chromosome = [0, 2, 3], fitness = 0\<rparr>] ! 2) = 0
   \<and> gaussian_mutation
     [\<lparr>chromosome = [1, 2, 3], fitness = 5\<rparr>, \<lparr>chromosome = [3, 1, 2], fitness = 9\<rparr>]
     0 0 1 (sconst 0)
   = Inr (2, [\<lparr>chromosome = [1, 2, 3], fitness = 5\<rparr>, \<lparr>chromosome = [3, 1, 2], fitness = 9\<rparr>,
          \<lparr>chromosome = [1, 2, 3], fitness = 0\<rparr>], sconst 0)
   \<and> fitness ([\<lparr>chromosome = [1, 2, 3], fitness = 5\<rparr>, \<lparr>chromosome = [3, 1, 2], fitness = 9\<rparr>,
          \<lparr>chromosome = [1, 2, 3], fitness = 0\<rparr>] ! 2) = 0
   \<and> boundary_mutation
     [\<lparr>chromosome = [1, 2, 3], fitness = 5\<rparr>, \<lparr>chromosome = [3, 1, 2], fitness = 9\<rparr>]
     0 (- 1) 7 (sconst 0)
   = Inr (2, [\<lparr>chromosome = [1, 2, 3], fitness = 5\<rparr>, \<lparr>chromosome = [3, 1, 2], fitness = 9\<rparr>,
          \<lparr>chromosome = [- 1, 2, 3], fitness = 0\<rparr>], sconst 0)
   \<and> fitness ([\<lparr>chromosome = [1, 2, 3], fitness = 5\<rparr>, \<lparr>chromosome = [3, 1, 2], fitness = 9\<rparr>,
          \<lparr>chromosome = [- 1, 2, 3], fitness = 0\<rparr>] ! 2) = 0
   \<and> swap_mutation
     [\<lparr>chromosome = [1, 2, 3], fitness = 5\<rparr>, \<lparr>chromosome = [3, 1, 2], fitness = 9\<rparr>]
     0 (sconst 0)
   = Inr (2, [\<lparr>chromosome = [1, 2, 3], fitness = 5\<rparr>, \<lparr>chromosome = [3, 1, 2], fitness = 9\<rparr>,
          \<lparr>chromosome = [2, 1, 3], fitness = 0\<rparr>], sconst 0)
   \<and> fitness ([\<lparr>chromosome = [1, 2, 3], fitness = 5\<rparr>, \<lparr>chromosome = [3, 1, 2], fitness = 9\<rparr>,
          \<lparr>chromosome = [2, 1, 3], fitness = 0\<rparr>] ! 2) = 0
   \<and> scramble_mutation
     [\<lparr>chromosome = [1, 2, 3], fitness = 5\<rparr>, \<lparr>chromosome = [3, 1, 2], fitness = 9\<rparr>]
     0 (sconst 0)
   = Inr (2, [\<lparr>chromosome = [1, 2, 3], fitness = 5\<rparr>, \<lparr>chromosome = [3, 1, 2], fitness = 9\<rparr>,
          \<lparr>chromosome = [1, 2, 3], fitness = 0\<rparr>], sconst 0)
   \<and> fitness ([\<lparr>chromosome = [1, 2, 3], fitness = 5\<rparr>, \<lparr>chromosome = [3, 1, 2], fitness = 9\<rparr>,
          \<lparr>chromosome = [1, 2, 3], fitness = 0\<rparr>] ! 2) = 0
   \<and> inversion_mutation
     [\<lparr>chromosome = [1, 2, 3], fitness = 5\<rparr>, \<lparr>chromosome = [3, 1, 2], fitness = 9\<rparr>]
     0 (sconst 0)
   = Inr (2, [\<lparr>chromosome = [1, 2, 3], fitness = 5\<rparr>, \<lparr>chromosome = [3, 1, 2], fitness = 9\<rparr>,
          \<lparr>chromosome = [1, 2, 3], fitness = 0\<rparr>], sconst 0)
   \<and> fitness ([\<lparr>chromosome = [1, 2, 3], fitness = 5\<rparr>, \<lparr>chromosome = [3, 1, 2], fitness = 9\<rparr>,
          \<lparr>chromosome = [1, 2, 3], fitness = 0\<rparr>] ! 2) = 0
   \<and> non_uniform_mutation
     [\<lparr>chromosome = [1, 2, 3], fitness = 5\<rparr>, \<lparr>chromosome = [3, 1, 2], fitness = 9\<rparr>]
     0 1 2 (1 / 2) (sconst 0)
   = Inr (2, [\<lparr>chromosome = [1, 2, 3], fitness = 5\<rparr>, \<lparr>chromosome = [3, 1, 2], fitness = 9\<rparr>,
          \<lparr>chromosome = [1, 2, 3], fitness = 0\<rparr>], sconst 0)
   \<and> fitness ([\<lparr>chromosome = [1, 2, 3], fitness = 5\<rparr>, \<lparr>chromosome = [3, 1, 2], fitness = 9\<rparr>,
          \<lparr>chromosome = [1, 2, 3], fitness = 0\<rparr>] ! 2) = 0
   \<and> adaptive_mutation
     [\<lparr>chromosome = [1, 2, 3], fitness = 5\<rparr>, \<lparr>chromosome = [3, 1, 2], fitness = 9\<rparr>]
     0 [0, 1] (1 / 10) (1 / 2) (sconst 0)
   = Inr (2, [\<lparr>chromosome = [1, 2, 3], fitness = 5\<rparr>, \<lparr>chromosome = [3, 1, 2], fitness = 9\<rparr>,
          \<lparr>chromosome = [0, 0, 0], fitness = 0\<rparr>], sconst 0)
   \<and> fitness ([\<lparr>chromosome = [1, 2, 3], fitness = 5\<rparr>, \<lparr>chromosome = [3, 1, 2], fitness = 9\<rparr>,
          \<lparr>chromosome = [0, 0, 0], fitness = 0\<rparr>] ! 2) = 0"
  using operators_return_unevaluated_offspring
    [of "[\<lparr>chromosome = [1, 2, 3], fitness = 5\<rparr>, \<lparr>chromosome = [3, 1, 2], fitness = 9\<rparr>]" 0 1 2 "sconst 0" 2 "[\<lparr>chromosome = [1, 2, 3], fitness = 5\<rparr>, \<lparr>chromosome = [3, 1, 2], fitness = 9\<rparr>,
          \<lparr>chromosome = [1, 1, 3], fitness = 0\<rparr>]" "sconst 0" 2 "[\<lparr>chromosome = [1, 2, 3], fitness = 5\<rparr>, \<lparr>chromosome = [3, 1, 2], fitness = 9\<rparr>,
          \<lparr>chromosome = [1, 2, 3], fitness = 0\<rparr>]" "sconst 0" "1 / 2" 2 "[\<lparr>chromosome = [1, 2, 3], fitness = 5\<rparr>, \<lparr>chromosome = [3, 1, 2], fitness = 9\<rparr>,
          \<lparr>chromosome = [2, 3 / 2, 5 / 2], fitness = 0\<rparr>]" "sconst 0" 2 "[\<lparr>chromosome = [1, 2, 3], fitness = 5\<rparr>, \<lparr>chromosome = [3, 1, 2], fitness = 9\<rparr>,
          \<lparr>chromosome = [0, 1 / 2, 3 / 2], fitness = 0\<rparr>]" "sconst 0" 2 "[\<lparr>chromosome = [1, 2, 3], fitness = 5\<rparr>, \<lparr>chromosome = [3, 1, 2], fitness = 9\<rparr>,
          \<lparr>chromosome = [3, 1, 2], fitness = 0\<rparr>]" "sconst 0" 2 "[\<lparr>chromosome = [1, 2, 3], fitness = 5\<rparr>, \<lparr>chromosome = [3, 1, 2], fitness = 9\<rparr>,
          \<lparr>chromosome = [1, 3, 2], fitness = 0\<rparr>]" "sconst 0" 0 "1 / 2" 2 "[\<lparr>chromosome = [1, 2, 3], fitness = 5\<rparr>, \<lparr>chromosome = [3, 1, 2], fitness = 9\<rparr>,
          \<lparr>chromosome = [0, 0, 0], fitness = 0\<rparr>]" "sconst 0" 1 2 "[\<lparr>chromosome = [1, 2, 3], fitness = 5\<rparr>, \<lparr>chromosome = [3, 1, 2], fitness = 9\<rparr>,
          \<lparr>chromosome = [0, 2, 3], fitness = 0\<rparr>]" "sconst 0" 0 1 2 "[\<lparr>chromosome = [1, 2, 3], fitness = 5\<rparr>, \<lparr>chromosome = [3, 1, 2], fitness = 9\<rparr>,
          \<lparr>chromosome = [1, 2, 3], fitness = 0\<rparr>]" "sconst 0" "- 1" 7 2 "[\<lparr>chromosome = [1, 2, 3], fitness = 5\<rparr>, \<lparr>chromosome = [3, 1, 2], fitness = 9\<rparr>,
          \<lparr>chromosome = [- 1, 2, 3], fitness = 0\<rparr>]" "sconst 0" 2 "[\<lparr>chromosome = [1, 2, 3], fitness = 5\<rparr>, \<lparr>chromosome = [3, 1, 2], fitness = 9\<rparr>,
          \<lparr>chromosome = [2, 1, 3], fitness = 0\<rparr>]" "sconst 0" 2 "[\<lparr>chromosome = [1, 2, 3], fitness = 5\<rparr>, \<lparr>chromosome = [3, 1, 2], fitness = 9\<rparr>,
          \<lparr>chromosome = [1, 2, 3], fitness = 0\<rparr>]" "sconst 0" 2 "[\<lparr>chromosome = [1, 2, 3], fitness = 5\<rparr>, \<lparr>chromosome = [3, 1, 2], fitness = 9\<rparr>,
          \<lparr>chromosome = [1, 2, 3], fitness = 0\<rparr>]" "sconst 0" 1 2 2 "[\<lparr>chromosome = [1, 2, 3], fitness = 5\<rparr>, \<lparr>chromosome = [3, 1, 2], fitness = 9\<rparr>,
          \<lparr>chromosome = [1, 2, 3], fitness = 0\<rparr>]" "sconst 0" "[0, 1]" "1 / 10" 2 "[\<lparr>chromosome = [1, 2, 3], fitness = 5\<rparr>, \<lparr>chromosome = [3, 1, 2], fitness = 9\<rparr>,
          \<lparr>chromosome = [0, 0, 0], fitness = 0\<rparr>]" "sconst 0"]
    n_point_crossover_example
    uniform_crossover_example
    arithmetic_crossover_example
    blend_crossover_example
    cut_and_splice_crossover_same_length_example
    order_crossover_example
    uniform_mutation_example
    multi_point_mutation_example
    gaussian_mutation_example
    boundary_mutation_example
    swap_mutation_example
    scramble_mutation_example
    inversion_mutation_example
    non_uniform_mutation_example
    adaptive_mutation_example
  by simp

subsection \<open>Order crossover\<close>

text \<open>
  Filling the slots: when there are at least as many genes as empty slots, the result
  holds the genes already placed and the first genes of the supply, one per empty slot.
\<close>

lemma order_fill_mset:
  "length (filter (\<lambda>s. s = None) slots) \<le> length genes \<Longrightarrow>
     \<exists>ch. order_fill slots genes = Inr ch \<and>
          mset ch = mset (map the (filter (\<lambda>s. s \<noteq> None) slots))
                    + mset (take (length (filter (\<lambda>s. s = None) slots)) genes)"
proof (induction slots genes rule: order_fill.induct)
  case (1 parent2_genes)
  then show ?case by simp
next
  case (2 g slots parent2_genes)
  then show ?case by auto
next
  case (3 slots)
  then show ?case by simp
next
  case (4 slots g parent2_genes)
  then show ?case by auto
qed

lemma order_crossover_chromosome_mset:
  assumes d: "distinct c1" and m: "mset c2 = mset c1"
    and seg: "random_segment (length c1) rs = Inr ((start, end), rs')"
  shows "\<exists>ch. order_crossover_chromosome c1 c2 rs = Inr (ch, rs') \<and> mset ch = mset c1"
proof -
  from random_segment_Inr [OF seg] have b: "start < end" "end < length c1" by auto
  let ?seg = "slice start end c1"
  let ?slots = "take start (replicate (length c1) None)
      @ map Some ?seg @ drop end (replicate (length c1) None)"
  let ?genes = "filter (\<lambda>gene. Some gene \<notin> set ?slots) c2"
  have d2: "distinct c2" using d m by (metis mset_eq_imp_distinct_iff)
  have s2: "set c2 = set c1" using m by (metis mset_eq_setD)
  have l2: "length c2 = length c1" using m by (metis mset_eq_length)
  have dseg: "distinct ?seg" using d by (simp add: slice_def)
  have sseg: "set ?seg \<subseteq> set c1"
    unfolding slice_def using set_take_subset set_drop_subset by fast
  have lseg: "length ?seg = end - start" using b by (simp add: length_slice)
  have test: "Some gene \<notin> set ?slots \<longleftrightarrow> gene \<notin> set ?seg" for gene
    by (auto dest: in_set_takeD in_set_dropD)
  then have genes: "?genes = filter (\<lambda>gene. gene \<notin> set ?seg) c2" by simp
  have fs: "set (filter (\<lambda>gene. gene \<in> set ?seg) c2) = set ?seg"
    using sseg s2 by auto
  have fd: "distinct (filter (\<lambda>gene. gene \<in> set ?seg) c2)" using d2 by simp
  have in_seg: "mset (filter (\<lambda>gene. gene \<in> set ?seg) c2) = mset ?seg"
    using set_eq_iff_mset_eq_distinct [OF fd dseg] fs by blast
  have part: "mset c2 = mset (filter (\<lambda>gene. gene \<in> set ?seg) c2) + mset ?genes"
    unfolding genes by (simp only: mset_filter) (rule multiset_partition)
  then have "length c2 = length ?seg + length ?genes"
    by (metis in_seg size_mset size_union)
  then have lgenes: "length ?genes = length c1 - (end - start)"
    using l2 lseg by simp
  have nones: "filter (\<lambda>s. s = None) ?slots
      = replicate start None @ replicate (length c1 - end) None"
    using b by (simp add: filter_replicate)
  have somes: "map the (filter (\<lambda>s. s \<noteq> None) ?slots) = ?seg"
    using b by (simp add: filter_replicate filter_map comp_def)
  have enough: "length (filter (\<lambda>s. s = None) ?slots) = length ?genes"
    using nones lgenes b by simp
  then have "length (filter (\<lambda>s. s = None) ?slots) \<le> length ?genes" by simp
  from order_fill_mset [OF this] obtain ch where
    f: "order_fill ?slots ?genes = Inr ch" and
    mc: "mset ch = mset (map the (filter (\<lambda>s. s \<noteq> None) ?slots))
                    + mset (take (length (filter (\<lambda>s. s = None) ?slots)) ?genes)"
    by blast
  have "mset ch = mset ?seg + mset ?genes"
    using mc somes enough by simp
  with part in_seg m have "mset ch = mset c1" by simp
  moreover have "order_crossover_chromosome c1 c2 rs = Inr (ch, rs')"
    using seg f by (simp add: order_crossover_chromosome_def Let_def)
  ultimately show ?thesis by blast
qed

text \<open>
  Claim C7. When the parents' chromosomes are permutations of the same distinct
  values, the offspring of \<^verbatim>\<open>order_crossover\<close> is a permutation of these values, for
  every choice of the segment; the operator returns whenever the chromosomes have at
  least two genes (\<^verbatim>\<open>random.sample\<close> raises ValueError on shorter ones).
\<close>

theorem order_crossover_permutation:
  assumes "distinct (chromosome (h ! parent1))"
    and "mset (chromosome (h ! parent2)) = mset (chromosome (h ! parent1))"
  shows "(order_crossover h parent1 parent2 rs = Inr (r, h', rs') \<longrightarrow>
            mset (chromosome (h' ! r)) = mset (chromosome (h ! parent1)))
       \<and> (2 \<le> length (chromosome (h ! parent1)) \<longrightarrow>
            (\<exists>r h' rs'. order_crossover h parent1 parent2 rs = Inr (r, h', rs')))"
proof (intro conjI impI)
  let ?c1 = "chromosome (h ! parent1)" and ?c2 = "chromosome (h ! parent2)"
  {
    assume "order_crossover h parent1 parent2 rs = Inr (r, h', rs')"
    then have o: "order_crossover_chromosome ?c1 ?c2 rs = Inr (chromosome (h' ! r), rs')"
      by (auto simp: order_crossover_def dest!: return_Candidate_offspring)
    then obtain start "end" where
      "random_segment (length ?c1) rs = Inr ((start, end), rs')"
      by (auto simp: order_crossover_chromosome_def Let_def split: sum.splits prod.splits)
    from order_crossover_chromosome_mset [OF assms this] o
    show "mset (chromosome (h' ! r)) = mset ?c1" by auto
  }
  {
    assume "2 \<le> length ?c1"
    from random_segment_returns [OF this, of rs] obtain start "end" rs' where
      "random_segment (length ?c1) rs = Inr ((start, end), rs')" by blast
    from order_crossover_chromosome_mset [OF assms this]
    show "\<exists>r h' rs'. order_crossover h parent1 parent2 rs = Inr (r, h', rs')"
      by (auto simp: order_crossover_def return_Candidate_def Candidate_init_def)
  }
qed

theorem order_crossover_permutation_witness:
  "distinct (chromosome
      ([\<lparr>chromosome = [1, 2, 3], fitness = 5\<rparr>, \<lparr>chromosome = [3, 1, 2], fitness = 9\<rparr>] ! 0))
   \<and> mset (chromosome
        ([\<lparr>chromosome = [1, 2, 3], fitness = 5\<rparr>, \<lparr>chromosome = [3, 1, 2], fitness = 9\<rparr>] ! 1))
     = mset (chromosome
        ([\<lparr>chromosome = [1, 2, 3], fitness = 5\<rparr>, \<lparr>chromosome = [3, 1, 2], fitness = 9\<rparr>] ! 0))
   \<and> order_crossover
       [\<lparr>chromosome = [1, 2, 3], fitness = 5\<rparr>, \<lparr>chromosome = [3, 1, 2], fitness = 9\<rparr>]
       0 1 (sconst 0)
     = Inr (2, [\<lparr>chromosome = [1, 2, 3], fitness = 5\<rparr>, \<lparr>chromosome = [3, 1, 2], fitness = 9\<rparr>,
          \<lparr>chromosome = [1, 3, 2], fitness = 0\<rparr>], sconst 0)
   \<and> (2::nat) \<le> length (chromosome
        ([\<lparr>chromosome = [1, 2, 3], fitness = 5\<rparr>, \<lparr>chromosome = [3, 1, 2], fitness = 9\<rparr>] ! 0))
   \<and> mset (chromosome
        ([\<lparr>chromosome = [1, 2, 3], fitness = 5\<rparr>, \<lparr>chromosome = [3, 1, 2], fitness = 9\<rparr>,
          \<lparr>chromosome = [1, 3, 2], fitness = 0\<rparr>] ! 2))
     = mset (chromosome
        ([\<lparr>chromosome = [1, 2, 3], fitness = 5\<rparr>, \<lparr>chromosome = [3, 1, 2], fitness = 9\<rparr>] ! 0))"
proof -
  let ?h = "[\<lparr>chromosome = [1, 2, 3], fitness = 5\<rparr>, \<lparr>chromosome = [3, 1, 2], fitness = 9\<rparr>]"
  have a: "distinct (chromosome (?h ! 0))" by simp
  have b: "mset (chromosome (?h ! 1)) = mset (chromosome (?h ! 0))" by simp
  from order_crossover_permutation [OF a b, of "sconst 0" 2
      "[\<lparr>chromosome = [1, 2, 3], fitness = 5\<rparr>, \<lparr>chromosome = [3, 1, 2], fitness = 9\<rparr>,
        \<lparr>chromosome = [1, 3, 2], fitness = 0\<rparr>]" "sconst 0"]
    order_crossover_example a b
  show ?thesis by simp
qed

end
